theory Spec2Isabelle
  imports Complex_Main "HOL-Library.Word"
begin

unbundle bit_operations_syntax

section \<open>Shared vocabulary\<close>

text \<open>
  A Python \<open>bytes\<close> object is a list of 8-bit words, a \<open>str\<close> is a \<open>string\<close>.
  Python integers read from the wire are never negative and are modelled as \<open>nat\<close>.
  A 32-bit float is kept as the 32 bits that \<open>struct.unpack('>f')\<close> reads: no theorem
  below depends on the numeric value of a float.
\<close>

type_synonym byte = "8 word"
type_synonym float32 = "32 word"

text \<open>
  The exceptions of \<open>mvn_exceptions.py\<close>, each with the arguments its constructor is
  given (message first), and the built-in Python exceptions the code can meet. A message
  holds the text of the source's f-string; where the source appends the interpreter's own
  text of a caught exception (\<open>str(e)\<close>) that suffix is left out.
\<close>

datatype exn =
    MVNParseError string "string option" "nat option"
  | MVNProtocolError string "string option"
  | MVNDatagramError string "nat option" "nat option"
  | MVNSegmentError string "nat option"
  | StructError
  | UnicodeDecodeError
  | IndexError
  | TypeError
  | ValueError
  | KeyError

fun is_MVNError :: "exn \<Rightarrow> bool" where
  "is_MVNError (MVNParseError m d p) = True"
| "is_MVNError (MVNProtocolError m p) = True"
| "is_MVNError (MVNDatagramError m d s) = True"
| "is_MVNError (MVNSegmentError m s) = True"
| "is_MVNError e = False"

definition bind_exn :: "exn + 'a \<Rightarrow> ('a \<Rightarrow> exn + 'b) \<Rightarrow> exn + 'b" where
  "bind_exn r f = (case r of Inl e \<Rightarrow> Inl e | Inr x \<Rightarrow> f x)"

text \<open>Decimal formatting of an integer inside an f-string.\<close>

fun str_nat :: "nat \<Rightarrow> string" where
  "str_nat n =
     (if n < 10 then [char_of (48 + n)]
      else str_nat (n div 10) @ [char_of (48 + n mod 10)])"

declare str_nat.simps [simp del]

definition str_int :: "int \<Rightarrow> string" where
  "str_int i = (if i < 0 then CHR ''-'' # str_nat (nat (- i)) else str_nat (nat i))"

text \<open>\<open>data[a:b]\<close> for indices that are not negative.\<close>

definition slice :: "'a list \<Rightarrow> nat \<Rightarrow> nat \<Rightarrow> 'a list" where
  "slice data a b = drop a (take b data)"

text \<open>\<open>data[i]\<close> on bytes: the value of the byte, or IndexError.\<close>

definition byte_at :: "byte list \<Rightarrow> nat \<Rightarrow> exn + nat" where
  "byte_at data i = (if i < length data then Inr (unat (data ! i)) else Inl IndexError)"

text \<open>
  \<open>struct.unpack('>I', b)[0]\<close> and \<open>struct.unpack('>H', b)[0]\<close>: a big-endian unsigned
  integer of exactly \<open>n\<close> bytes; \<open>struct.error\<close> on any other length.
\<close>

definition be_nat :: "byte list \<Rightarrow> nat" where
  "be_nat bs = foldl (\<lambda>acc b. acc * 256 + unat b) 0 bs"

definition unpack_uint :: "nat \<Rightarrow> byte list \<Rightarrow> exn + nat" where
  "unpack_uint n bs = (if length bs = n then Inr (be_nat bs) else Inl StructError)"

text \<open>\<open>b.decode('ascii')\<close>: every byte must be below 128.\<close>

definition decode_ascii :: "byte list \<Rightarrow> exn + string" where
  "decode_ascii bs =
     (if list_all (\<lambda>b. b < 128) bs then Inr (map (\<lambda>b. char_of (unat b)) bs)
      else Inl UnicodeDecodeError)"

definition startswith :: "string \<Rightarrow> string \<Rightarrow> bool" where
  "startswith s p = (take (length p) s = p)"

section \<open>mvn_types.py: the header and the datagram counter\<close>

record mvn_header =
  id_string :: string
  sample_counter :: nat
  datagram_counter :: nat
  num_items :: nat
  time_code :: nat
  character_id :: nat
  num_segments :: nat
  num_props :: nat
  num_fingers :: nat
  payload_size :: nat

definition is_last_datagram :: "nat \<Rightarrow> bool" where
  "is_last_datagram counter = (counter AND 0x80 \<noteq> 0)"

definition get_datagram_index :: "nat \<Rightarrow> nat" where
  "get_datagram_index counter = counter AND 0x7F"

section \<open>mvn_parser.py: the header codec\<close>

definition validate_data_length :: "byte list \<Rightarrow> nat \<Rightarrow> string \<Rightarrow> nat \<Rightarrow> exn + unit" where
  "validate_data_length data required_length data_type offset =
     (if int (length data) - int offset < int required_length
      then Inl (MVNParseError
             (''Insufficient data length. Required: '' @ str_nat required_length @
              '', Available: '' @ str_int (int (length data) - int offset))
             (Some data_type) (Some offset))
      else Inr ())"

text \<open>The body of the \<open>try\<close> block of \<open>parse_header\<close>.\<close>

definition parse_header_try :: "byte list \<Rightarrow> exn + (mvn_header \<times> nat)" where
  "parse_header_try data =
     bind_exn (validate_data_length data 24 ''header'' 0) (\<lambda>_.
     bind_exn (decode_ascii (slice data 0 6)) (\<lambda>id_string.
     if \<not> startswith id_string ''MXTP''
     then Inl (MVNProtocolError (''Invalid header ID: '' @ id_string) (Some ''MVN''))
     else
     bind_exn (unpack_uint 4 (slice data 6 10)) (\<lambda>sample_counter.
     bind_exn (byte_at data 10) (\<lambda>datagram_counter.
     bind_exn (byte_at data 11) (\<lambda>num_items.
     bind_exn (unpack_uint 4 (slice data 12 16)) (\<lambda>time_code.
     bind_exn (byte_at data 16) (\<lambda>character_id.
     bind_exn (byte_at data 17) (\<lambda>num_segments.
     bind_exn (byte_at data 18) (\<lambda>num_props.
     bind_exn (byte_at data 19) (\<lambda>num_fingers.
     bind_exn (unpack_uint 2 (slice data 22 24)) (\<lambda>payload_size.
     Inr (\<lparr>id_string = id_string, sample_counter = sample_counter,
           datagram_counter = datagram_counter, num_items = num_items,
           time_code = time_code, character_id = character_id,
           num_segments = num_segments, num_props = num_props,
           num_fingers = num_fingers, payload_size = payload_size\<rparr>, 24))))))))))))"

text \<open>
  \<open>parse_header\<close> with its two \<open>except\<close> clauses: \<open>struct.error\<close> and
  \<open>UnicodeDecodeError\<close> become parse errors of data type "header"; every other
  exception passes through.
\<close>

definition parse_header :: "byte list \<Rightarrow> exn + (mvn_header \<times> nat)" where
  "parse_header data =
     (case parse_header_try data of
        Inl StructError \<Rightarrow>
          Inl (MVNParseError ''Failed to unpack header data'' (Some ''header'') None)
      | Inl UnicodeDecodeError \<Rightarrow>
          Inl (MVNParseError ''Failed to decode header string'' (Some ''header'') None)
      | r \<Rightarrow> r)"

section \<open>mvn_receiver.py: the receiver state\<close>

text \<open>
  What a Python call passes and what a Python tuple holds: a sequence of values, each a
  string (the message-kind code), a decoded payload or a header.
\<close>

datatype 'd py_val = PyStr string | PyData 'd | PyHeader mvn_header

text \<open>
  The fields of \<open>MVNReceiver\<close> that the methods below read or write. \<open>callback\<close>
  says whether a handler was registered; \<open>callback_calls\<close> records the positional
  arguments of each call of the handler, oldest first. \<open>data_queue\<close> is the content of
  the \<open>queue.Queue\<close>, oldest first, and \<open>queue_size\<close> its \<open>maxsize\<close>. An entry of
  \<open>partial_datagrams\<close> is the Python list of one key: \<open>None\<close> for an index not seen yet.
  The socket, the thread and the logger are not modelled.
\<close>

record 'd receiver =
  callback :: bool
  callback_calls :: "'d py_val list list"
  data_queue :: "'d py_val list list"
  queue_size :: int
  running :: bool
  last_sample_counter :: "nat option"
  partial_datagrams :: "nat \<times> nat \<rightharpoonup> byte list option list"
  connected_characters :: "nat set"
  partial_datagram_times :: "nat \<times> nat \<rightharpoonup> real"

text \<open>
  \<open>__init__\<close> with the handler (registered or not) and the queue size it is given, and
  what \<open>start\<close> does to these fields.
\<close>

definition init_receiver :: "bool \<Rightarrow> int \<Rightarrow> 'd receiver" where
  "init_receiver cb qsize =
     \<lparr>callback = cb, callback_calls = [], data_queue = [], queue_size = qsize,
      running = False, last_sample_counter = None, partial_datagrams = Map.empty,
      connected_characters = {}, partial_datagram_times = Map.empty\<rparr>"

definition start :: "'d receiver \<Rightarrow> 'd receiver" where
  "start self = self\<lparr>running := True\<rparr>"

section \<open>mvn_receiver.py: the reassembly tracker\<close>

text \<open>\<open>while len(l) <= datagram_index: l.append(None)\<close>\<close>

function extend_slots :: "'a option list \<Rightarrow> nat \<Rightarrow> 'a option list" where
  "extend_slots l datagram_index =
     (if length l \<le> datagram_index then extend_slots (l @ [None]) datagram_index else l)"
  by pat_completeness auto
termination
  by (relation "measure (\<lambda>(l, datagram_index). Suc datagram_index - length l)") auto

declare extend_slots.simps [simp del]

definition handle_partial_datagram ::
  "'d receiver \<Rightarrow> mvn_header \<Rightarrow> byte list \<Rightarrow> 'd receiver" where
  "handle_partial_datagram self header payload =
     (let key = (sample_counter header, character_id header);
          datagram_index = get_datagram_index (datagram_counter header);
          l = (case partial_datagrams self key of None \<Rightarrow> [] | Some l \<Rightarrow> l);
          l = extend_slots l datagram_index
      in self\<lparr>partial_datagrams :=
                (partial_datagrams self)(key \<mapsto> l[datagram_index := Some payload])\<rparr>)"

text \<open>
  \<open>_get_complete_payload\<close> returns the payload or raises, and in both cases may have
  changed the tracker: the result is paired with the receiver afterwards.
  \<open>b''.join\<close> raises \<open>TypeError\<close> when the list still holds a \<open>None\<close>.
\<close>

definition get_complete_payload ::
  "'d receiver \<Rightarrow> mvn_header \<Rightarrow> byte list \<Rightarrow> (exn + byte list) \<times> 'd receiver" where
  "get_complete_payload self header payload =
     (if is_last_datagram (datagram_counter header) \<and>
         get_datagram_index (datagram_counter header) = 0
      then
        (if length payload < payload_size header
         then (Inl (MVNDatagramError
                 (''Payload size mismatch. Expected: '' @ str_nat (payload_size header) @
                  '', Got: '' @ str_nat (length payload))
                 (Some (datagram_counter header)) (Some (sample_counter header))), self)
         else (Inr payload, self))
      else
        (let key = (sample_counter header, character_id header) in
         case partial_datagrams self key of
           None \<Rightarrow>
             (Inl (MVNDatagramError ''Missing partial datagrams''
                (Some (datagram_counter header)) (Some (sample_counter header))), self)
         | Some l \<Rightarrow>
             (let datagram_index = get_datagram_index (datagram_counter header);
                  l = (extend_slots l datagram_index)[datagram_index := Some payload];
                  self = self\<lparr>partial_datagrams := (partial_datagrams self)(key \<mapsto> l)\<rparr>
              in
              if None \<in> set (take (datagram_index + 1) l)
              then (Inl (MVNDatagramError ''Incomplete datagram sequence''
                      (Some (datagram_counter header)) (Some (sample_counter header))), self)
              else if None \<in> set l
              then (Inl TypeError, self)
              else
                (let complete_payload = concat (map the l);
                     self = self\<lparr>partial_datagrams := (partial_datagrams self)(key := None)\<rparr>
                 in
                 if length complete_payload < payload_size header
                 then (Inl (MVNDatagramError
                         (''Combined payload size mismatch. Expected: '' @
                          str_nat (payload_size header) @ '', Got: '' @
                          str_nat (length complete_payload))
                         (Some (datagram_counter header)) (Some (sample_counter header))),
                       self)
                 else (Inr complete_payload, self)))))"

text \<open>
  \<open>_cleanup_old_partial_datagrams\<close>, with the value of \<open>time.time()\<close> as an argument.
\<close>

definition cleanup_old_partial_datagrams :: "'d receiver \<Rightarrow> real \<Rightarrow> 'd receiver" where
  "cleanup_old_partial_datagrams self current_time =
     (let remove = (\<lambda>key. partial_datagrams self key \<noteq> None \<and>
            current_time -
              (case partial_datagram_times self key of None \<Rightarrow> 0 | Some t \<Rightarrow> t) > 1.0)
      in self\<lparr>partial_datagrams :=
                 (\<lambda>key. if remove key then None else partial_datagrams self key),
               partial_datagram_times :=
                 (\<lambda>key. if remove key then None else partial_datagram_times self key)\<rparr>)"

section \<open>mvn_receiver.py: dispatch\<close>

text \<open>
  \<open>_handle_parsed_data\<close>. The debug logging of tracker kinematics changes nothing.
  \<open>Queue.full()\<close> is \<open>0 < maxsize <= qsize()\<close>; \<open>get_nowait\<close> removes the oldest
  entry.
\<close>

definition handle_parsed_data ::
  "'d receiver \<Rightarrow> string \<Rightarrow> 'd \<Rightarrow> mvn_header \<Rightarrow> 'd receiver" where
  "handle_parsed_data self msg_type data header =
     (if callback self
      then self\<lparr>callback_calls := callback_calls self @ [[PyStr msg_type, PyData data]]\<rparr>
      else
        (let q = (if 0 < queue_size self \<and> queue_size self \<le> int (length (data_queue self))
                  then tl (data_queue self) else data_queue self)
         in self\<lparr>data_queue := q @ [[PyStr msg_type, PyData data]]\<rparr>))"

text \<open>\<open>stop\<close>: the fields it changes (closing the socket and joining the thread aside).\<close>

definition stop :: "'d receiver \<Rightarrow> 'd receiver" where
  "stop self = self\<lparr>running := False, data_queue := [],
                   partial_datagrams := Map.empty, connected_characters := {}\<rparr>"

section \<open>mvn_receiver.py: the receive loop\<close>

text \<open>
  \<open>MVNReceiver._parse_payload\<close>: the size check, then the parser's decoder for the
  message kind. The decoder is the argument \<open>decode\<close>; what the loop does to the
  receiver does not depend on which decoder it is. An exception that is not an
  \<open>MVNError\<close> is wrapped into a parse error.
\<close>

definition parse_payload ::
  "(string \<Rightarrow> byte list \<Rightarrow> mvn_header \<Rightarrow> exn + 'd option) \<Rightarrow>
   string \<Rightarrow> byte list \<Rightarrow> mvn_header \<Rightarrow> exn + 'd option" where
  "parse_payload decode msg_type payload_data header =
     (if length payload_data < payload_size header
      then Inl (MVNParseError
             (''Payload size mismatch. Expected: '' @ str_nat (payload_size header) @
              '', Got: '' @ str_nat (length payload_data))
             (Some (''type_'' @ msg_type)) None)
      else
        (case decode msg_type payload_data header of
           Inl e \<Rightarrow>
             (if is_MVNError e then Inl e
              else Inl (MVNParseError ''Failed to parse payload''
                     (Some (''type_'' @ msg_type)) None))
         | Inr r \<Rightarrow> Inr r))"

text \<open>
  Lines 134 to 140 of the loop: a datagram that is not the last of its message is stored
  and nothing is delivered (\<open>None\<close>); for a last datagram the complete payload is asked
  for.
\<close>

definition route_datagram ::
  "'d receiver \<Rightarrow> mvn_header \<Rightarrow> byte list \<Rightarrow> (exn + byte list) option \<times> 'd receiver" where
  "route_datagram self header payload =
     (if \<not> is_last_datagram (datagram_counter header)
      then (None, handle_partial_datagram self header payload)
      else (case get_complete_payload self header payload of
              (r, self') \<Rightarrow> (Some r, self')))"

text \<open>
  The inner \<open>try\<close> of one iteration, for a datagram \<open>data\<close> that \<open>recvfrom\<close> returned.
  Every exception ends the iteration (logged; after an exception that is not an
  \<open>MVNError\<close> the loop also sleeps), keeping what was written before it was raised.
\<close>

definition process_datagram ::
  "(string \<Rightarrow> byte list \<Rightarrow> mvn_header \<Rightarrow> exn + 'd option) \<Rightarrow>
   'd receiver \<Rightarrow> byte list \<Rightarrow> 'd receiver" where
  "process_datagram decode self data =
     (case parse_header data of
        Inl e \<Rightarrow> self
      | Inr (header, bytes_consumed) \<Rightarrow>
          (let self = self\<lparr>connected_characters :=
                             insert (character_id header) (connected_characters self),
                           last_sample_counter := Some (sample_counter header)\<rparr>
           in
           case route_datagram self header (drop bytes_consumed data) of
             (None, self') \<Rightarrow> self'
           | (Some (Inl e), self') \<Rightarrow> self'
           | (Some (Inr payload_data), self') \<Rightarrow>
               (let msg_type = drop (length (id_string header) - 2) (id_string header) in
                case parse_payload decode msg_type payload_data header of
                  Inl e \<Rightarrow> self'
                | Inr None \<Rightarrow> self'
                | Inr (Some parsed_data) \<Rightarrow>
                    handle_parsed_data self' msg_type parsed_data header)))"

text \<open>
  What one call of \<open>recvfrom\<close> gives the loop: a datagram, a timeout, or a socket error.
\<close>

datatype event = Datagram "byte list" | SocketTimeout | SocketError

fun receive_iteration ::
  "(string \<Rightarrow> byte list \<Rightarrow> mvn_header \<Rightarrow> exn + 'd option) \<Rightarrow>
   'd receiver \<Rightarrow> event \<Rightarrow> 'd receiver" where
  "receive_iteration decode self (Datagram data) = process_datagram decode self data"
| "receive_iteration decode self SocketTimeout = self"
| "receive_iteration decode self SocketError = self"

text \<open>\<open>while self.running\<close>, over the events the socket produces.\<close>

fun receive_loop ::
  "(string \<Rightarrow> byte list \<Rightarrow> mvn_header \<Rightarrow> exn + 'd option) \<Rightarrow>
   'd receiver \<Rightarrow> event list \<Rightarrow> 'd receiver" where
  "receive_loop decode self [] = self"
| "receive_loop decode self (ev # evs) =
     (if running self then receive_loop decode (receive_iteration decode self ev) evs
      else self)"

section \<open>The wire format of the header\<close>

text \<open>\<open>PROTOCOL_IDENTIFIER = b'MXTP'\<close> of \<open>mvn_types.py\<close>.\<close>

definition PROTOCOL_IDENTIFIER :: "byte list" where
  "PROTOCOL_IDENTIFIER = [0x4D, 0x58, 0x54, 0x50]"

text \<open>
  The source has no encoder. \<open>encode_header\<close> writes a header as the specification
  lays it out on the wire (big-endian; bytes 0 to 5 the id string, 6 to 9 the sample
  counter, 10 the fragment-control byte, 11 the item count, 12 to 15 the time code, 16
  the character id, 17 to 19 the segment, prop and finger counts, 20 and 21 reserved,
  22 and 23 the payload size), and \<open>wire_header\<close> says that every field of a header fits
  its place.
\<close>

definition u32_bytes :: "nat \<Rightarrow> byte list" where
  "u32_bytes n = [of_nat (n div 2 ^ 24), of_nat (n div 2 ^ 16), of_nat (n div 2 ^ 8), of_nat n]"

definition u16_bytes :: "nat \<Rightarrow> byte list" where
  "u16_bytes n = [of_nat (n div 2 ^ 8), of_nat n]"

definition encode_header :: "mvn_header \<Rightarrow> byte list" where
  "encode_header h =
     map (\<lambda>c. of_nat (of_char c)) (id_string h) @
     u32_bytes (sample_counter h) @
     [of_nat (datagram_counter h), of_nat (num_items h)] @
     u32_bytes (time_code h) @
     [of_nat (character_id h), of_nat (num_segments h), of_nat (num_props h),
      of_nat (num_fingers h), 0, 0] @
     u16_bytes (payload_size h)"

definition wire_header :: "mvn_header \<Rightarrow> bool" where
  "wire_header h \<longleftrightarrow>
     length (id_string h) = 6 \<and> list_all (\<lambda>c. (of_char c :: nat) < 128) (id_string h) \<and>
     startswith (id_string h) ''MXTP'' \<and>
     sample_counter h < 2 ^ 32 \<and> datagram_counter h < 256 \<and> num_items h < 256 \<and>
     time_code h < 2 ^ 32 \<and> character_id h < 256 \<and> num_segments h < 256 \<and>
     num_props h < 256 \<and> num_fingers h < 256 \<and> payload_size h < 2 ^ 16"

text \<open>A result that is a parse error of data type "header".\<close>

fun header_parse_error :: "exn + 'a \<Rightarrow> bool" where
  "header_parse_error (Inl (MVNParseError m (Some d) p)) = (d = ''header'')"
| "header_parse_error r = False"

section \<open>Submitting the fragments of a message\<close>

text \<open>The Python list a key has in the tracker; empty when the key has no entry.\<close>

definition slots_of :: "'d receiver \<Rightarrow> nat \<times> nat \<Rightarrow> byte list option list" where
  "slots_of self key = (case partial_datagrams self key of None \<Rightarrow> [] | Some l \<Rightarrow> l)"

text \<open>
  A header of message kind 02 with the given sample counter, character id, datagram
  counter and payload size, for the examples.
\<close>

definition example_header :: "nat \<Rightarrow> nat \<Rightarrow> nat \<Rightarrow> nat \<Rightarrow> mvn_header" where
  "example_header sc cid counter psize =
     \<lparr>id_string = ''MXTP02'', sample_counter = sc, datagram_counter = counter,
      num_items = 1, time_code = 0, character_id = cid, num_segments = 23,
      num_props = 0, num_fingers = 0, payload_size = psize\<rparr>"

text \<open>
  The datagrams of a list, each given by its header and its payload, handed to the loop's
  routing one after the other; the result lists what each one delivered.
\<close>

fun submit_all ::
  "'d receiver \<Rightarrow> (mvn_header \<times> byte list) list \<Rightarrow>
   (exn + byte list) option list \<times> 'd receiver" where
  "submit_all self [] = ([], self)"
| "submit_all self ((header, payload) # rest) =
     (case route_datagram self header payload of
        (r, self') \<Rightarrow>
          (case submit_all self' rest of (rs, self'') \<Rightarrow> (r # rs, self'')))"

section \<open>mvn_types.py and mvn_parser.py: the time code\<close>

text \<open>\<open>s.encode('ascii')\<close> for a string of ASCII characters.\<close>

definition ascii_bytes :: "string \<Rightarrow> byte list" where
  "ascii_bytes s = map (\<lambda>c. of_nat (of_char c)) s"

text \<open>
  In a string decoded from ASCII, \<open>\d\<close> matches the characters 0 to 9, and
  \<open>str.isspace\<close> holds for tab, line feed, vertical tab, form feed, carriage return, the
  four separators 28 to 31 and the space.
\<close>

definition is_digit :: "char \<Rightarrow> bool" where
  "is_digit c = (48 \<le> (of_char c :: nat) \<and> (of_char c :: nat) \<le> 57)"

definition is_space :: "char \<Rightarrow> bool" where
  "is_space c = ((9 \<le> (of_char c :: nat) \<and> (of_char c :: nat) \<le> 13) \<or>
                 (28 \<le> (of_char c :: nat) \<and> (of_char c :: nat) \<le> 32))"

definition strip :: "string \<Rightarrow> string" where
  "strip s = rev (dropWhile is_space (rev (dropWhile is_space s)))"

text \<open>\<open>re.match(r'\d{2}:\d{2}:\d{2}', s)\<close>: the pattern at the start of \<open>s\<close>.\<close>

fun match_hms :: "string \<Rightarrow> bool" where
  "match_hms (h1 # h2 # c1 # m1 # m2 # c2 # s1 # s2 # rest) =
     (is_digit h1 \<and> is_digit h2 \<and> c1 = CHR '':'' \<and> is_digit m1 \<and> is_digit m2 \<and>
      c2 = CHR '':'' \<and> is_digit s1 \<and> is_digit s2)"
| "match_hms s = False"

text \<open>
  \<open>(?:\.\d{3})?$\<close> on what follows the seconds: nothing or a dot and three digits, up to
  the end of the string or up to a line feed that ends it.
\<close>

fun match_ms_end :: "string \<Rightarrow> bool" where
  "match_ms_end [] = True"
| "match_ms_end [n] = (n = CHR 0x0A)"
| "match_ms_end [d, x, y, z] = (d = CHR ''.'' \<and> is_digit x \<and> is_digit y \<and> is_digit z)"
| "match_ms_end [d, x, y, z, n] =
     (d = CHR ''.'' \<and> is_digit x \<and> is_digit y \<and> is_digit z \<and> n = CHR 0x0A)"
| "match_ms_end s = False"

text \<open>\<open>TIME_CODE_PATTERN.match(time_str)\<close>\<close>

definition TIME_CODE_PATTERN_match :: "string \<Rightarrow> bool" where
  "TIME_CODE_PATTERN_match time_str = (match_hms time_str \<and> match_ms_end (drop 8 time_str))"

text \<open>
  \<open>int(s)\<close> for a string of decimal digits with optional white space around it, and
  \<open>ValueError\<close> otherwise. Signs and underscores are not modelled: \<open>validate_time_code\<close>
  passes only pieces of a string that the pattern matched.
\<close>

definition py_int :: "string \<Rightarrow> exn + int" where
  "py_int s =
     (let t = strip s in
      if t \<noteq> [] \<and> list_all is_digit t
      then Inr (int (foldl (\<lambda>acc c. acc * 10 + (of_char c - 48)) 0 t))
      else Inl ValueError)"

text \<open>\<open>time_str.split('.')[-1]\<close>: what follows the last dot.\<close>

definition after_last_dot :: "string \<Rightarrow> string" where
  "after_last_dot s = rev (takeWhile (\<lambda>c. c \<noteq> CHR ''.'') (rev s))"

text \<open>\<open>validate_time_code\<close>; \<open>ValueError\<close> is caught and gives \<open>False\<close>.\<close>

definition validate_time_code :: "string \<Rightarrow> bool" where
  "validate_time_code time_str =
     (if \<not> TIME_CODE_PATTERN_match time_str then False
      else
        (case py_int (slice time_str 0 2) of Inl e \<Rightarrow> False | Inr hours \<Rightarrow>
        (case py_int (slice time_str 3 5) of Inl e \<Rightarrow> False | Inr minutes \<Rightarrow>
        (case py_int (slice time_str 6 8) of Inl e \<Rightarrow> False | Inr seconds \<Rightarrow>
           if \<not> (0 \<le> hours \<and> hours \<le> 23 \<and> 0 \<le> minutes \<and> minutes \<le> 59 \<and>
                 0 \<le> seconds \<and> seconds \<le> 59)
           then False
           else if CHR ''.'' \<in> set time_str
           then (case py_int (after_last_dot time_str) of
                   Inl e \<Rightarrow> False
                 | Inr milliseconds \<Rightarrow>
                     if \<not> (0 \<le> milliseconds \<and> milliseconds \<le> 999) then False else True)
           else True))))"

text \<open>The dataclass \<open>TimeCode\<close>; \<open>TimeCode_new\<close> is its constructor with \<open>__post_init__\<close>.\<close>

record TimeCode =
  time_str :: string

definition TimeCode_new :: "string \<Rightarrow> TimeCode" where
  "TimeCode_new s = \<lparr>time_str = (if CHR ''.'' \<notin> set s then s @ ''.000'' else s)\<rparr>"

text \<open>\<open>' '.join(f'{b:02X}' for b in bs)\<close>\<close>

definition hex_digit :: "nat \<Rightarrow> char" where
  "hex_digit n = (if n < 10 then char_of (48 + n) else char_of (55 + n))"

fun hex_join :: "byte list \<Rightarrow> string" where
  "hex_join [] = []"
| "hex_join [b] = [hex_digit (unat b div 16), hex_digit (unat b mod 16)]"
| "hex_join (b # bs) =
     [hex_digit (unat b div 16), hex_digit (unat b mod 16)] @ '' '' @ hex_join bs"

text \<open>
  The search loop of \<open>parse_time_code\<close>: the first \<open>i\<close> in \<open>range(len(data) - 7)\<close> at
  which the eight bytes decode as ASCII and match the pattern.
\<close>

definition matches_at :: "byte list \<Rightarrow> nat \<Rightarrow> bool" where
  "matches_at data i =
     (case decode_ascii (slice data i (i + 8)) of
        Inl e \<Rightarrow> False
      | Inr segment \<Rightarrow> match_hms segment)"

definition find_time_code :: "byte list \<Rightarrow> nat option" where
  "find_time_code data = List.find (matches_at data) [0..<length data - 7]"

text \<open>One attempt of the inner \<open>try\<close>: decode \<open>n\<close> bytes, strip, validate.\<close>

definition try_time_str :: "byte list \<Rightarrow> nat \<Rightarrow> exn + TimeCode option" where
  "try_time_str time_code_bytes n =
     (case decode_ascii (take n time_code_bytes) of
        Inl e \<Rightarrow> Inl e
      | Inr s \<Rightarrow>
          if validate_time_code (strip s) then Inr (Some (TimeCode_new (strip s)))
          else Inr None)"

text \<open>The body of the outer \<open>try\<close> of \<open>parse_time_code\<close>.\<close>

definition parse_time_code_try :: "byte list \<Rightarrow> exn + TimeCode" where
  "parse_time_code_try data =
     (case find_time_code data of
        None \<Rightarrow>
          Inl (MVNParseError ''Could not find valid time code pattern in data''
                 (Some ''time code'') None)
      | Some i \<Rightarrow>
          (let time_code_bytes = drop i data;
               full = (if length time_code_bytes \<ge> 12 then try_time_str time_code_bytes 12
                       else Inr None);
               attempt = (case full of
                            Inr None \<Rightarrow> try_time_str time_code_bytes 8
                          | r \<Rightarrow> r)
           in case attempt of
                Inr (Some tc) \<Rightarrow> Inr tc
              | Inr None \<Rightarrow>
                  Inl (MVNParseError
                         (''Could not parse time code from data: '' @ hex_join time_code_bytes)
                         (Some ''time code'') None)
              | Inl UnicodeDecodeError \<Rightarrow>
                  Inl (MVNParseError
                         (''Could not parse time code from data: '' @ hex_join time_code_bytes)
                         (Some ''time code'') None)
              | Inl e \<Rightarrow> Inl e))"

text \<open>
  \<open>parse_time_code\<close>: an \<open>MVNError\<close> is raised again, any other exception becomes a
  parse error of data type "time code".
\<close>

definition parse_time_code :: "byte list \<Rightarrow> exn + TimeCode" where
  "parse_time_code data =
     (case parse_time_code_try data of
        Inl e \<Rightarrow>
          (if is_MVNError e then Inl e
           else Inl (MVNParseError ''Failed to parse time code'' (Some ''time code'') None))
      | Inr tc \<Rightarrow> Inr tc)"

section \<open>mvn_types.py: the segment tables and the decoded records\<close>

text \<open>
  The keys of each table of \<open>mvn_types.py\<close> are the numbers from 0 up to its size, in the
  order written, so a table is given by the list of its values: a key is in the table
  when it is below the length of the list.
\<close>

definition SEGMENT_NAME_LIST :: "string list" where
  "SEGMENT_NAME_LIST =
    [''Pelvis'', ''L5'', ''L3'', ''T12'', ''T8'', ''Neck'', ''Head'', ''Right Shoulder'',
     ''Right Upper Arm'', ''Right Forearm'', ''Right Hand'', ''Left Shoulder'',
     ''Left Upper Arm'', ''Left Forearm'', ''Left Hand'', ''Right Upper Leg'',
     ''Right Lower Leg'', ''Right Foot'', ''Right Toe'', ''Left Upper Leg'',
     ''Left Lower Leg'', ''Left Foot'', ''Left Toe'', ''Prop1'', ''Prop2'', ''Prop3'',
     ''Prop4'', ''Left Carpus'', ''Left First MC'', ''Left First PP'', ''Left First DP'',
     ''Left Second MC'', ''Left Second PP'', ''Left Second MP'', ''Left Second DP'',
     ''Left Third MC'', ''Left Third PP'', ''Left Third MP'', ''Left Third DP'',
     ''Left Fourth MC'', ''Left Fourth PP'', ''Left Fourth MP'', ''Left Fourth DP'',
     ''Left Fifth MC'', ''Left Fifth PP'', ''Left Fifth MP'', ''Left Fifth DP'',
     ''Right Carpus'', ''Right First MC'', ''Right First PP'', ''Right First DP'',
     ''Right Second MC'', ''Right Second PP'', ''Right Second MP'', ''Right Second DP'',
     ''Right Third MC'', ''Right Third PP'', ''Right Third MP'', ''Right Third DP'',
     ''Right Fourth MC'', ''Right Fourth PP'', ''Right Fourth MP'', ''Right Fourth DP'',
     ''Right Fifth MC'', ''Right Fifth PP'', ''Right Fifth MP'', ''Right Fifth DP'']"

definition SEGMENT_NAMES :: "nat \<rightharpoonup> string" where
  "SEGMENT_NAMES k =
     (if k < length SEGMENT_NAME_LIST then Some (SEGMENT_NAME_LIST ! k) else None)"

definition UNITY3D_SEGMENT_NAME_LIST :: "string list" where
  "UNITY3D_SEGMENT_NAME_LIST =
    [''Pelvis'', ''Right Upper Leg'', ''Right Lower Leg'', ''Right Foot'', ''Right Toe'',
     ''Left Upper Leg'', ''Left Lower Leg'', ''Left Foot'', ''Left Toe'', ''L5'', ''L3'',
     ''T12'', ''T8'', ''Left Shoulder'', ''Left Upper Arm'', ''Left Forearm'',
     ''Left Hand'', ''Right Shoulder'', ''Right Upper Arm'', ''Right Forearm'',
     ''Right Hand'', ''Neck'', ''Head'']"

definition UNITY3D_SEGMENT_NAMES :: "nat \<rightharpoonup> string" where
  "UNITY3D_SEGMENT_NAMES k =
     (if k < length UNITY3D_SEGMENT_NAME_LIST then Some (UNITY3D_SEGMENT_NAME_LIST ! k)
      else None)"

definition LEFT_FINGER_SEGMENT_LIST :: "string list" where
  "LEFT_FINGER_SEGMENT_LIST =
    [''Left Carpus'', ''Left First Metacarpal'', ''Left First Proximal Phalange'',
     ''Left First Distal Phalange'', ''Left Second Metacarpal'',
     ''Left Second Proximal Phalange'', ''Left Second Middle Phalange'',
     ''Left Second Distal Phalange'', ''Left Third Metacarpal'',
     ''Left Third Proximal Phalange'', ''Left Third Middle Phalange'',
     ''Left Third Distal Phalange'', ''Left Fourth Metacarpal'',
     ''Left Fourth Proximal Phalange'', ''Left Fourth Middle Phalange'',
     ''Left Fourth Distal Phalange'', ''Left Fifth Metacarpal'',
     ''Left Fifth Proximal Phalange'', ''Left Fifth Middle Phalange'',
     ''Left Fifth Distal Phalange'']"

definition LEFT_FINGER_SEGMENTS :: "nat \<rightharpoonup> string" where
  "LEFT_FINGER_SEGMENTS k =
     (if k < length LEFT_FINGER_SEGMENT_LIST then Some (LEFT_FINGER_SEGMENT_LIST ! k)
      else None)"

definition RIGHT_FINGER_SEGMENT_LIST :: "string list" where
  "RIGHT_FINGER_SEGMENT_LIST =
    [''Right Carpus'', ''Right First Metacarpal'', ''Right First Proximal Phalange'',
     ''Right First Distal Phalange'', ''Right Second Metacarpal'',
     ''Right Second Proximal Phalange'', ''Right Second Middle Phalange'',
     ''Right Second Distal Phalange'', ''Right Third Metacarpal'',
     ''Right Third Proximal Phalange'', ''Right Third Middle Phalange'',
     ''Right Third Distal Phalange'', ''Right Fourth Metacarpal'',
     ''Right Fourth Proximal Phalange'', ''Right Fourth Middle Phalange'',
     ''Right Fourth Distal Phalange'', ''Right Fifth Metacarpal'',
     ''Right Fifth Proximal Phalange'', ''Right Fifth Middle Phalange'',
     ''Right Fifth Distal Phalange'']"

definition RIGHT_FINGER_SEGMENTS :: "nat \<rightharpoonup> string" where
  "RIGHT_FINGER_SEGMENTS k =
     (if k < length RIGHT_FINGER_SEGMENT_LIST then Some (RIGHT_FINGER_SEGMENT_LIST ! k)
      else None)"

text \<open>\<open>table[k]\<close>: the value, or \<open>KeyError\<close>.\<close>

definition lookup :: "(nat \<rightharpoonup> string) \<Rightarrow> nat \<Rightarrow> exn + string" where
  "lookup table k = (case table k of None \<Rightarrow> Inl KeyError | Some v \<Rightarrow> Inr v)"

text \<open>The dataclasses of the decoded records, each with its fields in the order declared.\<close>

datatype Position = Position float32 float32 float32
datatype Velocity = Velocity float32 float32 float32
datatype Acceleration = Acceleration float32 float32 float32
datatype Quaternion = Quaternion float32 float32 float32 float32
datatype Euler = Euler float32 float32 float32
datatype AngularVelocity = AngularVelocity float32 float32 float32
datatype AngularAcceleration = AngularAcceleration float32 float32 float32

text \<open>The field \<open>orientation\<close> of a \<open>Segment\<close> holds an \<open>Euler\<close> or a \<open>Quaternion\<close>.\<close>

datatype orientation = OfEuler Euler | OfQuaternion Quaternion

datatype Segment = Segment nat Position orientation
datatype Point = Point nat Position nat
datatype LinearKinematics = LinearKinematics nat Position Velocity Acceleration
datatype AngularKinematics =
  AngularKinematics nat Quaternion AngularVelocity AngularAcceleration
datatype TrackerID = TrackerID nat string string
datatype TrackerKinematics =
  TrackerKinematics nat "TrackerID option" Quaternion Acceleration Position

text \<open>A key of a Python dictionary: a string or an integer.\<close>

datatype py_key = KeyStr string | KeyInt nat

section \<open>mvn_parser.py: the payload decoders\<close>

text \<open>Four bytes as the bits of a big-endian float.\<close>

definition f32 :: "byte list \<Rightarrow> float32" where
  "f32 bs = of_nat (be_nat bs)"

text \<open>\<open>struct.unpack('>fff', b)\<close> and \<open>struct.unpack('>ffff', b)\<close>\<close>

definition unpack_fff :: "byte list \<Rightarrow> exn + (float32 \<times> float32 \<times> float32)" where
  "unpack_fff bs =
     (if length bs = 12 then Inr (f32 (slice bs 0 4), f32 (slice bs 4 8), f32 (slice bs 8 12))
      else Inl StructError)"

definition unpack_ffff ::
  "byte list \<Rightarrow> exn + (float32 \<times> float32 \<times> float32 \<times> float32)" where
  "unpack_ffff bs =
     (if length bs = 16
      then Inr (f32 (slice bs 0 4), f32 (slice bs 4 8), f32 (slice bs 8 12),
                f32 (slice bs 12 16))
      else Inl StructError)"

definition parse_position :: "byte list \<Rightarrow> nat \<Rightarrow> exn + (Position \<times> nat)" where
  "parse_position data offset =
     (case unpack_fff (slice data offset (offset + 12)) of
        Inl e \<Rightarrow> Inl (MVNParseError ''Failed to unpack position data''
                       (Some ''position'') (Some offset))
      | Inr (x, y, z) \<Rightarrow> Inr (Position x y z, offset + 12))"

definition parse_quaternion :: "byte list \<Rightarrow> nat \<Rightarrow> exn + (Quaternion \<times> nat)" where
  "parse_quaternion data offset =
     (case unpack_ffff (slice data offset (offset + 16)) of
        Inl e \<Rightarrow> Inl (MVNParseError ''Failed to unpack quaternion data''
                       (Some ''quaternion'') (Some offset))
      | Inr (w, x, y, z) \<Rightarrow> Inr (Quaternion w x y z, offset + 16))"

definition parse_euler :: "byte list \<Rightarrow> nat \<Rightarrow> exn + (Euler \<times> nat)" where
  "parse_euler data offset =
     (case unpack_fff (slice data offset (offset + 12)) of
        Inl e \<Rightarrow> Inl (MVNParseError ''Failed to unpack Euler angles''
                       (Some ''euler'') (Some offset))
      | Inr (x, y, z) \<Rightarrow> Inr (Euler x y z, offset + 12))"

text \<open>
  A \<open>struct.unpack\<close> written in the body of a decoder: its \<open>struct.error\<close> is caught by
  the \<open>except\<close> clause of the decoder and becomes a parse error with the decoder's
  message, its data type and the offset at that moment.
\<close>

definition struct_in ::
  "string \<Rightarrow> string \<Rightarrow> nat \<Rightarrow> exn + 'a \<Rightarrow> exn + 'a" where
  "struct_in message data_type offset r =
     (case r of
        Inl e \<Rightarrow> Inl (MVNParseError message (Some data_type) (Some offset))
      | Inr v \<Rightarrow> Inr v)"

text \<open>
  \<open>for i in range(num_items)\<close> over the records of a payload: \<open>item\<close> is the body of the
  loop at the current offset; it raises, or gives the key and the value it stores in
  \<open>result\<close> and the offset after the record.
\<close>

fun for_records ::
  "(nat \<Rightarrow> exn + ('k \<times> 'v \<times> nat)) \<Rightarrow> nat \<Rightarrow> nat \<Rightarrow> ('k \<rightharpoonup> 'v) \<Rightarrow> exn + ('k \<rightharpoonup> 'v)" where
  "for_records item 0 offset result = Inr result"
| "for_records item (Suc n) offset result =
     (case item offset of
        Inl e \<Rightarrow> Inl e
      | Inr (key, v, offset') \<Rightarrow> for_records item n offset' (result(key \<mapsto> v)))"

text \<open>
  The block "Get segment name" of \<open>parse_pose_euler\<close> and \<open>parse_pose_quaternion\<close> (the
  same text in both).
\<close>

definition is_finger_segment :: "nat \<Rightarrow> bool" where
  "is_finger_segment segment_id =
     ((segment_id \<ge> 23 \<and> segment_id < 43) \<or> (segment_id \<ge> 43 \<and> segment_id < 63))"

definition pose_segment_name :: "nat \<Rightarrow> exn + string" where
  "pose_segment_name segment_id =
     (case SEGMENT_NAMES segment_id of
        Some name \<Rightarrow> Inr name
      | None \<Rightarrow>
          if is_finger_segment segment_id
          then (if segment_id \<ge> 23 \<and> segment_id < 43
                then lookup LEFT_FINGER_SEGMENTS (segment_id - 23)
                else lookup RIGHT_FINGER_SEGMENTS (segment_id - 43))
          else Inr (''Unknown_Segment_'' @ str_nat segment_id))"

definition pose_euler_item :: "byte list \<Rightarrow> nat \<Rightarrow> exn + (py_key \<times> Segment \<times> nat)" where
  "pose_euler_item data offset =
     bind_exn (validate_data_length data 28 ''euler pose'' offset) (\<lambda>_.
     bind_exn (struct_in ''Failed to parse Euler pose data'' ''euler pose'' offset
                 (unpack_uint 4 (slice data offset (offset + 4)))) (\<lambda>segment_id.
     let offset = offset + 4 in
     if SEGMENT_NAMES segment_id = None \<and> \<not> is_finger_segment segment_id
     then Inl (MVNSegmentError ''Invalid segment ID'' (Some segment_id))
     else
     bind_exn (parse_position data offset) (\<lambda>(position, offset).
     bind_exn (parse_euler data offset) (\<lambda>(rotation, offset).
     bind_exn (pose_segment_name segment_id) (\<lambda>segment_name.
     Inr (KeyStr segment_name, Segment segment_id position (OfEuler rotation), offset))))))"

definition parse_pose_euler :: "byte list \<Rightarrow> nat \<Rightarrow> exn + (py_key \<rightharpoonup> Segment)" where
  "parse_pose_euler data n = for_records (pose_euler_item data) n 0 Map.empty"

definition pose_quaternion_item ::
  "byte list \<Rightarrow> nat \<Rightarrow> exn + (py_key \<times> Segment \<times> nat)" where
  "pose_quaternion_item data offset =
     bind_exn (validate_data_length data 32 ''quaternion pose'' offset) (\<lambda>_.
     bind_exn (struct_in ''Failed to parse quaternion pose data'' ''quaternion pose'' offset
                 (unpack_uint 4 (slice data offset (offset + 4)))) (\<lambda>segment_id.
     let offset = offset + 4 in
     if SEGMENT_NAMES segment_id = None \<and> \<not> is_finger_segment segment_id
     then Inl (MVNSegmentError ''Invalid segment ID'' (Some segment_id))
     else
     bind_exn (parse_position data offset) (\<lambda>(position, offset).
     bind_exn (parse_quaternion data offset) (\<lambda>(quaternion, offset).
     bind_exn (pose_segment_name segment_id) (\<lambda>segment_name.
     Inr (KeyStr segment_name, Segment segment_id position (OfQuaternion quaternion),
          offset))))))"

definition parse_pose_quaternion :: "byte list \<Rightarrow> nat \<Rightarrow> exn + (py_key \<rightharpoonup> Segment)" where
  "parse_pose_quaternion data n = for_records (pose_quaternion_item data) n 0 Map.empty"

definition point_data_item :: "byte list \<Rightarrow> nat \<Rightarrow> exn + (py_key \<times> Point \<times> nat)" where
  "point_data_item data offset =
     bind_exn (validate_data_length data 16 ''point data'' offset) (\<lambda>_.
     bind_exn (struct_in ''Failed to parse point data'' ''point data'' offset
                 (unpack_uint 4 (slice data offset (offset + 4)))) (\<lambda>point_id.
     let offset = offset + 4 in
     bind_exn (parse_position data offset) (\<lambda>(position, offset).
     Inr (KeyInt point_id, Point point_id position 0, offset))))"

definition parse_point_data :: "byte list \<Rightarrow> nat \<Rightarrow> exn + (py_key \<rightharpoonup> Point)" where
  "parse_point_data data n = for_records (point_data_item data) n 0 Map.empty"

definition unity3d_item :: "byte list \<Rightarrow> nat \<Rightarrow> exn + (py_key \<times> Segment \<times> nat)" where
  "unity3d_item data offset =
     bind_exn (validate_data_length data 32 ''Unity3D data'' offset) (\<lambda>_.
     bind_exn (struct_in ''Failed to parse Unity3D data'' ''Unity3D data'' offset
                 (unpack_uint 4 (slice data offset (offset + 4)))) (\<lambda>segment_id.
     if UNITY3D_SEGMENT_NAMES segment_id = None
     then Inl (MVNSegmentError ''Invalid Unity3D segment ID'' (Some segment_id))
     else
     let offset = offset + 4 in
     bind_exn (parse_position data offset) (\<lambda>(position, offset).
     bind_exn (parse_quaternion data offset) (\<lambda>(quaternion, offset).
     bind_exn (lookup UNITY3D_SEGMENT_NAMES segment_id) (\<lambda>segment_name.
     Inr (KeyStr segment_name, Segment segment_id position (OfQuaternion quaternion),
          offset))))))"

definition parse_unity3d_data :: "byte list \<Rightarrow> nat \<Rightarrow> exn + (py_key \<rightharpoonup> Segment)" where
  "parse_unity3d_data data n = for_records (unity3d_item data) n 0 Map.empty"

definition linear_kinematics_item ::
  "byte list \<Rightarrow> nat \<Rightarrow> exn + (py_key \<times> LinearKinematics \<times> nat)" where
  "linear_kinematics_item data offset =
     bind_exn (validate_data_length data 40 ''linear kinematics'' offset) (\<lambda>_.
     bind_exn (struct_in ''Failed to parse linear kinematics data'' ''linear kinematics''
                 offset (unpack_uint 4 (slice data offset (offset + 4)))) (\<lambda>segment_id.
     if SEGMENT_NAMES segment_id = None
     then Inl (MVNSegmentError ''Invalid segment ID'' (Some segment_id))
     else
     let offset = offset + 4 in
     bind_exn (parse_position data offset) (\<lambda>(position, offset).
     bind_exn (struct_in ''Failed to parse linear kinematics data'' ''linear kinematics''
                 offset (unpack_fff (slice data offset (offset + 12)))) (\<lambda>(vx, vy, vz).
     let offset = offset + 12 in
     bind_exn (struct_in ''Failed to parse linear kinematics data'' ''linear kinematics''
                 offset (unpack_fff (slice data offset (offset + 12)))) (\<lambda>(ax, ay, az).
     let offset = offset + 12 in
     bind_exn (lookup SEGMENT_NAMES segment_id) (\<lambda>segment_name.
     Inr (KeyStr segment_name,
          LinearKinematics segment_id position (Velocity vx vy vz) (Acceleration ax ay az),
          offset)))))))"

definition parse_linear_kinematics ::
  "byte list \<Rightarrow> nat \<Rightarrow> exn + (py_key \<rightharpoonup> LinearKinematics)" where
  "parse_linear_kinematics data n = for_records (linear_kinematics_item data) n 0 Map.empty"

definition angular_kinematics_item ::
  "byte list \<Rightarrow> nat \<Rightarrow> exn + (py_key \<times> AngularKinematics \<times> nat)" where
  "angular_kinematics_item data offset =
     bind_exn (validate_data_length data 44 ''angular kinematics'' offset) (\<lambda>_.
     bind_exn (struct_in ''Failed to parse angular kinematics data'' ''angular kinematics''
                 offset (unpack_uint 4 (slice data offset (offset + 4)))) (\<lambda>segment_id.
     if SEGMENT_NAMES segment_id = None
     then Inl (MVNSegmentError ''Invalid segment ID'' (Some segment_id))
     else
     let offset = offset + 4 in
     bind_exn (parse_quaternion data offset) (\<lambda>(orientation, offset).
     bind_exn (struct_in ''Failed to parse angular kinematics data'' ''angular kinematics''
                 offset (unpack_fff (slice data offset (offset + 12)))) (\<lambda>(vx, vy, vz).
     let offset = offset + 12 in
     bind_exn (struct_in ''Failed to parse angular kinematics data'' ''angular kinematics''
                 offset (unpack_fff (slice data offset (offset + 12)))) (\<lambda>(ax, ay, az).
     let offset = offset + 12 in
     bind_exn (lookup SEGMENT_NAMES segment_id) (\<lambda>segment_name.
     Inr (KeyStr segment_name,
          AngularKinematics segment_id orientation (AngularVelocity vx vy vz)
            (AngularAcceleration ax ay az),
          offset)))))))"

definition parse_angular_kinematics ::
  "byte list \<Rightarrow> nat \<Rightarrow> exn + (py_key \<rightharpoonup> AngularKinematics)" where
  "parse_angular_kinematics data n =
     for_records (angular_kinematics_item data) n 0 Map.empty"

text \<open>The name a tracker gets: the table's, or a generic one.\<close>

definition tracker_segment_name :: "nat \<Rightarrow> string" where
  "tracker_segment_name segment_id =
     (case SEGMENT_NAMES segment_id of
        Some name \<Rightarrow> name
      | None \<Rightarrow> ''Tracker_'' @ str_nat segment_id)"

definition tracker_kinematics_item ::
  "byte list \<Rightarrow> nat \<Rightarrow> exn + (py_key \<times> TrackerKinematics \<times> nat)" where
  "tracker_kinematics_item data offset =
     bind_exn (validate_data_length data 44 ''tracker kinematics'' offset) (\<lambda>_.
     bind_exn (struct_in ''Failed to parse tracker kinematics data'' ''tracker kinematics''
                 offset (unpack_uint 4 (slice data offset (offset + 4)))) (\<lambda>segment_id.
     let offset = offset + 4 in
     bind_exn (parse_quaternion data offset) (\<lambda>(orientation, offset).
     bind_exn (struct_in ''Failed to parse tracker kinematics data'' ''tracker kinematics''
                 offset (unpack_fff (slice data offset (offset + 12)))) (\<lambda>(fx, fy, fz).
     let offset = offset + 12 in
     bind_exn (struct_in ''Failed to parse tracker kinematics data'' ''tracker kinematics''
                 offset (unpack_fff (slice data offset (offset + 12)))) (\<lambda>(mx, my, mz).
     let offset = offset + 12 in
     Inr (KeyStr (tracker_segment_name segment_id),
          TrackerKinematics segment_id None orientation (Acceleration fx fy fz)
            (Position mx my mz),
          offset))))))"

definition parse_tracker_kinematics ::
  "byte list \<Rightarrow> nat \<Rightarrow> exn + (py_key \<rightharpoonup> TrackerKinematics)" where
  "parse_tracker_kinematics data n =
     for_records (tracker_kinematics_item data) n 0 Map.empty"

text \<open>The segment id of record \<open>k\<close> of a payload whose records have \<open>stride\<close> bytes.\<close>

definition record_id :: "nat \<Rightarrow> byte list \<Rightarrow> nat \<Rightarrow> nat" where
  "record_id stride data k = be_nat (slice data (k * stride) (k * stride + 4))"

section \<open>Lemmas on bytes, slices and strings\<close>

lemma slice_4:
  "a + 4 \<le> length data \<Longrightarrow>
   slice data a (a + 4) = [data ! a, data ! (a + 1), data ! (a + 2), data ! (a + 3)]"
  unfolding slice_def
  by (rule nth_equalityI) (auto simp: nth_Cons' less_Suc_eq numeral_eq_Suc)

lemma slice_2:
  "a + 2 \<le> length data \<Longrightarrow> slice data a (a + 2) = [data ! a, data ! (a + 1)]"
  unfolding slice_def
  by (rule nth_equalityI) (auto simp: nth_Cons' less_Suc_eq numeral_eq_Suc)

lemma be_nat_4:
  "be_nat [a, b, c, d] = unat a * 2 ^ 24 + unat b * 2 ^ 16 + unat c * 2 ^ 8 + unat d"
  by (simp add: be_nat_def)

lemma be_nat_2: "be_nat [a, b] = unat a * 2 ^ 8 + unat b"
  by (simp add: be_nat_def)

lemma byte_char_inj: "char_of (unat (a::byte)) = char_of (unat b) \<longleftrightarrow> a = b"
proof
  assume "char_of (unat a) = char_of (unat b)"
  then have "(of_char (char_of (unat a)) :: nat) = of_char (char_of (unat b))" by simp
  then have "unat a mod 256 = unat b mod 256" by simp
  moreover have "unat a < 256" "unat b < 256"
    using unsigned_less[of a] unsigned_less[of b] by simp_all
  ultimately show "a = b" by (simp add: word_unat_eq_iff)
qed simp

lemma char_eq_char_of: "c = char_of (n::nat) \<longleftrightarrow> (of_char c :: nat) = n mod 256"
  by (metis char_of_char of_char_of char_of_mod_256)

lemma char_of_eq_char: "char_of (n::nat) = c \<longleftrightarrow> (of_char c :: nat) = n mod 256"
  by (metis char_of_char of_char_of char_of_mod_256)

lemma str_nat_digit: "n < 10 \<Longrightarrow> str_nat n = [char_of (48 + n)]"
  by (simp add: str_nat.simps)

lemma str_nat_more: "10 \<le> n \<Longrightarrow> str_nat n = str_nat (n div 10) @ [char_of (48 + n mod 10)]"
  by (subst str_nat.simps) simp

lemma str_int_nat: "str_int (int n) = str_nat n"
  by (simp add: str_int_def)

section \<open>The header codec\<close>

lemma startswith_MXTP:
  "6 \<le> length data \<Longrightarrow>
   startswith (map (\<lambda>b. char_of (unat b)) (slice data 0 6)) ''MXTP'' \<longleftrightarrow>
   take 4 data = PROTOCOL_IDENTIFIER"
proof -
  assume len: "6 \<le> length data"
  have t: "take 4 (map (\<lambda>b. char_of (unat b)) (slice data 0 6)) =
           map (\<lambda>b::byte. char_of (unat b)) (take 4 data)"
    by (simp add: slice_def take_map min_def)
  have m: "''MXTP'' = map (\<lambda>b::byte. char_of (unat b)) PROTOCOL_IDENTIFIER"
    by (simp add: PROTOCOL_IDENTIFIER_def char_eq_char_of)
  have i: "inj (\<lambda>b::byte. char_of (unat b) :: char)"
    by (rule injI) (erule byte_char_inj[THEN iffD1])
  have l: "length ''MXTP'' = 4" by simp
  show ?thesis
    unfolding startswith_def l t by (subst m) (simp only: inj_map_eq_map[OF i])
qed

lemma parse_header_try_ok:
  assumes "24 \<le> length data" "list_all (\<lambda>b. b < 128) (take 6 data)"
    "take 4 data = PROTOCOL_IDENTIFIER"
  shows "parse_header_try data =
     Inr (\<lparr>id_string = map (\<lambda>b. char_of (unat b)) (take 6 data),
           sample_counter = unat (data ! 6) * 2 ^ 24 + unat (data ! 7) * 2 ^ 16 +
                            unat (data ! 8) * 2 ^ 8 + unat (data ! 9),
           datagram_counter = unat (data ! 10),
           num_items = unat (data ! 11),
           time_code = unat (data ! 12) * 2 ^ 24 + unat (data ! 13) * 2 ^ 16 +
                       unat (data ! 14) * 2 ^ 8 + unat (data ! 15),
           character_id = unat (data ! 16),
           num_segments = unat (data ! 17),
           num_props = unat (data ! 18),
           num_fingers = unat (data ! 19),
           payload_size = unat (data ! 22) * 2 ^ 8 + unat (data ! 23)\<rparr>, 24)"
proof -
  have s0: "slice data 0 6 = take 6 data" by (simp add: slice_def)
  have s1: "slice data 6 10 = [data ! 6, data ! 7, data ! 8, data ! 9]"
    using slice_4[of 6 data] assms(1) by simp
  have s2: "slice data 12 16 = [data ! 12, data ! 13, data ! 14, data ! 15]"
    using slice_4[of 12 data] assms(1) by simp
  have s3: "slice data 22 24 = [data ! 22, data ! 23]"
    using slice_2[of 22 data] assms(1) by simp
  have sw: "startswith (map (\<lambda>b. char_of (unat b)) (take 6 data)) ''MXTP''"
    using startswith_MXTP[of data] assms s0 by simp
  show ?thesis
    unfolding parse_header_try_def
    using assms(1,2) sw
    by (simp add: bind_exn_def validate_data_length_def decode_ascii_def s0 s1 s2 s3
        unpack_uint_def byte_at_def be_nat_4 be_nat_2)
qed

lemma parse_header_short:
  assumes "length data < 24"
  shows "parse_header data =
     Inl (MVNParseError
            (''Insufficient data length. Required: 24, Available: '' @ str_nat (length data))
            (Some ''header'') (Some 0))"
proof -
  have "str_nat 24 = ''24''"
    by (simp add: str_nat_more str_nat_digit char_of_eq_char)
  then show ?thesis
    using assms
    by (simp add: parse_header_def parse_header_try_def bind_exn_def validate_data_length_def
        str_int_nat)
qed

lemma parse_header_non_ascii:
  assumes "24 \<le> length data" "\<not> list_all (\<lambda>b. b < 128) (take 6 data)"
  shows "parse_header data =
     Inl (MVNParseError ''Failed to decode header string'' (Some ''header'') None)"
  using assms
  by (simp add: parse_header_def parse_header_try_def bind_exn_def validate_data_length_def
      decode_ascii_def slice_def)

lemma parse_header_bad_id:
  assumes "24 \<le> length data" "list_all (\<lambda>b. b < 128) (take 6 data)"
    "take 4 data \<noteq> PROTOCOL_IDENTIFIER"
  shows "parse_header data =
     Inl (MVNProtocolError
            (''Invalid header ID: '' @ map (\<lambda>b. char_of (unat b)) (take 6 data)) (Some ''MVN''))"
proof -
  have s0: "slice data 0 6 = take 6 data" by (simp add: slice_def)
  have sw: "\<not> startswith (map (\<lambda>b. char_of (unat b)) (take 6 data)) ''MXTP''"
    using startswith_MXTP[of data] assms s0 by simp
  show ?thesis
    using assms(1,2) sw
    by (simp add: parse_header_def parse_header_try_def bind_exn_def validate_data_length_def
        decode_ascii_def s0)
qed

lemma parse_header_ok:
  assumes "24 \<le> length data" "list_all (\<lambda>b. b < 128) (take 6 data)"
    "take 4 data = PROTOCOL_IDENTIFIER"
  shows "parse_header data =
     Inr (\<lparr>id_string = map (\<lambda>b. char_of (unat b)) (take 6 data),
           sample_counter = unat (data ! 6) * 2 ^ 24 + unat (data ! 7) * 2 ^ 16 +
                            unat (data ! 8) * 2 ^ 8 + unat (data ! 9),
           datagram_counter = unat (data ! 10),
           num_items = unat (data ! 11),
           time_code = unat (data ! 12) * 2 ^ 24 + unat (data ! 13) * 2 ^ 16 +
                       unat (data ! 14) * 2 ^ 8 + unat (data ! 15),
           character_id = unat (data ! 16),
           num_segments = unat (data ! 17),
           num_props = unat (data ! 18),
           num_fingers = unat (data ! 19),
           payload_size = unat (data ! 22) * 2 ^ 8 + unat (data ! 23)\<rparr>, 24)"
  unfolding parse_header_def parse_header_try_ok[OF assms] by simp

lemma split_256: "(n::nat) = n div 256 * 256 + n mod 256"
  by simp

lemma be_nat_u32: "n < 2 ^ 32 \<Longrightarrow> be_nat (u32_bytes n) = n"
proof -
  assume "n < 2 ^ 32"
  then have top: "n div 16777216 mod 256 = n div 16777216" by simp
  have d1: "n div 256 div 256 = n div 65536" by (simp add: div_mult2_eq[symmetric])
  have d2: "n div 65536 div 256 = n div 16777216" by (simp add: div_mult2_eq[symmetric])
  have "n = n div 256 * 256 + n mod 256" by simp
  also have "n div 256 = n div 65536 * 256 + n div 256 mod 256"
    using split_256[of "n div 256"] d1 by simp
  also have "n div 65536 = n div 16777216 * 256 + n div 65536 mod 256"
    using split_256[of "n div 65536"] d2 by simp
  finally have F: "n div 16777216 * 16777216 + n div 65536 mod 256 * 65536 +
                   n div 256 mod 256 * 256 + n mod 256 = n"
    by (simp add: algebra_simps)
  have "be_nat (u32_bytes n) = n div 16777216 mod 256 * 16777216 +
          n div 65536 mod 256 * 65536 + n div 256 mod 256 * 256 + n mod 256"
    by (simp add: u32_bytes_def be_nat_def unat_of_nat)
  then show ?thesis using F top by simp
qed

lemma be_nat_u16: "n < 2 ^ 16 \<Longrightarrow> be_nat (u16_bytes n) = n"
proof -
  assume "n < 2 ^ 16"
  then have "n div 256 mod 256 = n div 256" by simp
  then have "n div 256 mod 256 * 256 + n mod 256 = n" by simp
  then show ?thesis
    by (simp add: u16_bytes_def be_nat_def unat_of_nat)
qed

lemma ascii_char_roundtrip: "char_of (unat (of_nat (of_char c) :: byte)) = c"
  by (simp add: unat_of_nat)

lemma ascii_byte_lt: "(of_char c :: nat) < 128 \<Longrightarrow> (of_nat (of_char c) :: byte) < 128"
  by (simp add: word_less_nat_alt unat_of_nat)

lemma length_encode_header: "length (id_string h) = 6 \<Longrightarrow> length (encode_header h) = 24"
  by (simp add: encode_header_def u32_bytes_def u16_bytes_def)

lemma parse_header_try_encode:
  assumes wf: "wire_header h"
  shows "parse_header_try (encode_header h @ rest) = Inr (h, 24)"
proof -
  from wf have len: "length (id_string h) = 6" by (simp add: wire_header_def)
  then obtain c0 c1 c2 c3 c4 c5 where ids: "id_string h = [c0, c1, c2, c3, c4, c5]"
    by (auto simp: length_Suc_conv numeral_eq_Suc)
  define data where "data = encode_header h @ rest"
  have dlen: "int (length data) \<ge> 24"
    by (simp add: data_def encode_header_def ids u32_bytes_def u16_bytes_def)
  have s0: "slice data 0 6 = map (\<lambda>c. of_nat (of_char c)) (id_string h)"
    by (simp add: data_def encode_header_def ids slice_def)
  have s1: "slice data 6 10 = u32_bytes (sample_counter h)"
    by (simp add: data_def encode_header_def ids slice_def u32_bytes_def)
  have s2: "slice data 12 16 = u32_bytes (time_code h)"
    by (simp add: data_def encode_header_def ids slice_def u32_bytes_def)
  have s3: "slice data 22 24 = u16_bytes (payload_size h)"
    by (simp add: data_def encode_header_def ids slice_def u32_bytes_def u16_bytes_def)
  have b: "byte_at data 10 = Inr (datagram_counter h)" "byte_at data 11 = Inr (num_items h)"
     "byte_at data 16 = Inr (character_id h)" "byte_at data 17 = Inr (num_segments h)"
     "byte_at data 18 = Inr (num_props h)" "byte_at data 19 = Inr (num_fingers h)"
    using wf
    by (simp_all add: data_def encode_header_def ids byte_at_def u32_bytes_def u16_bytes_def
        wire_header_def unat_of_nat)
  have asc: "decode_ascii (map (\<lambda>c. of_nat (of_char c)) (id_string h)) = Inr (id_string h)"
    using wf
    by (simp add: decode_ascii_def wire_header_def list_all_iff ascii_byte_lt
        ascii_char_roundtrip o_def map_idI)
  have u: "unpack_uint 4 (u32_bytes (sample_counter h)) = Inr (sample_counter h)"
     "unpack_uint 4 (u32_bytes (time_code h)) = Inr (time_code h)"
     "unpack_uint 2 (u16_bytes (payload_size h)) = Inr (payload_size h)"
    using wf
    by (simp_all add: unpack_uint_def be_nat_u32 be_nat_u16 wire_header_def)
       (simp_all add: u32_bytes_def u16_bytes_def)
  have sw: "startswith (id_string h) ''MXTP''" using wf by (simp add: wire_header_def)
  show ?thesis
    unfolding data_def[symmetric] parse_header_try_def
    using dlen sw
    by (simp add: bind_exn_def validate_data_length_def s0 s1 s2 s3 b asc u)
qed

lemma parse_header_encode:
  "wire_header h \<Longrightarrow> parse_header (encode_header h @ rest) = Inr (h, 24)"
  by (simp add: parse_header_def parse_header_try_encode)

text \<open>
  C3. A buffer of at least 24 bytes whose first six bytes are ASCII and begin with the
  protocol identifier is decoded: 24 bytes are consumed, and every field of the header is
  the big-endian value at its wire offset. If the six bytes are ASCII and do not begin
  with the protocol identifier, decoding fails with a protocol error. Hence a header
  written as the wire format lays it out (\<open>encode_header\<close>), followed by any payload, is
  decoded into the same header.
\<close>

theorem parse_header_wire_layout:
  "(24 \<le> length data \<and> list_all (\<lambda>b. b < 128) (take 6 data) \<and>
      take 4 data = PROTOCOL_IDENTIFIER \<longrightarrow>
    parse_header data =
      Inr (\<lparr>id_string = map (\<lambda>b. char_of (unat b)) (take 6 data),
            sample_counter = unat (data ! 6) * 2 ^ 24 + unat (data ! 7) * 2 ^ 16 +
                             unat (data ! 8) * 2 ^ 8 + unat (data ! 9),
            datagram_counter = unat (data ! 10),
            num_items = unat (data ! 11),
            time_code = unat (data ! 12) * 2 ^ 24 + unat (data ! 13) * 2 ^ 16 +
                        unat (data ! 14) * 2 ^ 8 + unat (data ! 15),
            character_id = unat (data ! 16),
            num_segments = unat (data ! 17),
            num_props = unat (data ! 18),
            num_fingers = unat (data ! 19),
            payload_size = unat (data ! 22) * 2 ^ 8 + unat (data ! 23)\<rparr>, 24)) \<and>
   (24 \<le> length data \<and> list_all (\<lambda>b. b < 128) (take 6 data) \<and>
      take 4 data \<noteq> PROTOCOL_IDENTIFIER \<longrightarrow>
    parse_header data =
      Inl (MVNProtocolError
             (''Invalid header ID: '' @ map (\<lambda>b. char_of (unat b)) (take 6 data))
             (Some ''MVN''))) \<and>
   (wire_header h \<longrightarrow>
      length (encode_header h) = 24 \<and>
      parse_header (encode_header h @ payload) = Inr (h, 24))"
  using parse_header_ok[of data] parse_header_bad_id[of data] parse_header_encode[of h payload]
    length_encode_header[of h]
  by (simp add: wire_header_def)

theorem parse_header_wire_layout_witness:
  "parse_header [0x4D, 0x58, 0x54, 0x50, 0x30, 0x32, 0, 0, 1, 2, 0x81, 3, 0, 0, 0, 9,
                 1, 23, 0, 0, 0, 0, 0, 96, 0xAA] =
     Inr (\<lparr>id_string = ''MXTP02'', sample_counter = 258, datagram_counter = 129,
           num_items = 3, time_code = 9, character_id = 1, num_segments = 23,
           num_props = 0, num_fingers = 0, payload_size = 96\<rparr>, 24) \<and>
   parse_header [0x41, 0x42, 0x43, 0x44, 0x30, 0x31, 0, 0, 0, 0, 0, 0, 0, 0, 0, 0,
                 0, 0, 0, 0, 0, 0, 0, 0] =
     Inl (MVNProtocolError ''Invalid header ID: ABCD01'' (Some ''MVN'')) \<and>
   parse_header (encode_header
       \<lparr>id_string = ''MXTP02'', sample_counter = 258, datagram_counter = 129,
        num_items = 3, time_code = 9, character_id = 1, num_segments = 23,
        num_props = 0, num_fingers = 0, payload_size = 96\<rparr> @ [0xAA]) =
     Inr (\<lparr>id_string = ''MXTP02'', sample_counter = 258, datagram_counter = 129,
           num_items = 3, time_code = 9, character_id = 1, num_segments = 23,
           num_props = 0, num_fingers = 0, payload_size = 96\<rparr>, 24)"
  using parse_header_wire_layout[of
      "[0x4D, 0x58, 0x54, 0x50, 0x30, 0x32, 0, 0, 1, 2, 0x81, 3, 0, 0, 0, 9,
        1, 23, 0, 0, 0, 0, 0, 96, 0xAA]"
      "\<lparr>id_string = ''MXTP02'', sample_counter = 258, datagram_counter = 129,
        num_items = 3, time_code = 9, character_id = 1, num_segments = 23,
        num_props = 0, num_fingers = 0, payload_size = 96\<rparr>" "[0xAA]"]
    parse_header_wire_layout[of
      "[0x41, 0x42, 0x43, 0x44, 0x30, 0x31, 0, 0, 0, 0, 0, 0, 0, 0, 0, 0,
        0, 0, 0, 0, 0, 0, 0, 0]"
      "\<lparr>id_string = ''MXTP02'', sample_counter = 258, datagram_counter = 129,
        num_items = 3, time_code = 9, character_id = 1, num_segments = 23,
        num_props = 0, num_fingers = 0, payload_size = 96\<rparr>" "[]"]
  by (simp add: PROTOCOL_IDENTIFIER_def wire_header_def startswith_def char_of_eq_char)


text \<open>
  C8, as the code has it. \<open>parse_header\<close> fails with a parse error of data type "header" exactly
  when the buffer has fewer than 24 bytes or one of its first six bytes is not ASCII.
  When the six bytes are ASCII and do not begin with the protocol identifier it fails
  with a protocol error, which is not a parse error; otherwise it succeeds. The decode
  is a function of the buffer alone, and a failed decode leaves the receiver as it was.
\<close>

theorem parse_header_failure_kinds:
  "(length data < 24 \<longrightarrow>
      parse_header data =
        Inl (MVNParseError
               (''Insufficient data length. Required: 24, Available: '' @ str_nat (length data))
               (Some ''header'') (Some 0))) \<and>
   (24 \<le> length data \<and> \<not> list_all (\<lambda>b. b < 128) (take 6 data) \<longrightarrow>
      parse_header data =
        Inl (MVNParseError ''Failed to decode header string'' (Some ''header'') None)) \<and>
   (24 \<le> length data \<and> list_all (\<lambda>b. b < 128) (take 6 data) \<and>
      take 4 data \<noteq> PROTOCOL_IDENTIFIER \<longrightarrow>
      (\<exists>m. parse_header data = Inl (MVNProtocolError m (Some ''MVN'')))) \<and>
   (24 \<le> length data \<and> list_all (\<lambda>b. b < 128) (take 6 data) \<and>
      take 4 data = PROTOCOL_IDENTIFIER \<longrightarrow>
      (\<exists>h. parse_header data = Inr (h, 24))) \<and>
   (header_parse_error (parse_header data) \<longleftrightarrow>
      length data < 24 \<or> \<not> list_all (\<lambda>b. b < 128) (take 6 data)) \<and>
   ((\<exists>e. parse_header data = Inl e) \<longrightarrow> process_datagram decode self data = self)"
proof -
  have a: "length data < 24 \<Longrightarrow> header_parse_error (parse_header data)"
    by (simp add: parse_header_short)
  have b: "24 \<le> length data \<Longrightarrow> \<not> list_all (\<lambda>b. b < 128) (take 6 data) \<Longrightarrow>
           header_parse_error (parse_header data)"
    by (simp add: parse_header_non_ascii)
  have c: "24 \<le> length data \<Longrightarrow> list_all (\<lambda>b. b < 128) (take 6 data) \<Longrightarrow>
           \<not> header_parse_error (parse_header data)"
    by (cases "take 4 data = PROTOCOL_IDENTIFIER")
       (simp_all add: parse_header_ok parse_header_bad_id)
  have d: "header_parse_error (parse_header data) \<longleftrightarrow>
      length data < 24 \<or> \<not> list_all (\<lambda>b. b < 128) (take 6 data)"
    using a b c by (meson not_less)
  have e: "(\<exists>e. parse_header data = Inl e) \<longrightarrow> process_datagram decode self data = self"
    by (auto simp: process_datagram_def)
  show ?thesis
    using d e parse_header_short[of data] parse_header_non_ascii[of data]
      parse_header_bad_id[of data] parse_header_ok[of data]
    by simp
qed

theorem parse_header_failure_kinds_witness:
  "parse_header [0x4D, 0x58] =
     Inl (MVNParseError ''Insufficient data length. Required: 24, Available: 2''
            (Some ''header'') (Some 0)) \<and>
   parse_header [0x4D, 0x58, 0x54, 0x50, 0xFF, 0x31, 0, 0, 0, 0, 0, 0, 0, 0, 0, 0,
                 0, 0, 0, 0, 0, 0, 0, 0] =
     Inl (MVNParseError ''Failed to decode header string'' (Some ''header'') None) \<and>
   header_parse_error (parse_header [0x4D, 0x58]) \<and>
   process_datagram (\<lambda>t p h. Inr None) (start (init_receiver True 1000 :: unit receiver))
       [0x4D, 0x58] =
     start (init_receiver True 1000)"
  using parse_header_failure_kinds[of "[0x4D, 0x58]" "\<lambda>t p h. Inr None"
      "start (init_receiver True 1000 :: unit receiver)"]
    parse_header_failure_kinds[of
      "[0x4D, 0x58, 0x54, 0x50, 0xFF, 0x31, 0, 0, 0, 0, 0, 0, 0, 0, 0, 0,
        0, 0, 0, 0, 0, 0, 0, 0]" "\<lambda>t p h. Inr None"
      "start (init_receiver True 1000 :: unit receiver)"]
  by (simp add: str_nat_digit char_of_eq_char)

theorem identifier_mismatch_is_protocol_error:
  "parse_header [0x41, 0x42, 0x43, 0x44, 0x30, 0x31, 0, 0, 0, 0, 0, 0, 0, 0, 0, 0,
                 0, 0, 0, 0, 0, 0, 0, 0] =
     Inl (MVNProtocolError ''Invalid header ID: ABCD01'' (Some ''MVN'')) \<and>
   \<not> header_parse_error
       (parse_header [0x41, 0x42, 0x43, 0x44, 0x30, 0x31, 0, 0, 0, 0, 0, 0, 0, 0, 0, 0,
                      0, 0, 0, 0, 0, 0, 0, 0])"
proof -
  have "parse_header [0x41, 0x42, 0x43, 0x44, 0x30, 0x31, 0, 0, 0, 0, 0, 0, 0, 0, 0, 0,
                 0, 0, 0, 0, 0, 0, 0, 0] =
     Inl (MVNProtocolError ''Invalid header ID: ABCD01'' (Some ''MVN''))"
    by (simp add: parse_header_def parse_header_try_def bind_exn_def validate_data_length_def
        decode_ascii_def slice_def startswith_def char_of_eq_char)
  then show ?thesis by simp
qed
section \<open>The reassembly tracker\<close>

lemma get_datagram_index_mod: "get_datagram_index d = d mod 128"
  using take_bit_eq_mask[of 7 d]
  by (simp add: get_datagram_index_def take_bit_eq_mod mask_eq_exp_minus_1)

lemma is_last_datagram_odd: "is_last_datagram d = odd (d div 128)"
  using and_exp_eq_0_iff_not_bit[of d 7]
  by (simp add: is_last_datagram_def bit_iff_odd)

lemma index_nonfinal: "i < 128 \<Longrightarrow> get_datagram_index i = i \<and> \<not> is_last_datagram i"
  by (simp add: get_datagram_index_mod is_last_datagram_odd)

lemma index_final: "i < 128 \<Longrightarrow> get_datagram_index (128 + i) = i \<and> is_last_datagram (128 + i)"
  by (simp add: get_datagram_index_mod is_last_datagram_odd)

lemma extend_slots_eq: "extend_slots l i = l @ replicate (Suc i - length l) None"
proof (induction l i rule: extend_slots.induct)
  case (1 l i)
  show ?case
  proof (cases "length l \<le> i")
    case True
    then have "Suc i - length l = Suc (i - length l)" by simp
    with True 1 show ?thesis
      by (subst extend_slots.simps) (simp add: replicate_app_Cons_same)
  next
    case False
    then show ?thesis by (subst extend_slots.simps) simp
  qed
qed

lemma extend_slots_next:
  "(extend_slots (map Some xs) (length xs))[length xs := Some p] = map Some (xs @ [p])"
  by (simp add: extend_slots_eq list_update_append)

lemma submit_all_append:
  "submit_all self (a @ b) =
     (case submit_all self a of (ra, s1) \<Rightarrow>
        (case submit_all s1 b of (rb, s2) \<Rightarrow> (ra @ rb, s2)))"
  by (induction a arbitrary: self) (auto split: prod.splits)

lemma handle_partial_next:
  assumes "slots_of self (sample_counter h, character_id h) = map Some xs"
    and "get_datagram_index (datagram_counter h) = length xs"
  shows "handle_partial_datagram self h p =
         self\<lparr>partial_datagrams :=
           (partial_datagrams self)((sample_counter h, character_id h) \<mapsto> map Some (xs @ [p]))\<rparr>"
  using assms extend_slots_next[of xs p]
  by (simp add: handle_partial_datagram_def slots_of_def Let_def)

lemma nonfinal_prefix:
  assumes "slots_of self key = map Some xs"
    and "\<forall>i < length fs. sample_counter (fst (fs ! i)) = fst key \<and>
           character_id (fst (fs ! i)) = snd key \<and>
           datagram_counter (fst (fs ! i)) = length xs + i"
    and "length xs + length fs \<le> 128"
  shows "submit_all self fs =
     (replicate (length fs) None,
      if fs = [] then self
      else self\<lparr>partial_datagrams :=
             (partial_datagrams self)(key \<mapsto> map Some (xs @ map snd fs))\<rparr>)"
  using assms
proof (induction fs arbitrary: self xs)
  case Nil
  then show ?case by simp
next
  case (Cons f fs)
  obtain h p where f: "f = (h, p)" by (cases f)
  have h0: "sample_counter h = fst key" "character_id h = snd key"
    "datagram_counter h = length xs"
    using Cons.prems(2)[rule_format, of 0] f by simp_all
  have lt: "length xs < 128" using Cons.prems(3) by simp
  have idx: "get_datagram_index (datagram_counter h) = length xs"
    "\<not> is_last_datagram (datagram_counter h)"
    using index_nonfinal[OF lt] h0 by simp_all
  have k: "(sample_counter h, character_id h) = key" using h0 by (cases key) simp
  define self1 where "self1 = self\<lparr>partial_datagrams :=
      (partial_datagrams self)(key \<mapsto> map Some (xs @ [p]))\<rparr>"
  have step: "route_datagram self h p = (None, self1)"
    using handle_partial_next[of self h xs p] Cons.prems(1) idx k
    by (simp add: route_datagram_def self1_def)
  have s1: "slots_of self1 key = map Some (xs @ [p])"
    by (simp add: slots_of_def self1_def)
  have rest: "\<forall>i < length fs. sample_counter (fst (fs ! i)) = fst key \<and>
           character_id (fst (fs ! i)) = snd key \<and>
           datagram_counter (fst (fs ! i)) = length (xs @ [p]) + i"
  proof (intro allI impI)
    fix i assume "i < length fs"
    then show "sample_counter (fst (fs ! i)) = fst key \<and>
           character_id (fst (fs ! i)) = snd key \<and>
           datagram_counter (fst (fs ! i)) = length (xs @ [p]) + i"
      using Cons.prems(2)[rule_format, of "Suc i"] by simp
  qed
  have len: "length (xs @ [p]) + length fs \<le> 128" using Cons.prems(3) by simp
  have ih: "submit_all self1 fs =
     (replicate (length fs) None,
      if fs = [] then self1
      else self1\<lparr>partial_datagrams :=
             (partial_datagrams self1)(key \<mapsto> map Some ((xs @ [p]) @ map snd fs))\<rparr>)"
    by (rule Cons.IH[OF s1 rest len])
  show ?case
    unfolding f using step ih
    by (simp add: self1_def)
qed

lemma final_after_prefix:
  assumes "partial_datagrams self key = Some (map Some xs)"
    and "xs \<noteq> []" "length xs < 128"
    and "sample_counter h = fst key" "character_id h = snd key"
    and "datagram_counter h = 128 + length xs"
    and "payload_size h \<le> length (concat xs) + length p"
  shows "route_datagram self h p =
     (Some (Inr (concat xs @ p)),
      self\<lparr>partial_datagrams := (partial_datagrams self)(key := None)\<rparr>)"
proof -
  have idx: "get_datagram_index (datagram_counter h) = length xs"
    "is_last_datagram (datagram_counter h)"
    using index_final[OF assms(3)] assms(6) by simp_all
  have k: "(sample_counter h, character_id h) = key" using assms(4,5) by (cases key) simp
  have nz: "length xs \<noteq> 0" using assms(2) by simp
  have cc: "concat (map the (map Some (xs @ [p]))) = concat xs @ p"
    by (simp add: o_def)
  have nn: "None \<notin> set (map Some (xs @ [p]))" by auto
  have nt: "None \<notin> set (take (length xs + 1) (map Some (xs @ [p])))"
    using nn by (meson in_set_takeD)
  show ?thesis
    unfolding route_datagram_def get_complete_payload_def
    using idx nz assms(1,7) nn nt
    by (simp add: k Let_def extend_slots_next cc del: map_append)
qed

lemma single_fragment:
  assumes "datagram_counter h = 128" "payload_size h \<le> length p"
  shows "route_datagram self h p = (Some (Inr p), self)"
proof -
  have "get_datagram_index (datagram_counter h) = 0" "is_last_datagram (datagram_counter h)"
    using index_final[of 0] assms(1) by simp_all
  then show ?thesis
    using assms(2) by (simp add: route_datagram_def get_complete_payload_def)
qed

text \<open>
  C1. For every key (sample counter, character id) that has no entry in the tracker, and
  every message of one to 128 fragments submitted in index order, where the fragments
  before the last carry their index with the final bit clear and the last carries its
  index with the final bit set: no fragment before the last delivers anything, the last
  delivers the concatenation of the payloads in index order (its length being at least
  the payload size the last header declares), and afterwards the receiver is as it was
  before the message, so the key has no entry. The number of fragments is arbitrary, which
  covers 1, 2 and 5, and so are their sizes.
\<close>

theorem fragments_in_order_reassemble:
  assumes "partial_datagrams self (sc, cid) = None"
    and "\<forall>i < length fs. sample_counter (fst (fs ! i)) = sc \<and>
           character_id (fst (fs ! i)) = cid \<and> datagram_counter (fst (fs ! i)) = i"
    and "length fs < 128"
    and "sample_counter h = sc" "character_id h = cid"
    and "datagram_counter h = 128 + length fs"
    and "payload_size h \<le> length (concat (map snd fs) @ p)"
  shows "submit_all self (fs @ [(h, p)]) =
           (replicate (length fs) None @ [Some (Inr (concat (map snd fs) @ p))], self) \<and>
         partial_datagrams (snd (submit_all self (fs @ [(h, p)]))) (sc, cid) = None"
proof (cases "fs = []")
  case True
  then show ?thesis
    using single_fragment[of h p self] assms(1,6,7) by simp
next
  case False
  define self1 where "self1 = self\<lparr>partial_datagrams :=
      (partial_datagrams self)((sc, cid) \<mapsto> map Some (map snd fs))\<rparr>"
  have s0: "slots_of self (sc, cid) = map Some []"
    using assms(1) by (simp add: slots_of_def)
  have pre: "submit_all self fs = (replicate (length fs) None, self1)"
    using nonfinal_prefix[of self "(sc, cid)" "[]" fs] s0 assms(2,3) False
    by (simp add: self1_def)
  have e1: "partial_datagrams self1 (sc, cid) = Some (map Some (map snd fs))"
    by (simp add: self1_def)
  have fin: "route_datagram self1 h p =
     (Some (Inr (concat (map snd fs) @ p)),
      self1\<lparr>partial_datagrams := (partial_datagrams self1)((sc, cid) := None)\<rparr>)"
    using final_after_prefix[of self1 "(sc, cid)" "map snd fs" h p] e1 False assms(3-7)
    by simp
  have same: "self1\<lparr>partial_datagrams := (partial_datagrams self1)((sc, cid) := None)\<rparr> = self"
    using assms(1) by (simp add: self1_def fun_upd_idem)
  show ?thesis
    using pre fin same assms(1) by (simp add: submit_all_append)
qed

theorem fragments_in_order_reassemble_witness:
  "submit_all (start (init_receiver True 1000 :: unit receiver))
     [(example_header 7 1 128 3, [1, 2, 3])] =
     ([Some (Inr [1, 2, 3])], start (init_receiver True 1000)) \<and>
   submit_all (start (init_receiver True 1000 :: unit receiver))
     [(example_header 7 1 0 0, [1, 2]), (example_header 7 1 129 3, [3])] =
     ([None, Some (Inr [1, 2, 3])], start (init_receiver True 1000)) \<and>
   submit_all (start (init_receiver True 1000 :: unit receiver))
     [(example_header 7 1 0 0, [1]), (example_header 7 1 1 0, []),
      (example_header 7 1 2 0, [2, 3]), (example_header 7 1 3 0, [4]),
      (example_header 7 1 132 5, [5])] =
     ([None, None, None, None, Some (Inr [1, 2, 3, 4, 5])],
      start (init_receiver True 1000))"
proof -
  have e: "partial_datagrams (start (init_receiver True 1000 :: unit receiver)) (7, 1) = None"
    by (simp add: start_def init_receiver_def)
  have a: "\<forall>i < length ([] :: (mvn_header \<times> byte list) list).
      sample_counter (fst ([] ! i)) = 7 \<and> character_id (fst ([] ! i)) = 1 \<and>
      datagram_counter (fst ([] ! i)) = i"
    by simp
  have b: "\<forall>i < length [(example_header 7 1 0 0, [1, 2 :: byte])].
      sample_counter (fst ([(example_header 7 1 0 0, [1, 2 :: byte])] ! i)) = 7 \<and>
      character_id (fst ([(example_header 7 1 0 0, [1, 2 :: byte])] ! i)) = 1 \<and>
      datagram_counter (fst ([(example_header 7 1 0 0, [1, 2 :: byte])] ! i)) = i"
    by (simp add: example_header_def)
  have c: "\<forall>i < length [(example_header 7 1 0 0, [1 :: byte]), (example_header 7 1 1 0, []),
      (example_header 7 1 2 0, [2, 3]), (example_header 7 1 3 0, [4])].
      sample_counter (fst ([(example_header 7 1 0 0, [1 :: byte]), (example_header 7 1 1 0, []),
      (example_header 7 1 2 0, [2, 3]), (example_header 7 1 3 0, [4])] ! i)) = 7 \<and>
      character_id (fst ([(example_header 7 1 0 0, [1 :: byte]), (example_header 7 1 1 0, []),
      (example_header 7 1 2 0, [2, 3]), (example_header 7 1 3 0, [4])] ! i)) = 1 \<and>
      datagram_counter (fst ([(example_header 7 1 0 0, [1 :: byte]), (example_header 7 1 1 0, []),
      (example_header 7 1 2 0, [2, 3]), (example_header 7 1 3 0, [4])] ! i)) = i"
    by (auto simp: example_header_def nth_Cons' less_Suc_eq numeral_eq_Suc)
  show ?thesis
    using fragments_in_order_reassemble[OF e a, of "example_header 7 1 128 3" "[1, 2, 3]"]
      fragments_in_order_reassemble[OF e b, of "example_header 7 1 129 3" "[3]"]
      fragments_in_order_reassemble[OF e c, of "example_header 7 1 132 5" "[5]"]
    by (simp add: example_header_def)
qed

lemma slot_below:
  "j < i \<Longrightarrow>
   ((extend_slots l i)[i := Some p]) ! j = (if j < length l then l ! j else None)"
  by (simp add: extend_slots_eq nth_append)

lemma length_slots: "length ((extend_slots l i)[i := Some p]) = max (length l) (Suc i)"
  by (simp add: extend_slots_eq)

lemma gap_seen:
  assumes "j < i" "length l \<le> j \<or> l ! j = None"
  shows "None \<in> set (take (i + 1) ((extend_slots l i)[i := Some p]))"
proof -
  let ?l = "(extend_slots l i)[i := Some p]"
  have "?l ! j = (if j < length l then l ! j else None)" by (rule slot_below[OF assms(1)])
  then have "?l ! j = None" using assms(2) by auto
  moreover have "j < length (take (i + 1) ?l)" using assms(1) by (simp add: extend_slots_eq)
  moreover have "take (i + 1) ?l ! j = ?l ! j" using assms(1) by simp
  ultimately show ?thesis by (metis nth_mem)
qed

lemma route_nonfinal:
  "\<not> is_last_datagram (datagram_counter h) \<Longrightarrow> fst (route_datagram self h p) = None"
  by (simp add: route_datagram_def)

lemma submit_nonfinal:
  "list_all (\<lambda>f. \<not> is_last_datagram (datagram_counter (fst f))) fs \<Longrightarrow>
   fst (submit_all self fs) = replicate (length fs) None"
proof (induction fs arbitrary: self)
  case Nil
  then show ?case by simp
next
  case (Cons f fs)
  obtain h p where f: "f = (h, p)" by (cases f)
  from Cons.prems f have nf: "\<not> is_last_datagram (datagram_counter h)" by simp
  from Cons.prems have rest: "list_all (\<lambda>f. \<not> is_last_datagram (datagram_counter (fst f))) fs"
    by simp
  obtain r self1 where r: "route_datagram self h p = (r, self1)" by (cases "route_datagram self h p")
  obtain rs self2 where rs: "submit_all self1 fs = (rs, self2)" by (cases "submit_all self1 fs")
  have "r = None" using route_nonfinal[OF nf, of self p] r by simp
  moreover have "rs = replicate (length fs) None" using Cons.IH[OF rest, of self1] rs by simp
  ultimately show ?case using f r rs by simp
qed

lemma route_incomplete:
  assumes "is_last_datagram (datagram_counter h)"
    and "partial_datagrams self (sample_counter h, character_id h) = Some l"
    and "j < get_datagram_index (datagram_counter h)" "length l \<le> j \<or> l ! j = None"
  shows "route_datagram self h p =
     (Some (Inl (MVNDatagramError ''Incomplete datagram sequence''
                  (Some (datagram_counter h)) (Some (sample_counter h)))),
      self\<lparr>partial_datagrams := (partial_datagrams self)
         ((sample_counter h, character_id h) \<mapsto>
          (extend_slots l (get_datagram_index (datagram_counter h)))
            [get_datagram_index (datagram_counter h) := Some p])\<rparr>)"
proof -
  have nz: "get_datagram_index (datagram_counter h) \<noteq> 0" using assms(3) by simp
  show ?thesis
    using assms(1,2) nz gap_seen[OF assms(3,4), of p]
    by (simp add: route_datagram_def get_complete_payload_def Let_def)
qed

lemma route_missing:
  assumes "is_last_datagram (datagram_counter h)"
    and "get_datagram_index (datagram_counter h) \<noteq> 0"
    and "partial_datagrams self (sample_counter h, character_id h) = None"
  shows "route_datagram self h p =
     (Some (Inl (MVNDatagramError ''Missing partial datagrams''
                  (Some (datagram_counter h)) (Some (sample_counter h)))), self)"
  using assms by (simp add: route_datagram_def get_complete_payload_def)

lemma route_delivers:
  assumes "route_datagram self h p = (Some (Inr payload), self')"
  shows "is_last_datagram (datagram_counter h) \<and>
     (get_datagram_index (datagram_counter h) = 0 \<or>
      (\<exists>l. partial_datagrams self (sample_counter h, character_id h) = Some l \<and>
           (\<forall>j < get_datagram_index (datagram_counter h). j < length l \<and> l ! j \<noteq> None)))"
proof -
  have fin: "is_last_datagram (datagram_counter h)"
  proof (rule ccontr)
    assume "\<not> is_last_datagram (datagram_counter h)"
    then have "fst (route_datagram self h p) = None" by (rule route_nonfinal)
    with assms show False by simp
  qed
  show ?thesis
  proof (cases "get_datagram_index (datagram_counter h) = 0")
    case True
    with fin show ?thesis by simp
  next
    case False
    let ?i = "get_datagram_index (datagram_counter h)"
    let ?key = "(sample_counter h, character_id h)"
    show ?thesis
    proof (cases "partial_datagrams self ?key")
      case None
      from route_missing[OF fin False None, of p] assms show ?thesis by simp
    next
      case (Some l)
      have "\<forall>j < ?i. j < length l \<and> l ! j \<noteq> None"
      proof (intro allI impI)
        fix j assume j: "j < ?i"
        show "j < length l \<and> l ! j \<noteq> None"
        proof (rule ccontr)
          assume "\<not> (j < length l \<and> l ! j \<noteq> None)"
          then have "length l \<le> j \<or> l ! j = None" by auto
          from route_incomplete[OF fin Some j this, of p] assms show False by simp
        qed
      qed
      with fin Some show ?thesis by simp
    qed
  qed
qed

text \<open>
  C4, as the code has it. A datagram whose final bit is clear never delivers a payload, in whatever
  order such datagrams are submitted. A payload is delivered only by a datagram whose
  final bit is set and for which every index below its own is present. If a final-bit
  datagram arrives for a key that has an entry in which a lower index is still missing,
  the datagram error "Incomplete datagram sequence" is raised, nothing is delivered, and
  the entry stays in the tracker, now also holding the payload of that datagram. If a
  final-bit datagram with a nonzero index arrives for a key that has no entry, the
  datagram error is "Missing partial datagrams", nothing is delivered and no entry is
  created.
\<close>

theorem completion_only_on_checked_final:
  "(\<not> is_last_datagram (datagram_counter h) \<longrightarrow> fst (route_datagram self h p) = None) \<and>
   (list_all (\<lambda>f. \<not> is_last_datagram (datagram_counter (fst f))) fs \<longrightarrow>
      fst (submit_all self fs) = replicate (length fs) None) \<and>
   (route_datagram self h p = (Some (Inr payload), self') \<longrightarrow>
      is_last_datagram (datagram_counter h) \<and>
      (get_datagram_index (datagram_counter h) = 0 \<or>
       (\<exists>l. partial_datagrams self (sample_counter h, character_id h) = Some l \<and>
            (\<forall>j < get_datagram_index (datagram_counter h). j < length l \<and> l ! j \<noteq> None)))) \<and>
   (is_last_datagram (datagram_counter h) \<and>
    partial_datagrams self (sample_counter h, character_id h) = Some l \<and>
    j < get_datagram_index (datagram_counter h) \<and> (length l \<le> j \<or> l ! j = None) \<longrightarrow>
      route_datagram self h p =
        (Some (Inl (MVNDatagramError ''Incomplete datagram sequence''
                     (Some (datagram_counter h)) (Some (sample_counter h)))),
         self\<lparr>partial_datagrams := (partial_datagrams self)
            ((sample_counter h, character_id h) \<mapsto>
             (extend_slots l (get_datagram_index (datagram_counter h)))
               [get_datagram_index (datagram_counter h) := Some p])\<rparr>)) \<and>
   (is_last_datagram (datagram_counter h) \<and>
    get_datagram_index (datagram_counter h) \<noteq> 0 \<and>
    partial_datagrams self (sample_counter h, character_id h) = None \<longrightarrow>
      route_datagram self h p =
        (Some (Inl (MVNDatagramError ''Missing partial datagrams''
                     (Some (datagram_counter h)) (Some (sample_counter h)))), self))"
  using route_nonfinal[of h self p] submit_nonfinal[of fs self]
    route_delivers[of self h p payload self'] route_incomplete[of h self l j p]
    route_missing[of h self p]
  by blast

theorem completion_only_on_checked_final_witness:
  "route_datagram
     ((start (init_receiver True 1000 :: unit receiver))
        \<lparr>partial_datagrams := [(7, 1) \<mapsto> [Some [1]]]\<rparr>)
     (example_header 7 1 130 3) [3] =
     (Some (Inl (MVNDatagramError ''Incomplete datagram sequence'' (Some 130) (Some 7))),
      (start (init_receiver True 1000))
        \<lparr>partial_datagrams := [(7, 1) \<mapsto> [Some [1], None, Some [3]]]\<rparr>) \<and>
   fst (submit_all (start (init_receiver True 1000 :: unit receiver))
     [(example_header 7 1 0 0, [1]), (example_header 7 1 2 0, [3]),
      (example_header 7 1 1 0, [2])]) = [None, None, None] \<and>
   route_datagram (start (init_receiver True 1000 :: unit receiver))
     (example_header 7 1 129 3) [3] =
     (Some (Inl (MVNDatagramError ''Missing partial datagrams'' (Some 129) (Some 7))),
      start (init_receiver True 1000))"
proof -
  let ?s0 = "start (init_receiver True 1000 :: unit receiver)"
  let ?s1 = "?s0\<lparr>partial_datagrams := [(7, 1) \<mapsto> [Some [1]]]\<rparr>"
  let ?fs = "[(example_header 7 1 0 0, [1 :: byte]), (example_header 7 1 2 0, [3]),
      (example_header 7 1 1 0, [2])]"
  have i130: "is_last_datagram (datagram_counter (example_header 7 1 130 3))"
    "get_datagram_index (datagram_counter (example_header 7 1 130 3)) = 2"
    by (simp_all add: example_header_def is_last_datagram_odd get_datagram_index_mod)
  have i129: "is_last_datagram (datagram_counter (example_header 7 1 129 3))"
    "get_datagram_index (datagram_counter (example_header 7 1 129 3)) = 1"
    by (simp_all add: example_header_def is_last_datagram_odd get_datagram_index_mod)
  have key: "sample_counter (example_header 7 1 c z) = 7"
    "character_id (example_header 7 1 c z) = 1"
    "datagram_counter (example_header 7 1 c z) = c" for c z
    by (simp_all add: example_header_def)
  have e1: "partial_datagrams ?s1 (7, 1) = Some [Some [1]]" by simp
  have e0: "partial_datagrams ?s0 (7, 1) = None" by (simp add: start_def init_receiver_def)
  have nf: "list_all (\<lambda>f. \<not> is_last_datagram (datagram_counter (fst f))) ?fs"
    by (simp add: example_header_def is_last_datagram_odd)
  have sl: "(extend_slots [Some [1 :: byte]] 2)[2 := Some [3]] = [Some [1], None, Some [3]]"
    by (simp add: extend_slots_eq numeral_2_eq_2)
  let ?h = "example_header 7 1 130 3"
  let ?g = "example_header 7 1 129 3"
  note T1 = completion_only_on_checked_final[of ?h ?s1 "[3]" ?fs "[]" ?s0 "[Some [1]]" 1]
  note T0 = completion_only_on_checked_final[of ?g ?s0 "[3]" ?fs "[]" ?s0 "[Some [1]]" 1]
  have a0: "route_datagram ?s1 ?h [3] =
        (Some (Inl (MVNDatagramError ''Incomplete datagram sequence''
                     (Some (datagram_counter ?h)) (Some (sample_counter ?h)))),
         ?s1\<lparr>partial_datagrams := (partial_datagrams ?s1)
            ((sample_counter ?h, character_id ?h) \<mapsto>
             (extend_slots [Some [1]] (get_datagram_index (datagram_counter ?h)))
               [get_datagram_index (datagram_counter ?h) := Some [3]])\<rparr>)"
    by (rule T1[THEN conjunct2, THEN conjunct2, THEN conjunct2, THEN conjunct1, rule_format])
       (simp add: example_header_def is_last_datagram_odd get_datagram_index_mod)
  have a: "route_datagram ?s1 ?h [3] =
     (Some (Inl (MVNDatagramError ''Incomplete datagram sequence'' (Some 130) (Some 7))),
      ?s0\<lparr>partial_datagrams := [(7, 1) \<mapsto> [Some [1], None, Some [3]]]\<rparr>)"
    unfolding a0 by (simp add: example_header_def get_datagram_index_mod sl)
  have b: "fst (submit_all ?s0 ?fs) = replicate (length ?fs) None"
    by (rule T0[THEN conjunct2, THEN conjunct1, rule_format]) (rule nf)
  have c: "route_datagram ?s0 ?g [3] =
        (Some (Inl (MVNDatagramError ''Missing partial datagrams''
                     (Some (datagram_counter ?g)) (Some (sample_counter ?g)))), ?s0)"
    by (rule T0[THEN conjunct2, THEN conjunct2, THEN conjunct2, THEN conjunct2, rule_format])
       (simp add: example_header_def is_last_datagram_odd get_datagram_index_mod
          start_def init_receiver_def)
  show ?thesis using a b c by (simp add: example_header_def)
qed

theorem final_before_any_fragment:
  "route_datagram (start (init_receiver True 1000 :: unit receiver))
     (example_header 7 1 129 3) [3] =
     (Some (Inl (MVNDatagramError ''Missing partial datagrams'' (Some 129) (Some 7))),
      start (init_receiver True 1000)) \<and>
   partial_datagrams (snd (route_datagram (start (init_receiver True 1000 :: unit receiver))
     (example_header 7 1 129 3) [3])) (7, 1) = None"
  by (simp add: route_datagram_def get_complete_payload_def example_header_def
      is_last_datagram_odd get_datagram_index_mod start_def init_receiver_def)

lemma handle_parsed_data_tracker:
  "partial_datagrams (handle_parsed_data self msg_type parsed header) = partial_datagrams self"
  by (simp add: handle_parsed_data_def Let_def)

lemma get_complete_payload_single:
  assumes "is_last_datagram (datagram_counter h)" "get_datagram_index (datagram_counter h) = 0"
  shows "get_complete_payload self h p =
     (if length p < payload_size h
      then Inl (MVNDatagramError
             (''Payload size mismatch. Expected: '' @ str_nat (payload_size h) @
              '', Got: '' @ str_nat (length p))
             (Some (datagram_counter h)) (Some (sample_counter h)))
      else Inr p, self)"
  using assms by (simp add: get_complete_payload_def)

lemma route_tracker_other:
  assumes "k \<noteq> (sample_counter h, character_id h)"
  shows "partial_datagrams (snd (route_datagram self h p)) k = partial_datagrams self k"
proof (cases "is_last_datagram (datagram_counter h)")
  case False
  then show ?thesis
    using assms by (simp add: route_datagram_def handle_partial_datagram_def Let_def)
next
  case True
  show ?thesis
  proof (cases "partial_datagrams self (sample_counter h, character_id h)")
    case None
    then show ?thesis
      using True by (simp add: route_datagram_def get_complete_payload_def split: prod.splits)
  next
    case (Some l)
    then show ?thesis
      using True assms
      by (simp add: route_datagram_def get_complete_payload_def Let_def split: prod.splits)
  qed
qed

lemma route_tracker_nonfinal:
  assumes "\<not> is_last_datagram (datagram_counter h)"
  shows "partial_datagrams (snd (route_datagram self h p))
           (sample_counter h, character_id h) \<noteq> None"
  using assms by (simp add: route_datagram_def handle_partial_datagram_def Let_def)

lemma route_tracker_single:
  assumes "is_last_datagram (datagram_counter h)" "get_datagram_index (datagram_counter h) = 0"
  shows "snd (route_datagram self h p) = self"
  using assms get_complete_payload_single[OF assms, of self p]
  by (simp add: route_datagram_def)

lemma route_removes:
  assumes "partial_datagrams self k \<noteq> None"
    and "partial_datagrams (snd (route_datagram self h p)) k = None"
  shows "is_last_datagram (datagram_counter h) \<and>
         get_datagram_index (datagram_counter h) \<noteq> 0 \<and>
         k = (sample_counter h, character_id h)"
proof -
  have k: "k = (sample_counter h, character_id h)"
    using route_tracker_other[of k h self p] assms by auto
  have fin: "is_last_datagram (datagram_counter h)"
    using route_tracker_nonfinal[of h self p] assms(2) k by auto
  have "get_datagram_index (datagram_counter h) \<noteq> 0"
  proof
    assume "get_datagram_index (datagram_counter h) = 0"
    then have "snd (route_datagram self h p) = self" by (rule route_tracker_single[OF fin])
    with assms show False by simp
  qed
  with k fin show ?thesis by simp
qed

lemma process_datagram_tracker:
  "partial_datagrams (process_datagram decode self data) =
     (case parse_header data of
        Inl e \<Rightarrow> partial_datagrams self
      | Inr (h, n) \<Rightarrow>
          partial_datagrams (snd (route_datagram
            (self\<lparr>connected_characters := insert (character_id h) (connected_characters self),
                   last_sample_counter := Some (sample_counter h)\<rparr>) h (drop n data))))"
  by (simp add: process_datagram_def Let_def handle_parsed_data_tracker
      split: sum.splits prod.splits option.splits)

text \<open>
  C10, as the code has it. A datagram with the final bit set and fragment index 0 is handled by the
  single-fragment path alone, whatever entries the tracker holds: the payload is returned
  (or the size mismatch raised) from the datagram's own payload and header, and the
  receiver, so every tracker entry, is left unchanged. Afterwards an entry is cleared by
  \<open>stop\<close>, and the receive loop removes an entry only when it processes a datagram of
  that same key whose final bit is set and whose fragment index is not 0.
\<close>

theorem single_fragment_leaves_entries:
  "(is_last_datagram (datagram_counter h) \<and> get_datagram_index (datagram_counter h) = 0 \<longrightarrow>
      get_complete_payload self h p =
        (if length p < payload_size h
         then Inl (MVNDatagramError
                (''Payload size mismatch. Expected: '' @ str_nat (payload_size h) @
                 '', Got: '' @ str_nat (length p))
                (Some (datagram_counter h)) (Some (sample_counter h)))
         else Inr p, self)) \<and>
   (parse_header data = Inr (h, n) \<and> is_last_datagram (datagram_counter h) \<and>
    get_datagram_index (datagram_counter h) = 0 \<longrightarrow>
      partial_datagrams (process_datagram decode self data) = partial_datagrams self) \<and>
   partial_datagrams (stop self) = Map.empty \<and>
   (partial_datagrams self k \<noteq> None \<and>
    partial_datagrams (process_datagram decode self data) k = None \<longrightarrow>
      (\<exists>g m. parse_header data = Inr (g, m) \<and> is_last_datagram (datagram_counter g) \<and>
             get_datagram_index (datagram_counter g) \<noteq> 0 \<and>
             k = (sample_counter g, character_id g)))"
proof -
  have a: "is_last_datagram (datagram_counter h) \<and>
      get_datagram_index (datagram_counter h) = 0 \<longrightarrow>
      get_complete_payload self h p =
        (if length p < payload_size h
         then Inl (MVNDatagramError
                (''Payload size mismatch. Expected: '' @ str_nat (payload_size h) @
                 '', Got: '' @ str_nat (length p))
                (Some (datagram_counter h)) (Some (sample_counter h)))
         else Inr p, self)"
    using get_complete_payload_single[of h self p] by blast
  have b: "parse_header data = Inr (h, n) \<and> is_last_datagram (datagram_counter h) \<and>
    get_datagram_index (datagram_counter h) = 0 \<longrightarrow>
      partial_datagrams (process_datagram decode self data) = partial_datagrams self"
    by (simp add: process_datagram_tracker route_tracker_single)
  have c: "partial_datagrams (stop self) = Map.empty"
    by (simp add: stop_def)
  have d: "partial_datagrams self k \<noteq> None \<and>
    partial_datagrams (process_datagram decode self data) k = None \<longrightarrow>
      (\<exists>g m. parse_header data = Inr (g, m) \<and> is_last_datagram (datagram_counter g) \<and>
             get_datagram_index (datagram_counter g) \<noteq> 0 \<and>
             k = (sample_counter g, character_id g))"
  proof (intro impI, elim conjE)
    assume e: "partial_datagrams self k \<noteq> None"
      and r: "partial_datagrams (process_datagram decode self data) k = None"
    show "\<exists>g m. parse_header data = Inr (g, m) \<and> is_last_datagram (datagram_counter g) \<and>
             get_datagram_index (datagram_counter g) \<noteq> 0 \<and>
             k = (sample_counter g, character_id g)"
    proof (cases "parse_header data")
      case (Inl x)
      with e r show ?thesis by (simp add: process_datagram_tracker)
    next
      case (Inr x)
      obtain g m where x: "x = (g, m)" by (cases x)
      let ?s = "self\<lparr>connected_characters := insert (character_id g) (connected_characters self),
                   last_sample_counter := Some (sample_counter g)\<rparr>"
      have e': "partial_datagrams ?s k \<noteq> None" using e by simp
      have r': "partial_datagrams (snd (route_datagram ?s g (drop m data))) k = None"
        using r Inr x by (simp add: process_datagram_tracker)
      from route_removes[OF e' r'] Inr x show ?thesis by simp
    qed
  qed
  show ?thesis using a b c d by blast
qed

theorem single_fragment_leaves_entries_witness:
  "get_complete_payload
     ((start (init_receiver True 1000 :: unit receiver))
        \<lparr>partial_datagrams := [(7, 1) \<mapsto> [Some [1]]]\<rparr>)
     (example_header 7 1 128 1) [9] =
     (Inr [9], (start (init_receiver True 1000))
        \<lparr>partial_datagrams := [(7, 1) \<mapsto> [Some [1]]]\<rparr>) \<and>
   partial_datagrams (stop ((start (init_receiver True 1000 :: unit receiver))
        \<lparr>partial_datagrams := [(7, 1) \<mapsto> [Some [1]]]\<rparr>)) = Map.empty \<and>
   partial_datagrams (process_datagram (\<lambda>t p h. Inr None)
       ((start (init_receiver True 1000 :: unit receiver))
          \<lparr>partial_datagrams := [(7, 1) \<mapsto> [Some [1]]]\<rparr>)
       (encode_header (example_header 7 1 128 1) @ [9])) = [(7, 1) \<mapsto> [Some [1]]] \<and>
   (\<exists>g m. parse_header (encode_header (example_header 7 1 129 2) @ [2]) = Inr (g, m) \<and>
      is_last_datagram (datagram_counter g) \<and> get_datagram_index (datagram_counter g) \<noteq> 0 \<and>
      (7, 1) = (sample_counter g, character_id g))"
proof -
  let ?s1 = "(start (init_receiver True 1000 :: unit receiver))
        \<lparr>partial_datagrams := [(7, 1) \<mapsto> [Some [1]]]\<rparr>"
  let ?h = "example_header 7 1 128 1"
  note T = single_fragment_leaves_entries[of ?h ?s1 "[9]" "[]" 0 "\<lambda>t p h. Inr None" "(7, 1)"]
  have a: "get_complete_payload ?s1 ?h [9] =
        (if length [9 :: byte] < payload_size ?h
         then Inl (MVNDatagramError
                (''Payload size mismatch. Expected: '' @ str_nat (payload_size ?h) @
                 '', Got: '' @ str_nat (length [9 :: byte]))
                (Some (datagram_counter ?h)) (Some (sample_counter ?h)))
         else Inr [9], ?s1)"
    by (rule T[THEN conjunct1, rule_format])
       (simp add: example_header_def is_last_datagram_odd get_datagram_index_mod)
  have b: "partial_datagrams (stop ?s1) = Map.empty"
    by (rule T[THEN conjunct2, THEN conjunct2, THEN conjunct1])
  let ?D = "(\<lambda>t p h. Inr None) :: string \<Rightarrow> byte list \<Rightarrow> mvn_header \<Rightarrow> exn + unit option"
  let ?g = "example_header 7 1 129 2"
  have wf: "wire_header (example_header s i c z)"
    if "s < 256" "i < 256" "c < 256" "z < 256" for s i c z
    using that by (simp add: wire_header_def example_header_def startswith_def)
  have ph: "parse_header (encode_header ?h @ [9]) = Inr (?h, 24)"
    by (rule parse_header_encode) (simp add: wf)
  have pg: "parse_header (encode_header ?g @ [2]) = Inr (?g, 24)"
    by (rule parse_header_encode) (simp add: wf)
  have le: "length (encode_header (example_header 7 1 c z)) = 24" for c z
    by (rule length_encode_header) (simp add: example_header_def)
  note T2 = single_fragment_leaves_entries[of ?h ?s1 "[9]" "encode_header ?h @ [9]" 24 ?D
      "(7, 1)"]
  have c: "partial_datagrams (process_datagram ?D ?s1 (encode_header ?h @ [9])) =
           partial_datagrams ?s1"
    by (rule T2[THEN conjunct2, THEN conjunct1, rule_format])
       (intro conjI, rule ph,
        simp_all add: example_header_def is_last_datagram_odd get_datagram_index_mod)
  note T3 = single_fragment_leaves_entries[of ?h ?s1 "[9]" "encode_header ?g @ [2]" 24 ?D
      "(7, 1)"]
  have dr: "drop 24 (encode_header ?g @ [2]) = [2 :: byte]"
    by (simp add: length_encode_header example_header_def)
  have rm: "partial_datagrams (process_datagram ?D ?s1 (encode_header ?g @ [2])) (7, 1) = None"
    unfolding process_datagram_tracker pg sum.case prod.case dr
    by (simp add: route_datagram_def get_complete_payload_def example_header_def
        is_last_datagram_odd get_datagram_index_mod extend_slots_eq)
  have d: "\<exists>g m. parse_header (encode_header ?g @ [2]) = Inr (g, m) \<and>
      is_last_datagram (datagram_counter g) \<and> get_datagram_index (datagram_counter g) \<noteq> 0 \<and>
      (7, 1) = (sample_counter g, character_id g)"
    by (rule T3[THEN conjunct2, THEN conjunct2, THEN conjunct2, rule_format])
       (intro conjI, simp, rule rm)
  show ?thesis using a b c d by (simp add: example_header_def)
qed

theorem entry_removed_by_later_final:
  "partial_datagrams ((start (init_receiver True 1000 :: unit receiver))
        \<lparr>partial_datagrams := [(7, 1) \<mapsto> [Some [1]]]\<rparr>) (7, 1) = Some [Some [1]] \<and>
   submit_all ((start (init_receiver True 1000 :: unit receiver))
        \<lparr>partial_datagrams := [(7, 1) \<mapsto> [Some [1]]]\<rparr>)
     [(example_header 7 1 128 1, [9]), (example_header 7 1 129 2, [2])] =
     ([Some (Inr [9]), Some (Inr [1, 2])], start (init_receiver True 1000)) \<and>
   partial_datagrams (start (init_receiver True 1000 :: unit receiver)) (7, 1) = None \<and>
   running (start (init_receiver True 1000 :: unit receiver))"
  by (simp add: route_datagram_def get_complete_payload_def example_header_def
      is_last_datagram_odd get_datagram_index_mod start_def init_receiver_def
      extend_slots_eq)

section \<open>The receive loop and stale entries\<close>

lemma receive_loop_timeouts: "receive_loop decode self (replicate n SocketTimeout) = self"
  by (induction n) simp_all

lemma first_fragment_stored:
  "partial_datagrams
     (process_datagram decode (start (init_receiver cb q))
        (encode_header (example_header 7 1 0 0) @ [1, 2])) =
   [(7, 1) \<mapsto> [Some [1, 2]]]"
proof -
  let ?h = "example_header 7 1 0 0"
  have wf: "wire_header ?h"
    by (simp add: wire_header_def example_header_def startswith_def)
  have ph: "parse_header (encode_header ?h @ [1, 2]) = Inr (?h, 24)"
    by (rule parse_header_encode[OF wf])
  have dr: "drop 24 (encode_header ?h @ [1, 2]) = [1, 2 :: byte]"
    by (simp add: length_encode_header example_header_def)
  show ?thesis
    unfolding process_datagram_tracker ph sum.case prod.case dr
    by (simp add: route_datagram_def handle_partial_datagram_def example_header_def
        is_last_datagram_odd get_datagram_index_mod extend_slots_eq start_def
        init_receiver_def)
qed

text \<open>
  C2 (the code at the failing input). The first fragment of a two-fragment message is
  received and its final fragment never arrives. However many iterations of the receive
  loop follow in which \<open>recvfrom\<close> times out (each lasts the socket timeout, one second
  by default), the tracker still holds the entry of that key: the loop never calls
  \<open>_cleanup_old_partial_datagrams\<close>.
\<close>

theorem lost_final_fragment_never_evicted:
  "partial_datagrams
     (receive_loop decode
        (process_datagram decode (start (init_receiver cb q))
           (encode_header (example_header 7 1 0 0) @ [1, 2]))
        (replicate n SocketTimeout)) (7, 1) = Some [Some [1, 2]]"
  unfolding receive_loop_timeouts first_fragment_stored by simp

theorem lost_final_fragment_never_evicted_witness:
  "partial_datagrams
     (receive_loop (\<lambda>t p h. Inr None)
        (process_datagram (\<lambda>t p h. Inr None) (start (init_receiver True 1000 :: unit receiver))
           (encode_header (example_header 7 1 0 0) @ [1, 2]))
        [SocketTimeout, SocketTimeout, SocketTimeout]) (7, 1) = Some [Some [1, 2]]"
  using lost_final_fragment_never_evicted[of "\<lambda>t p h. Inr None" True 1000 3]
  by (simp add: numeral_3_eq_3)

section \<open>Dispatch\<close>

text \<open>
  C6, as the code has it. For every successfully decoded message the loop calls the dispatch at
  once, and the dispatch delivers the pair (message-kind code, decoded payload); the
  header is not passed on. In callback mode the handler is called inline with exactly
  these two arguments and the queue is untouched; in queue mode the entry appended to the
  queue is that pair, after the oldest entry was dropped if the queue was full.
\<close>

theorem dispatch_delivers_kind_and_payload:
  "(callback self \<longrightarrow>
      handle_parsed_data self msg_type d header =
        self\<lparr>callback_calls := callback_calls self @ [[PyStr msg_type, PyData d]]\<rparr>) \<and>
   (\<not> callback self \<longrightarrow>
      handle_parsed_data self msg_type d header =
        self\<lparr>data_queue :=
          (if 0 < queue_size self \<and> queue_size self \<le> int (length (data_queue self))
           then tl (data_queue self) else data_queue self) @
          [[PyStr msg_type, PyData d]]\<rparr>) \<and>
   (parse_header data = Inr (h, n) \<and>
    route_datagram
      (self\<lparr>connected_characters := insert (character_id h) (connected_characters self),
             last_sample_counter := Some (sample_counter h)\<rparr>) h (drop n data) =
      (Some (Inr payload), self') \<and>
    parse_payload decode (drop (length (id_string h) - 2) (id_string h)) payload h =
      Inr (Some d) \<longrightarrow>
      process_datagram decode self data =
        handle_parsed_data self' (drop (length (id_string h) - 2) (id_string h)) d h)"
  by (simp add: handle_parsed_data_def process_datagram_def Let_def)

theorem dispatch_delivers_kind_and_payload_witness:
  "handle_parsed_data (start (init_receiver True 1000 :: nat receiver)) ''24'' 5
     (example_header 7 1 128 0) =
     (start (init_receiver True 1000))\<lparr>callback_calls := [[PyStr ''24'', PyData 5]]\<rparr> \<and>
   handle_parsed_data ((start (init_receiver False 1 :: nat receiver))
       \<lparr>data_queue := [[PyStr ''24'', PyData 4]]\<rparr>) ''24'' 5
     (example_header 7 1 128 0) =
     (start (init_receiver False 1))\<lparr>data_queue := [[PyStr ''24'', PyData 5]]\<rparr> \<and>
   callback_calls (process_datagram (\<lambda>t p h. Inr (Some 5))
       (start (init_receiver True 1000 :: nat receiver))
       (encode_header (example_header 7 1 128 0))) = [[PyStr ''02'', PyData 5]]"
proof -
  let ?h = "example_header 7 1 128 0"
  let ?c = "start (init_receiver True 1000 :: nat receiver)"
  let ?q = "(start (init_receiver False 1 :: nat receiver))
       \<lparr>data_queue := [[PyStr ''24'', PyData 4]]\<rparr>"
  note T1 = dispatch_delivers_kind_and_payload[of ?c "''24''" 5 ?h "[]" ?h 0 "[]" ?c
      "\<lambda>t p h. Inr None"]
  note T2 = dispatch_delivers_kind_and_payload[of ?q "''24''" 5 ?h "[]" ?h 0 "[]" ?q
      "\<lambda>t p h. Inr None"]
  have a: "handle_parsed_data ?c ''24'' 5 ?h =
        ?c\<lparr>callback_calls := callback_calls ?c @ [[PyStr ''24'', PyData 5]]\<rparr>"
    by (rule T1[THEN conjunct1, rule_format]) (simp add: start_def init_receiver_def)
  have b: "handle_parsed_data ?q ''24'' 5 ?h =
        ?q\<lparr>data_queue :=
          (if 0 < queue_size ?q \<and> queue_size ?q \<le> int (length (data_queue ?q))
           then tl (data_queue ?q) else data_queue ?q) @
          [[PyStr ''24'', PyData 5]]\<rparr>"
    by (rule T2[THEN conjunct2, THEN conjunct1, rule_format])
       (simp add: start_def init_receiver_def)
  let ?D = "(\<lambda>t p h. Inr (Some 5)) :: string \<Rightarrow> byte list \<Rightarrow> mvn_header \<Rightarrow> exn + nat option"
  let ?c2 = "?c\<lparr>connected_characters := insert (character_id ?h) (connected_characters ?c),
             last_sample_counter := Some (sample_counter ?h)\<rparr>"
  let ?data = "encode_header ?h"
  have wf: "wire_header ?h"
    by (simp add: wire_header_def example_header_def startswith_def)
  have ph: "parse_header ?data = Inr (?h, 24)"
    using parse_header_encode[OF wf, of "[]"] by simp
  have dr: "drop 24 ?data = []"
    by (simp add: length_encode_header example_header_def)
  have rt: "route_datagram ?c2 ?h (drop 24 ?data) = (Some (Inr []), ?c2)"
    unfolding dr
    by (simp add: route_datagram_def get_complete_payload_def example_header_def
        is_last_datagram_odd get_datagram_index_mod)
  have pp: "parse_payload ?D (drop (length (id_string ?h) - 2) (id_string ?h)) [] ?h =
      Inr (Some 5)"
    by (simp add: parse_payload_def example_header_def)
  note T3 = dispatch_delivers_kind_and_payload[of ?c "''24''" 5 ?h ?data ?h 24 "[]" ?c2 ?D]
  have c: "process_datagram ?D ?c ?data =
        handle_parsed_data ?c2 (drop (length (id_string ?h) - 2) (id_string ?h)) 5 ?h"
    by (rule T3[THEN conjunct2, THEN conjunct2, rule_format])
       (intro conjI, rule ph, rule rt, rule pp)
  have c': "callback_calls (process_datagram ?D ?c ?data) = [[PyStr ''02'', PyData 5]]"
    unfolding c
    by (simp add: handle_parsed_data_def example_header_def start_def init_receiver_def)
  show ?thesis
    unfolding a b using c' by (simp add: start_def init_receiver_def)
qed

theorem header_not_dispatched:
  "callback_calls (handle_parsed_data (start (init_receiver True 1000 :: nat receiver))
       ''24'' 5 (example_header 7 1 128 0)) = [[PyStr ''24'', PyData 5]] \<and>
   callback_calls (handle_parsed_data (start (init_receiver True 1000 :: nat receiver))
       ''24'' 5 (example_header 7 1 128 0)) \<noteq>
     [[PyStr ''24'', PyData 5, PyHeader (example_header 7 1 128 0)]] \<and>
   data_queue (handle_parsed_data (start (init_receiver False 1000 :: nat receiver))
       ''24'' 5 (example_header 7 1 128 0)) = [[PyStr ''24'', PyData 5]] \<and>
   data_queue (handle_parsed_data (start (init_receiver False 1000 :: nat receiver))
       ''24'' 5 (example_header 7 1 128 0)) \<noteq>
     [[PyStr ''24'', PyData 5, PyHeader (example_header 7 1 128 0)]]"
  by (simp add: handle_parsed_data_def start_def init_receiver_def)

section \<open>The time code decoder\<close>

lemma find_first:
  assumes "i < n" "P i" "\<forall>j<i. \<not> P j"
  shows "List.find P [0..<n] = Some i"
  unfolding find_Some_iff
  using assms by (intro exI[of _ i]) simp

lemma find_upt_Some:
  assumes "List.find P [0..<n] = Some i"
  shows "i < n \<and> P i \<and> (\<forall>j<i. \<not> P j)"
proof -
  from assms obtain k where k: "k < length [0..<n]" "P ([0..<n] ! k)" "i = [0..<n] ! k"
    "\<forall>j<k. \<not> P ([0..<n] ! j)"
    unfolding find_Some_iff by blast
  then have "i = k" "k < n" by simp_all
  with k show ?thesis by simp
qed

lemma find_time_code_Some:
  "find_time_code data = Some i \<longleftrightarrow>
     i + 8 \<le> length data \<and> matches_at data i \<and> (\<forall>j<i. \<not> matches_at data j)"
proof
  assume "find_time_code data = Some i"
  then have "i < length data - 7 \<and> matches_at data i \<and> (\<forall>j<i. \<not> matches_at data j)"
    unfolding find_time_code_def by (rule find_upt_Some)
  then show "i + 8 \<le> length data \<and> matches_at data i \<and> (\<forall>j<i. \<not> matches_at data j)"
    by auto
next
  assume a: "i + 8 \<le> length data \<and> matches_at data i \<and> (\<forall>j<i. \<not> matches_at data j)"
  then have "i < length data - 7" by auto
  with a show "find_time_code data = Some i"
    unfolding find_time_code_def by (intro find_first) auto
qed

lemma find_time_code_short: "length data < 8 \<Longrightarrow> find_time_code data = None"
proof -
  assume "length data < 8"
  then have "length data - 7 = 0" by simp
  then show ?thesis by (simp add: find_time_code_def)
qed

lemma no_match_in_padding:
  assumes "list_all (\<lambda>b. 128 \<le> b) pad" "j < length pad"
  shows "\<not> matches_at (pad @ s) j"
proof -
  have "j < length (take (j + 8) (pad @ s))" using assms(2) by simp
  then have "drop j (take (j + 8) (pad @ s)) =
        take (j + 8) (pad @ s) ! j # drop (Suc j) (take (j + 8) (pad @ s))"
    by (rule Cons_nth_drop_Suc[symmetric])
  moreover have "take (j + 8) (pad @ s) ! j = pad ! j"
    using assms(2) by (simp add: nth_append)
  ultimately have sl: "slice (pad @ s) j (j + 8) = pad ! j # drop (Suc j) (take (j + 8) (pad @ s))"
    by (simp add: slice_def)
  have "128 \<le> pad ! j" using assms by (simp add: list_all_length)
  then have "\<not> pad ! j < 128" by simp
  then show ?thesis
    unfolding matches_at_def sl by (simp add: decode_ascii_def)
qed

lemma match_after_padding:
  "matches_at (pad @ s) (length pad) = matches_at s 0"
  by (simp add: matches_at_def slice_def)

lemma parse_after_padding:
  assumes "list_all (\<lambda>b. 128 \<le> b) pad" "8 \<le> length s" "matches_at s 0"
  shows "parse_time_code (pad @ s) = parse_time_code s"
proof -
  have a: "find_time_code (pad @ s) = Some (length pad)"
    unfolding find_time_code_Some
    using assms no_match_in_padding[OF assms(1)] by (simp add: match_after_padding)
  have b: "find_time_code s = Some 0"
    unfolding find_time_code_Some using assms by simp
  show ?thesis
    by (simp add: parse_time_code_def parse_time_code_try_def a b)
qed

lemmas time_code_eval =
  parse_time_code_def parse_time_code_try_def find_time_code_def matches_at_def
  decode_ascii_def slice_def ascii_bytes_def is_digit_def try_time_str_def
  validate_time_code_def TIME_CODE_PATTERN_match_def strip_def is_space_def py_int_def
  after_last_dot_def TimeCode_new_def Let_def unat_of_nat char_of_eq_char char_eq_char_of

lemma upt_1: "[0..<1] = [0]" by simp
lemma upt_5: "[0..<5] = [0, 1, 2, 3, 4]" by (simp add: upt_rec)

lemma time_code_short:
  "parse_time_code (ascii_bytes ''12:34:56'') = Inr \<lparr>time_str = ''12:34:56.000''\<rparr>"
  by (simp add: time_code_eval)

lemma time_code_full:
  "parse_time_code (ascii_bytes ''12:34:56.789'') = Inr \<lparr>time_str = ''12:34:56.789''\<rparr>"
  by (simp add: time_code_eval upt_5)

lemma time_code_hour:
  "parse_time_code (ascii_bytes ''25:00:00'') =
     Inl (MVNParseError ''Could not parse time code from data: 32 35 3A 30 30 3A 30 30''
            (Some ''time code'') None)"
  by (simp add: time_code_eval hex_digit_def char_of_eq_char)

lemma time_code_mismatch:
  "parse_time_code (ascii_bytes ''12:34'') =
     Inl (MVNParseError ''Could not find valid time code pattern in data''
            (Some ''time code'') None)"
  by (simp add: parse_time_code_def parse_time_code_try_def find_time_code_short ascii_bytes_def)

lemma digit_not_space [simp]: "is_digit c \<Longrightarrow> \<not> is_space c"
  by (auto simp: is_digit_def is_space_def)

lemma colon_not_space [simp]: "\<not> is_space CHR '':''" "\<not> is_digit CHR '':''"
  "\<not> is_digit CHR ''.''" "is_space (CHR 0x0A)" "is_digit CHR ''0''"
  by (simp_all add: is_space_def is_digit_def)

lemma digit_not_dot [simp]: "is_digit c \<Longrightarrow> c \<noteq> CHR ''.''" "is_digit c \<Longrightarrow> CHR ''.'' \<noteq> c"
  by (auto simp: is_digit_def)

lemma strip_split: "\<exists>u. dropWhile is_space s = strip s @ u"
proof -
  let ?d = "dropWhile is_space s"
  have "rev ?d = takeWhile is_space (rev ?d) @ dropWhile is_space (rev ?d)" by simp
  then have "rev (rev ?d) = rev (takeWhile is_space (rev ?d) @ dropWhile is_space (rev ?d))"
    by simp
  then have "?d = rev (dropWhile is_space (rev ?d)) @ rev (takeWhile is_space (rev ?d))"
    by (simp only: rev_rev_ident rev_append)
  then show ?thesis unfolding strip_def by blast
qed

lemma strip_last: "strip s \<noteq> [] \<Longrightarrow> \<not> is_space (last (strip s))"
proof -
  assume a: "strip s \<noteq> []"
  let ?r = "dropWhile is_space (rev (dropWhile is_space s))"
  from a have ne: "?r \<noteq> []" by (simp add: strip_def)
  then have "\<not> is_space (hd ?r)" by (rule hd_dropWhile)
  moreover have "last (strip s) = hd ?r" using ne by (simp add: strip_def last_rev)
  ultimately show ?thesis by simp
qed

lemma strip_digits [simp]:
  "is_digit a \<Longrightarrow> is_digit b \<Longrightarrow> strip [a, b] = [a, b]"
  "is_digit a \<Longrightarrow> is_digit b \<Longrightarrow> is_digit c \<Longrightarrow> strip [a, b, c] = [a, b, c]"
  by (simp_all add: strip_def)

lemma pattern_shape:
  assumes "TIME_CODE_PATTERN_match t" "\<not> is_space (last t)"
  shows "(\<exists>h1 h2 m1 m2 s1 s2. t = [h1, h2, CHR '':'', m1, m2, CHR '':'', s1, s2] \<and>
            is_digit h1 \<and> is_digit h2 \<and> is_digit m1 \<and> is_digit m2 \<and>
            is_digit s1 \<and> is_digit s2) \<or>
         (\<exists>h1 h2 m1 m2 s1 s2 x y z.
            t = [h1, h2, CHR '':'', m1, m2, CHR '':'', s1, s2, CHR ''.'', x, y, z] \<and>
            is_digit h1 \<and> is_digit h2 \<and> is_digit m1 \<and> is_digit m2 \<and>
            is_digit s1 \<and> is_digit s2 \<and> is_digit x \<and> is_digit y \<and> is_digit z)"
proof -
  from assms(1) have m: "match_hms t" and e: "match_ms_end (drop 8 t)"
    by (simp_all add: TIME_CODE_PATTERN_match_def)
  from m obtain h1 h2 c1 m1 m2 c2 s1 s2 rest where
    t: "t = h1 # h2 # c1 # m1 # m2 # c2 # s1 # s2 # rest"
    by (rule match_hms.elims) auto
  from m t have d: "is_digit h1" "is_digit h2" "c1 = CHR '':''" "is_digit m1" "is_digit m2"
    "c2 = CHR '':''" "is_digit s1" "is_digit s2" by simp_all
  from e t have r: "match_ms_end rest" by simp
  from r show ?thesis
  proof (cases rest rule: match_ms_end.cases)
    case 1
    with t d show ?thesis by simp
  next
    case (2 n)
    with r assms(2) t show ?thesis by simp
  next
    case (3 dd x y z)
    with r t d show ?thesis by simp
  next
    case (4 dd x y z n)
    with r assms(2) t show ?thesis by simp
  qed (use r in simp_all)
qed

lemma validate_add_millis:
  assumes "is_digit h1" "is_digit h2" "is_digit m1" "is_digit m2" "is_digit s1" "is_digit s2"
    and "validate_time_code [h1, h2, CHR '':'', m1, m2, CHR '':'', s1, s2]"
  shows "validate_time_code
           [h1, h2, CHR '':'', m1, m2, CHR '':'', s1, s2, CHR ''.'', CHR ''0'', CHR ''0'', CHR ''0'']"
  using assms
  by (simp add: validate_time_code_def TIME_CODE_PATTERN_match_def slice_def py_int_def
      after_last_dot_def Let_def split: if_splits)

lemma normalized_result:
  assumes "match_hms s" "validate_time_code (strip s)"
  shows "length (time_str (TimeCode_new (strip s))) = 12 \<and>
         take 8 (time_str (TimeCode_new (strip s))) = take 8 s \<and>
         validate_time_code (time_str (TimeCode_new (strip s)))"
proof -
  from assms(1) obtain h1 h2 c1 m1 m2 c2 s1 s2 rest where
    s: "s = h1 # h2 # c1 # m1 # m2 # c2 # s1 # s2 # rest"
    by (rule match_hms.elims) auto
  with assms(1) have "is_digit h1" by simp
  then have "dropWhile is_space s = s" using s by simp
  with strip_split[of s] obtain u where u: "s = strip s @ u" by auto
  from assms(2) have p: "TIME_CODE_PATTERN_match (strip s)"
    by (simp add: validate_time_code_def split: if_splits)
  then have "match_hms (strip s)" by (simp add: TIME_CODE_PATTERN_match_def)
  then have "strip s \<noteq> []" by auto
  then have l: "\<not> is_space (last (strip s))" by (rule strip_last)
  from pattern_shape[OF p l] show ?thesis
  proof (elim disjE exE conjE)
    fix a b c d e f
    assume t: "strip s = [a, b, CHR '':'', c, d, CHR '':'', e, f]"
      and dg: "is_digit a" "is_digit b" "is_digit c" "is_digit d" "is_digit e" "is_digit f"
    have nd: "CHR ''.'' \<notin> set (strip s)" using t dg by auto
    have tc: "time_str (TimeCode_new (strip s)) =
        [a, b, CHR '':'', c, d, CHR '':'', e, f, CHR ''.'', CHR ''0'', CHR ''0'', CHR ''0'']"
      using nd by (simp add: TimeCode_new_def t)
    have t8: "take 8 s = strip s" by (subst u) (simp add: t)
    have v: "validate_time_code
        [a, b, CHR '':'', c, d, CHR '':'', e, f, CHR ''.'', CHR ''0'', CHR ''0'', CHR ''0'']"
      using validate_add_millis[OF dg] assms(2) t by simp
    show ?thesis unfolding tc t8 using v t by simp
  next
    fix a b c d e f x y z
    assume t: "strip s = [a, b, CHR '':'', c, d, CHR '':'', e, f, CHR ''.'', x, y, z]"
    have tc: "time_str (TimeCode_new (strip s)) = strip s"
      by (simp add: TimeCode_new_def t)
    have t8: "take 8 s = take 8 (strip s)" by (subst u) (simp add: t)
    show ?thesis unfolding tc t8 using assms(2) t by simp
  qed
qed

lemma match_hms_take: "match_hms (take 8 s) = match_hms s"
  by (cases s rule: match_hms.cases) simp_all

lemma try_time_str_Some:
  assumes "try_time_str bs n = Inr (Some tc)" "8 \<le> n" "matches_at bs 0"
  shows "length (time_str tc) = 12 \<and>
         take 8 (time_str tc) = map (\<lambda>b. char_of (unat b)) (take 8 bs) \<and>
         validate_time_code (time_str tc)"
proof -
  from assms(1) obtain s where s: "decode_ascii (take n bs) = Inr s"
    and v: "validate_time_code (strip s)" and tc: "tc = TimeCode_new (strip s)"
    by (auto simp: try_time_str_def split: sum.splits if_splits)
  from s have sm: "s = map (\<lambda>b. char_of (unat b)) (take n bs)"
    by (auto simp: decode_ascii_def split: if_splits)
  have t8: "take 8 s = map (\<lambda>b. char_of (unat b)) (take 8 bs)"
    using assms(2) by (simp add: sm take_map min_def)
  from assms(3) have "match_hms (map (\<lambda>b. char_of (unat b)) (take 8 bs))"
    by (auto simp: matches_at_def slice_def decode_ascii_def split: sum.splits if_splits)
  then have "match_hms s" using t8 match_hms_take[of s] by simp
  from normalized_result[OF this v] show ?thesis using tc t8 by simp
qed

lemma matches_at_drop: "matches_at (drop i data) 0 = matches_at data i"
proof -
  have "slice (drop i data) 0 8 = slice data i (i + 8)"
    by (simp add: slice_def take_drop add.commute)
  then show ?thesis by (simp add: matches_at_def)
qed

lemma parse_time_code_result:
  assumes "parse_time_code data = Inr tc"
  shows "\<exists>i. i + 8 \<le> length data \<and> matches_at data i \<and> (\<forall>j<i. \<not> matches_at data j) \<and>
           take 8 (time_str tc) = map (\<lambda>b. char_of (unat b)) (slice data i (i + 8)) \<and>
           length (time_str tc) = 12 \<and> validate_time_code (time_str tc)"
proof -
  from assms have r: "parse_time_code_try data = Inr tc"
    by (auto simp: parse_time_code_def split: sum.splits if_splits)
  then obtain i where i: "find_time_code data = Some i"
    by (cases "find_time_code data") (auto simp: parse_time_code_try_def)
  then have f: "i + 8 \<le> length data" "matches_at data i" "\<forall>j<i. \<not> matches_at data j"
    by (simp_all add: find_time_code_Some)
  let ?bs = "drop i data"
  have m0: "matches_at ?bs 0" using f(2) by (simp add: matches_at_drop)
  have "\<exists>n\<ge>8. try_time_str ?bs n = Inr (Some tc)"
  proof (cases "12 \<le> length ?bs \<and> try_time_str ?bs 12 \<noteq> Inr None")
    case True
    with r i have "try_time_str ?bs 12 = Inr (Some tc)"
      by (auto simp: parse_time_code_try_def Let_def split: sum.splits option.splits exn.splits)
    then show ?thesis by (intro exI[of _ 12]) simp
  next
    case False
    with r i have "try_time_str ?bs 8 = Inr (Some tc)"
      by (auto simp: parse_time_code_try_def Let_def
          split: sum.splits option.splits exn.splits if_splits)
    then show ?thesis by (intro exI[of _ 8]) simp
  qed
  then obtain n where n: "8 \<le> n" "try_time_str ?bs n = Inr (Some tc)" by blast
  have sl: "take 8 ?bs = slice data i (i + 8)"
    by (simp add: slice_def take_drop add.commute)
  from try_time_str_Some[OF n(2) n(1) m0] f show ?thesis
    by (intro exI[of _ i]) (simp add: sl)
qed

lemma find_time_code_None:
  "(\<forall>i. i + 8 \<le> length data \<longrightarrow> \<not> matches_at data i) \<Longrightarrow> find_time_code data = None"
  unfolding find_time_code_def find_None_iff by auto

lemma no_pattern_after_padding:
  assumes "list_all (\<lambda>b. 128 \<le> b) pad" "length s < 8"
  shows "parse_time_code (pad @ s) =
     Inl (MVNParseError ''Could not find valid time code pattern in data''
            (Some ''time code'') None)"
proof -
  have "find_time_code (pad @ s) = None"
  proof (rule find_time_code_None, intro allI impI)
    fix i assume "i + 8 \<le> length (pad @ s)"
    with assms(2) have "i < length pad" by simp
    then show "\<not> matches_at (pad @ s) i" by (rule no_match_in_padding[OF assms(1)])
  qed
  then show ?thesis by (simp add: parse_time_code_def parse_time_code_try_def)
qed

lemma example_matches:
  "matches_at (ascii_bytes ''12:34:56'') 0" "matches_at (ascii_bytes ''12:34:56.789'') 0"
  "matches_at (ascii_bytes ''25:00:00'') 0"
  by (simp_all add: matches_at_def decode_ascii_def slice_def ascii_bytes_def is_digit_def
      unat_of_nat char_of_eq_char)

text \<open>
  C7. When \<open>parse_time_code\<close> returns a time code, there is a first position of the
  payload at which eight ASCII bytes match two digits, colon, two digits, colon, two
  digits; the time code starts with these eight characters, has the twelve characters of
  \<open>HH:MM:SS.mmm\<close> and passes \<open>validate_time_code\<close> (pattern and ranges). After any
  leading padding of non-ASCII bytes, the text 12:34:56 yields 12:34:56.000 and the text
  12:34:56.789 yields 12:34:56.789, while the text 25:00:00 (hour out of range) and the
  text 12:34 (no match) fail with a parse error of data type "time code".
\<close>

theorem parse_time_code_locates_and_normalizes:
  "(parse_time_code data = Inr tc \<longrightarrow>
      (\<exists>i. i + 8 \<le> length data \<and> matches_at data i \<and> (\<forall>j<i. \<not> matches_at data j) \<and>
           take 8 (time_str tc) = map (\<lambda>b. char_of (unat b)) (slice data i (i + 8)) \<and>
           length (time_str tc) = 12 \<and> validate_time_code (time_str tc))) \<and>
   (list_all (\<lambda>b. 128 \<le> b) pad \<longrightarrow>
      parse_time_code (pad @ ascii_bytes ''12:34:56'') =
        Inr \<lparr>time_str = ''12:34:56.000''\<rparr> \<and>
      parse_time_code (pad @ ascii_bytes ''12:34:56.789'') =
        Inr \<lparr>time_str = ''12:34:56.789''\<rparr> \<and>
      parse_time_code (pad @ ascii_bytes ''25:00:00'') =
        Inl (MVNParseError ''Could not parse time code from data: 32 35 3A 30 30 3A 30 30''
               (Some ''time code'') None) \<and>
      parse_time_code (pad @ ascii_bytes ''12:34'') =
        Inl (MVNParseError ''Could not find valid time code pattern in data''
               (Some ''time code'') None))"
proof -
  have a: "parse_time_code data = Inr tc \<longrightarrow>
      (\<exists>i. i + 8 \<le> length data \<and> matches_at data i \<and> (\<forall>j<i. \<not> matches_at data j) \<and>
           take 8 (time_str tc) = map (\<lambda>b. char_of (unat b)) (slice data i (i + 8)) \<and>
           length (time_str tc) = 12 \<and> validate_time_code (time_str tc))"
    using parse_time_code_result[of data tc] by blast
  have b: "parse_time_code (pad @ ascii_bytes ''12:34:56'') =
        Inr \<lparr>time_str = ''12:34:56.000''\<rparr>" if "list_all (\<lambda>b. 128 \<le> b) pad"
    using parse_after_padding[OF that _ example_matches(1)] time_code_short
    by (simp add: ascii_bytes_def)
  have c: "parse_time_code (pad @ ascii_bytes ''12:34:56.789'') =
        Inr \<lparr>time_str = ''12:34:56.789''\<rparr>" if "list_all (\<lambda>b. 128 \<le> b) pad"
    using parse_after_padding[OF that _ example_matches(2)] time_code_full
    by (simp add: ascii_bytes_def)
  have d: "parse_time_code (pad @ ascii_bytes ''25:00:00'') =
        Inl (MVNParseError ''Could not parse time code from data: 32 35 3A 30 30 3A 30 30''
               (Some ''time code'') None)" if "list_all (\<lambda>b. 128 \<le> b) pad"
    using parse_after_padding[OF that _ example_matches(3)] time_code_hour
    by (simp add: ascii_bytes_def)
  have e: "parse_time_code (pad @ ascii_bytes ''12:34'') =
        Inl (MVNParseError ''Could not find valid time code pattern in data''
               (Some ''time code'') None)" if "list_all (\<lambda>b. 128 \<le> b) pad"
    using no_pattern_after_padding[OF that, of "ascii_bytes ''12:34''"]
    by (simp add: ascii_bytes_def)
  show ?thesis using a b c d e by blast
qed

theorem parse_time_code_locates_and_normalizes_witness:
  "parse_time_code ([0xFF, 0xFE] @ ascii_bytes ''12:34:56'') =
     Inr \<lparr>time_str = ''12:34:56.000''\<rparr> \<and>
   parse_time_code ([0xFF, 0xFE] @ ascii_bytes ''12:34:56.789'') =
     Inr \<lparr>time_str = ''12:34:56.789''\<rparr> \<and>
   parse_time_code ([0xFF, 0xFE] @ ascii_bytes ''25:00:00'') =
     Inl (MVNParseError ''Could not parse time code from data: 32 35 3A 30 30 3A 30 30''
            (Some ''time code'') None) \<and>
   parse_time_code ([0xFF, 0xFE] @ ascii_bytes ''12:34'') =
     Inl (MVNParseError ''Could not find valid time code pattern in data''
            (Some ''time code'') None) \<and>
   (\<exists>i. i + 8 \<le> length ([0xFF, 0xFE] @ ascii_bytes ''12:34:56'') \<and>
        matches_at ([0xFF, 0xFE] @ ascii_bytes ''12:34:56'') i \<and>
        (\<forall>j<i. \<not> matches_at ([0xFF, 0xFE] @ ascii_bytes ''12:34:56'') j) \<and>
        take 8 (time_str \<lparr>time_str = ''12:34:56.000''\<rparr>) =
          map (\<lambda>b. char_of (unat b))
            (slice ([0xFF, 0xFE] @ ascii_bytes ''12:34:56'') i (i + 8)) \<and>
        length (time_str \<lparr>time_str = ''12:34:56.000''\<rparr>) = 12 \<and>
        validate_time_code (time_str \<lparr>time_str = ''12:34:56.000''\<rparr>))"
proof -
  note T = parse_time_code_locates_and_normalizes[of
      "[0xFF, 0xFE] @ ascii_bytes ''12:34:56''" "\<lparr>time_str = ''12:34:56.000''\<rparr>"
      "[0xFF, 0xFE]"]
  have p: "list_all (\<lambda>b. 128 \<le> b) [0xFF, 0xFE :: byte]" by simp
  note B = T[THEN conjunct2, rule_format, OF p]
  note A = T[THEN conjunct1, rule_format, OF B[THEN conjunct1]]
  show ?thesis using A B by blast
qed

section \<open>The payload decoders\<close>

lemma for_records_ok:
  assumes "\<forall>k<n. \<exists>v. item (off + k * stride) =
             Inr (keyf (off + k * stride), v, off + k * stride + stride)"
  shows "\<exists>m. for_records item n off result = Inr m \<and>
             dom m = dom result \<union> {keyf (off + k * stride) | k. k < n}"
  using assms
proof (induction n arbitrary: off result)
  case 0
  then show ?case by simp
next
  case (Suc n)
  from Suc.prems[rule_format, of 0] obtain v where
    i0: "item off = Inr (keyf off, v, off + stride)" by auto
  have rest: "\<forall>k<n. \<exists>v. item (off + stride + k * stride) =
             Inr (keyf (off + stride + k * stride), v, off + stride + k * stride + stride)"
  proof (intro allI impI)
    fix k assume "k < n"
    then have "Suc k < Suc n" by simp
    from Suc.prems[rule_format, OF this]
    show "\<exists>v. item (off + stride + k * stride) =
             Inr (keyf (off + stride + k * stride), v, off + stride + k * stride + stride)"
      by (simp add: add.assoc add.commute)
  qed
  from Suc.IH[OF rest, of "result(keyf off \<mapsto> v)"] obtain m where
    m: "for_records item n (off + stride) (result(keyf off \<mapsto> v)) = Inr m"
    "dom m = dom (result(keyf off \<mapsto> v)) \<union> {keyf (off + stride + k * stride) | k. k < n}"
    by blast
  have s: "{keyf (off + k * stride) | k. k < Suc n} =
        insert (keyf off) {keyf (off + stride + k * stride) | k. k < n}"
  proof (intro set_eqI iffI)
    fix x assume "x \<in> {keyf (off + k * stride) | k. k < Suc n}"
    then obtain k where k: "k < Suc n" "x = keyf (off + k * stride)" by blast
    show "x \<in> insert (keyf off) {keyf (off + stride + k * stride) | k. k < n}"
    proof (cases k)
      case 0
      with k show ?thesis by simp
    next
      case (Suc j)
      with k have "j < n" "x = keyf (off + stride + j * stride)"
        by (simp_all add: add.assoc)
      then show ?thesis by blast
    qed
  next
    fix x assume "x \<in> insert (keyf off) {keyf (off + stride + k * stride) | k. k < n}"
    then consider "x = keyf off" | k where "k < n" "x = keyf (off + stride + k * stride)"
      by blast
    then show "x \<in> {keyf (off + k * stride) | k. k < Suc n}"
    proof cases
      case 1
      then have "x = keyf (off + 0 * stride)" by simp
      then show ?thesis by blast
    next
      case 2
      then have "Suc k < Suc n" "x = keyf (off + Suc k * stride)" by (simp_all add: add.assoc)
      then show ?thesis by blast
    qed
  qed
  show ?case
    using i0 m by (simp add: s)
qed

lemma for_records_fail:
  assumes "j < n"
    and "\<forall>i<j. \<exists>key v. item (off + i * stride) = Inr (key, v, off + i * stride + stride)"
    and "item (off + j * stride) = Inl e"
  shows "for_records item n off result = Inl e"
  using assms
proof (induction j arbitrary: n off result)
  case 0
  then obtain n' where "n = Suc n'" by (cases n) auto
  with 0 show ?case by simp
next
  case (Suc j)
  then obtain n' where n: "n = Suc n'" "j < n'" by (cases n) auto
  from Suc.prems(2)[rule_format, of 0] obtain key v where
    i0: "item off = Inr (key, v, off + stride)" by auto
  have rest: "\<forall>i<j. \<exists>key v. item (off + stride + i * stride) =
      Inr (key, v, off + stride + i * stride + stride)"
  proof (intro allI impI)
    fix i assume "i < j"
    then have "Suc i < Suc j" by simp
    from Suc.prems(2)[rule_format, OF this]
    show "\<exists>key v. item (off + stride + i * stride) =
      Inr (key, v, off + stride + i * stride + stride)"
      by (simp add: add.assoc add.commute)
  qed
  have last: "item (off + stride + j * stride) = Inl e"
    using Suc.prems(3) by (simp add: add.assoc add.commute)
  have ih: "for_records item n' (off + stride) (result(key \<mapsto> v)) = Inl e"
    by (rule Suc.IH[OF n(2) rest last])
  show ?case unfolding n(1) by (simp add: i0 ih)
qed

lemma for_records_steps:
  assumes "for_records item n off result = Inr m"
    and "\<forall>o' key v o''. item o' = Inr (key, v, o'') \<longrightarrow> o'' = o' + stride \<and> key = keyf o'"
  shows "\<forall>k<n. \<exists>v. item (off + k * stride) =
           Inr (keyf (off + k * stride), v, off + k * stride + stride)"
  using assms(1)
proof (induction n arbitrary: off result)
  case 0
  then show ?case by simp
next
  case (Suc n)
  from Suc.prems obtain key v o'' where i0: "item off = Inr (key, v, o'')"
    and r: "for_records item n o'' (result(key \<mapsto> v)) = Inr m"
    by (auto split: sum.splits)
  from assms(2) i0 have e: "o'' = off + stride" "key = keyf off" by blast+
  from Suc.IH[OF r[unfolded e(1)]] have ih:
    "\<forall>k<n. \<exists>v. item (off + stride + k * stride) =
           Inr (keyf (off + stride + k * stride), v, off + stride + k * stride + stride)" .
  show ?case
  proof (intro allI impI)
    fix k assume k: "k < Suc n"
    show "\<exists>v. item (off + k * stride) =
           Inr (keyf (off + k * stride), v, off + k * stride + stride)"
    proof (cases k)
      case 0
      with i0 e show ?thesis by simp
    next
      case (Suc j)
      with k have "j < n" by simp
      from ih[rule_format, OF this] Suc show ?thesis by (simp add: add.assoc add.commute)
    qed
  qed
qed

lemma for_records_keys:
  assumes "for_records item n 0 Map.empty = Inr m"
    and "\<forall>o' key v o''. item o' = Inr (key, v, o'') \<longrightarrow> o'' = o' + stride \<and> key = keyf o'"
  shows "dom m = {keyf (k * stride) | k. k < n} \<and>
         (\<forall>k<n. \<exists>v. item (k * stride) = Inr (keyf (k * stride), v, k * stride + stride))"
proof -
  from for_records_steps[OF assms] have st:
    "\<forall>k<n. \<exists>v. item (0 + k * stride) =
           Inr (keyf (0 + k * stride), v, 0 + k * stride + stride)" .
  from for_records_ok[OF st, of Map.empty] assms(1) st show ?thesis by simp
qed

lemma length_slice [simp]: "b \<le> length data \<Longrightarrow> length (slice data a b) = b - a"
  by (simp add: slice_def)

lemma length_tables [simp]:
  "length SEGMENT_NAME_LIST = 67" "length UNITY3D_SEGMENT_NAME_LIST = 23"
  "length LEFT_FINGER_SEGMENT_LIST = 20" "length RIGHT_FINGER_SEGMENT_LIST = 20"
  by (simp_all add: SEGMENT_NAME_LIST_def UNITY3D_SEGMENT_NAME_LIST_def
      LEFT_FINGER_SEGMENT_LIST_def RIGHT_FINGER_SEGMENT_LIST_def)

lemma segment_names_None: "SEGMENT_NAMES k = None \<longleftrightarrow> 67 \<le> k"
  by (auto simp: SEGMENT_NAMES_def)

lemma segment_names_Some: "k < 67 \<Longrightarrow> SEGMENT_NAMES k = Some (SEGMENT_NAME_LIST ! k)"
  by (simp add: SEGMENT_NAMES_def)

lemma unity_names_None: "UNITY3D_SEGMENT_NAMES k = None \<longleftrightarrow> 23 \<le> k"
  by (auto simp: UNITY3D_SEGMENT_NAMES_def)

lemma unity_names_Some:
  "k < 23 \<Longrightarrow> UNITY3D_SEGMENT_NAMES k = Some (UNITY3D_SEGMENT_NAME_LIST ! k)"
  by (simp add: UNITY3D_SEGMENT_NAMES_def)

lemma finger_in_table: "is_finger_segment k \<Longrightarrow> k < 67"
  by (auto simp: is_finger_segment_def)

lemma pose_valid: "(SEGMENT_NAMES k = None \<and> \<not> is_finger_segment k) \<longleftrightarrow> 67 \<le> k"
  using finger_in_table[of k] by (auto simp: segment_names_None)

lemma pose_segment_name_table: "k < 67 \<Longrightarrow> pose_segment_name k = Inr (SEGMENT_NAME_LIST ! k)"
  by (simp add: pose_segment_name_def segment_names_Some)

lemmas item_simps =
  bind_exn_def validate_data_length_def struct_in_def unpack_uint_def parse_position_def
  parse_quaternion_def parse_euler_def unpack_fff_def unpack_ffff_def Let_def lookup_def

lemma pose_euler_item_short:
  "\<not> offset + 28 \<le> length data \<Longrightarrow> \<exists>m d p. pose_euler_item data offset = Inl (MVNParseError m d p)"
  by (simp add: pose_euler_item_def item_simps)

lemma pose_euler_item_bad:
  assumes "offset + 28 \<le> length data" "67 \<le> be_nat (slice data offset (offset + 4))"
  shows "pose_euler_item data offset =
     Inl (MVNSegmentError ''Invalid segment ID'' (Some (be_nat (slice data offset (offset + 4)))))"
  using assms by (simp add: pose_euler_item_def item_simps pose_valid)

lemma pose_euler_item_good:
  assumes "offset + 28 \<le> length data" "be_nat (slice data offset (offset + 4)) < 67"
  shows "\<exists>v. pose_euler_item data offset =
     Inr (KeyStr (SEGMENT_NAME_LIST ! be_nat (slice data offset (offset + 4))), v, offset + 28)"
  using assms
  by (simp add: pose_euler_item_def item_simps pose_valid pose_segment_name_table)

lemma decoder_fails:
  assumes good: "\<forall>off. off + stride \<le> length data \<and> ok (idat off) \<longrightarrow>
                   (\<exists>key v. item off = Inr (key, v, off + stride))"
    and bad: "\<forall>off. off + stride \<le> length data \<and> \<not> ok (idat off) \<longrightarrow>
                   item off = Inl (err (idat off))"
    and k: "k < n" "(k + 1) * stride \<le> length (data :: byte list)" "\<not> ok (idat (k * stride))"
  shows "\<exists>j\<le>k. for_records item n 0 Map.empty = Inl (err (idat (j * stride))) \<and>
               \<not> ok (idat (j * stride)) \<and> (\<forall>i<j. ok (idat (i * stride)))"
proof -
  define j where "j = (LEAST j. \<not> ok (idat (j * stride)))"
  have jbad: "\<not> ok (idat (j * stride))"
    unfolding j_def using k(3) by (rule LeastI)
  have jle: "j \<le> k" unfolding j_def using k(3) by (rule Least_le)
  have before: "\<forall>i<j. ok (idat (i * stride))"
    unfolding j_def using not_less_Least by blast
  have fits: "i * stride + stride \<le> length data" if "i \<le> k" for i
  proof -
    have "i * stride \<le> k * stride" using that by (rule mult_le_mono1)
    then have "i * stride + stride \<le> k * stride + stride" by simp
    also have "\<dots> = (k + 1) * stride" by simp
    finally show ?thesis using k(2) by (rule order_trans)
  qed
  have steps: "\<forall>i<j. \<exists>key v. item (0 + i * stride) = Inr (key, v, 0 + i * stride + stride)"
  proof (intro allI impI)
    fix i assume "i < j"
    then have "i \<le> k" "ok (idat (i * stride))" using jle before by simp_all
    with good fits[of i] show "\<exists>key v. item (0 + i * stride) = Inr (key, v, 0 + i * stride + stride)"
      by simp
  qed
  have fail: "item (0 + j * stride) = Inl (err (idat (j * stride)))"
    using bad fits[OF jle] jbad by simp
  have "j < n" using jle k(1) by simp
  from for_records_fail[OF this steps fail] jle jbad before show ?thesis by blast
qed

lemma decoder_keys:
  assumes short: "\<forall>off. \<not> off + stride \<le> length data \<longrightarrow> (\<exists>e. item off = Inl e)"
    and bad: "\<forall>off. off + stride \<le> length data \<and> \<not> ok (idat off) \<longrightarrow>
                   (\<exists>e. item off = Inl e)"
    and good: "\<forall>off. off + stride \<le> length data \<and> ok (idat off) \<longrightarrow>
                   (\<exists>v. item off = Inr (keyf (idat off), v, off + stride))"
    and res: "for_records item n 0 Map.empty = Inr m"
  shows "dom m = {keyf (idat (k * stride)) | k. k < n} \<and>
         (\<forall>k<n. ok (idat (k * stride)) \<and> k * stride + stride \<le> length (data :: byte list))"
proof -
  have item_Inr: "o'' = o' + stride \<and> key = keyf (idat o') \<and> ok (idat o') \<and>
      o' + stride \<le> length data" if "item o' = Inr (key, v, o'')" for o' key v o''
  proof -
    have a: "o' + stride \<le> length data" using short that by (metis Inl_Inr_False)
    have b: "ok (idat o')" using bad a that by (metis Inl_Inr_False)
    from good a b obtain v' where "item o' = Inr (keyf (idat o'), v', o' + stride)" by blast
    with that a b show ?thesis by simp
  qed
  then have st: "\<forall>o' key v o''. item o' = Inr (key, v, o'') \<longrightarrow>
      o'' = o' + stride \<and> key = (\<lambda>off. keyf (idat off)) o'"
    by blast
  from for_records_keys[OF res st] have
    d: "dom m = {keyf (idat (k * stride)) | k. k < n}"
    and s: "\<forall>k<n. \<exists>v. item (k * stride) = Inr (keyf (idat (k * stride)), v, k * stride + stride)"
    by simp_all
  have "\<forall>k<n. ok (idat (k * stride)) \<and> k * stride + stride \<le> length data"
    using s item_Inr by blast
  with d show ?thesis by simp
qed

lemma decoder_ok:
  assumes good: "\<forall>off. off + stride \<le> length data \<longrightarrow>
                   (\<exists>v. item off = Inr (keyf (idat off), v, off + stride))"
    and fits: "n * stride \<le> length (data :: byte list)"
  shows "\<exists>m. for_records item n 0 Map.empty = Inr m \<and>
             dom m = {keyf (idat (k * stride)) | k. k < n}"
proof -
  have "\<forall>k<n. \<exists>v. item (0 + k * stride) =
      Inr ((\<lambda>off. keyf (idat off)) (0 + k * stride), v, 0 + k * stride + stride)"
  proof (intro allI impI)
    fix k assume "k < n"
    then have "Suc k \<le> n" by simp
    then have "Suc k * stride \<le> n * stride" by (rule mult_le_mono1)
    then have "k * stride + stride \<le> length data" using fits by simp
    with good show "\<exists>v. item (0 + k * stride) =
      Inr ((\<lambda>off. keyf (idat off)) (0 + k * stride), v, 0 + k * stride + stride)"
      by simp
  qed
  from for_records_ok[OF this, of Map.empty] show ?thesis by simp
qed

lemma pose_quaternion_item_short:
  "\<not> offset + 32 \<le> length data \<Longrightarrow> \<exists>e. pose_quaternion_item data offset = Inl e"
  by (simp add: pose_quaternion_item_def item_simps)

lemma pose_quaternion_item_bad:
  assumes "offset + 32 \<le> length data" "67 \<le> be_nat (slice data offset (offset + 4))"
  shows "pose_quaternion_item data offset =
     Inl (MVNSegmentError ''Invalid segment ID'' (Some (be_nat (slice data offset (offset + 4)))))"
  using assms by (simp add: pose_quaternion_item_def item_simps pose_valid)

lemma pose_quaternion_item_good:
  assumes "offset + 32 \<le> length data" "be_nat (slice data offset (offset + 4)) < 67"
  shows "\<exists>v. pose_quaternion_item data offset =
     Inr (KeyStr (SEGMENT_NAME_LIST ! be_nat (slice data offset (offset + 4))), v, offset + 32)"
  using assms
  by (simp add: pose_quaternion_item_def item_simps pose_valid pose_segment_name_table)

lemma point_data_item_short:
  "\<not> offset + 16 \<le> length data \<Longrightarrow> \<exists>e. point_data_item data offset = Inl e"
  by (simp add: point_data_item_def item_simps)

lemma point_data_item_good:
  assumes "offset + 16 \<le> length data"
  shows "\<exists>v. point_data_item data offset =
     Inr (KeyInt (be_nat (slice data offset (offset + 4))), v, offset + 16)"
  using assms by (simp add: point_data_item_def item_simps)

lemma unity3d_item_short:
  "\<not> offset + 32 \<le> length data \<Longrightarrow> \<exists>e. unity3d_item data offset = Inl e"
  by (simp add: unity3d_item_def item_simps)

lemma unity3d_item_bad:
  assumes "offset + 32 \<le> length data" "23 \<le> be_nat (slice data offset (offset + 4))"
  shows "unity3d_item data offset =
     Inl (MVNSegmentError ''Invalid Unity3D segment ID''
            (Some (be_nat (slice data offset (offset + 4)))))"
  using assms by (simp add: unity3d_item_def item_simps unity_names_None)

lemma unity3d_item_good:
  assumes "offset + 32 \<le> length data" "be_nat (slice data offset (offset + 4)) < 23"
  shows "\<exists>v. unity3d_item data offset =
     Inr (KeyStr (UNITY3D_SEGMENT_NAME_LIST ! be_nat (slice data offset (offset + 4))), v,
          offset + 32)"
  using assms
  by (simp add: unity3d_item_def item_simps unity_names_None unity_names_Some)

lemma linear_kinematics_item_short:
  "\<not> offset + 40 \<le> length data \<Longrightarrow> \<exists>e. linear_kinematics_item data offset = Inl e"
  by (simp add: linear_kinematics_item_def item_simps)

lemma linear_kinematics_item_bad:
  assumes "offset + 40 \<le> length data" "67 \<le> be_nat (slice data offset (offset + 4))"
  shows "linear_kinematics_item data offset =
     Inl (MVNSegmentError ''Invalid segment ID'' (Some (be_nat (slice data offset (offset + 4)))))"
  using assms by (simp add: linear_kinematics_item_def item_simps segment_names_None)

lemma linear_kinematics_item_good:
  assumes "offset + 40 \<le> length data" "be_nat (slice data offset (offset + 4)) < 67"
  shows "\<exists>v. linear_kinematics_item data offset =
     Inr (KeyStr (SEGMENT_NAME_LIST ! be_nat (slice data offset (offset + 4))), v, offset + 40)"
  using assms
  by (simp add: linear_kinematics_item_def item_simps segment_names_None segment_names_Some)

lemma angular_kinematics_item_short:
  "\<not> offset + 44 \<le> length data \<Longrightarrow> \<exists>e. angular_kinematics_item data offset = Inl e"
  by (simp add: angular_kinematics_item_def item_simps)

lemma angular_kinematics_item_bad:
  assumes "offset + 44 \<le> length data" "67 \<le> be_nat (slice data offset (offset + 4))"
  shows "angular_kinematics_item data offset =
     Inl (MVNSegmentError ''Invalid segment ID'' (Some (be_nat (slice data offset (offset + 4)))))"
  using assms by (simp add: angular_kinematics_item_def item_simps segment_names_None)

lemma angular_kinematics_item_good:
  assumes "offset + 44 \<le> length data" "be_nat (slice data offset (offset + 4)) < 67"
  shows "\<exists>v. angular_kinematics_item data offset =
     Inr (KeyStr (SEGMENT_NAME_LIST ! be_nat (slice data offset (offset + 4))), v, offset + 44)"
  using assms
  by (simp add: angular_kinematics_item_def item_simps segment_names_None segment_names_Some)

lemma tracker_kinematics_item_short:
  "\<not> offset + 44 \<le> length data \<Longrightarrow> \<exists>e. tracker_kinematics_item data offset = Inl e"
  by (simp add: tracker_kinematics_item_def item_simps)

lemma tracker_kinematics_item_good:
  assumes "offset + 44 \<le> length data"
  shows "\<exists>v. tracker_kinematics_item data offset =
     Inr (KeyStr (tracker_segment_name (be_nat (slice data offset (offset + 4)))), v,
          offset + 44)"
  using assms by (simp add: tracker_kinematics_item_def item_simps)

lemma parse_pose_euler_fails:
  assumes "k < n" "(k + 1) * 28 \<le> length data" "67 \<le> record_id 28 data k"
  shows "\<exists>j\<le>k. parse_pose_euler data n =
             Inl (MVNSegmentError ''Invalid segment ID'' (Some (record_id 28 data j))) \<and>
           67 \<le> record_id 28 data j \<and> (\<forall>i<j. record_id 28 data i < 67)"
proof -
  have good: "\<forall>off. off + 28 \<le> length data \<and> be_nat (slice data off (off + 4)) < 67 \<longrightarrow>
      (\<exists>key v. pose_euler_item data off = Inr (key, v, off + 28))"
    using pose_euler_item_good by blast
  have bad: "\<forall>off. off + 28 \<le> length data \<and> \<not> be_nat (slice data off (off + 4)) < 67 \<longrightarrow>
      pose_euler_item data off =
        Inl (MVNSegmentError ''Invalid segment ID'' (Some (be_nat (slice data off (off + 4)))))"
    using pose_euler_item_bad by (simp add: not_less)
  have k3: "\<not> be_nat (slice data (k * 28) (k * 28 + 4)) < 67"
    using assms(3) by (simp add: record_id_def)
  from decoder_fails[where ok = "\<lambda>i. i < 67"
          and idat = "\<lambda>off. be_nat (slice data off (off + 4))"
          and err = "\<lambda>i. MVNSegmentError ''Invalid segment ID'' (Some i)",
          OF good bad assms(1,2) k3]
  show ?thesis by (simp add: parse_pose_euler_def record_id_def not_less)
qed

lemma parse_pose_quaternion_fails:
  assumes "k < n" "(k + 1) * 32 \<le> length data" "67 \<le> record_id 32 data k"
  shows "\<exists>j\<le>k. parse_pose_quaternion data n =
             Inl (MVNSegmentError ''Invalid segment ID'' (Some (record_id 32 data j))) \<and>
           67 \<le> record_id 32 data j \<and> (\<forall>i<j. record_id 32 data i < 67)"
proof -
  have good: "\<forall>off. off + 32 \<le> length data \<and> be_nat (slice data off (off + 4)) < 67 \<longrightarrow>
      (\<exists>key v. pose_quaternion_item data off = Inr (key, v, off + 32))"
    using pose_quaternion_item_good by blast
  have bad: "\<forall>off. off + 32 \<le> length data \<and> \<not> be_nat (slice data off (off + 4)) < 67 \<longrightarrow>
      pose_quaternion_item data off =
        Inl (MVNSegmentError ''Invalid segment ID'' (Some (be_nat (slice data off (off + 4)))))"
    using pose_quaternion_item_bad by (simp add: not_less)
  have k3: "\<not> be_nat (slice data (k * 32) (k * 32 + 4)) < 67"
    using assms(3) by (simp add: record_id_def)
  from decoder_fails[where ok = "\<lambda>i. i < 67"
          and idat = "\<lambda>off. be_nat (slice data off (off + 4))"
          and err = "\<lambda>i. MVNSegmentError ''Invalid segment ID'' (Some i)",
          OF good bad assms(1,2) k3]
  show ?thesis by (simp add: parse_pose_quaternion_def record_id_def not_less)
qed

lemma parse_unity3d_data_fails:
  assumes "k < n" "(k + 1) * 32 \<le> length data" "23 \<le> record_id 32 data k"
  shows "\<exists>j\<le>k. parse_unity3d_data data n =
             Inl (MVNSegmentError ''Invalid Unity3D segment ID'' (Some (record_id 32 data j))) \<and>
           23 \<le> record_id 32 data j \<and> (\<forall>i<j. record_id 32 data i < 23)"
proof -
  have good: "\<forall>off. off + 32 \<le> length data \<and> be_nat (slice data off (off + 4)) < 23 \<longrightarrow>
      (\<exists>key v. unity3d_item data off = Inr (key, v, off + 32))"
    using unity3d_item_good by blast
  have bad: "\<forall>off. off + 32 \<le> length data \<and> \<not> be_nat (slice data off (off + 4)) < 23 \<longrightarrow>
      unity3d_item data off =
        Inl (MVNSegmentError ''Invalid Unity3D segment ID'' (Some (be_nat (slice data off (off + 4)))))"
    using unity3d_item_bad by (simp add: not_less)
  have k3: "\<not> be_nat (slice data (k * 32) (k * 32 + 4)) < 23"
    using assms(3) by (simp add: record_id_def)
  from decoder_fails[where ok = "\<lambda>i. i < 23"
          and idat = "\<lambda>off. be_nat (slice data off (off + 4))"
          and err = "\<lambda>i. MVNSegmentError ''Invalid Unity3D segment ID'' (Some i)",
          OF good bad assms(1,2) k3]
  show ?thesis by (simp add: parse_unity3d_data_def record_id_def not_less)
qed

lemma parse_linear_kinematics_fails:
  assumes "k < n" "(k + 1) * 40 \<le> length data" "67 \<le> record_id 40 data k"
  shows "\<exists>j\<le>k. parse_linear_kinematics data n =
             Inl (MVNSegmentError ''Invalid segment ID'' (Some (record_id 40 data j))) \<and>
           67 \<le> record_id 40 data j \<and> (\<forall>i<j. record_id 40 data i < 67)"
proof -
  have good: "\<forall>off. off + 40 \<le> length data \<and> be_nat (slice data off (off + 4)) < 67 \<longrightarrow>
      (\<exists>key v. linear_kinematics_item data off = Inr (key, v, off + 40))"
    using linear_kinematics_item_good by blast
  have bad: "\<forall>off. off + 40 \<le> length data \<and> \<not> be_nat (slice data off (off + 4)) < 67 \<longrightarrow>
      linear_kinematics_item data off =
        Inl (MVNSegmentError ''Invalid segment ID'' (Some (be_nat (slice data off (off + 4)))))"
    using linear_kinematics_item_bad by (simp add: not_less)
  have k3: "\<not> be_nat (slice data (k * 40) (k * 40 + 4)) < 67"
    using assms(3) by (simp add: record_id_def)
  from decoder_fails[where ok = "\<lambda>i. i < 67"
          and idat = "\<lambda>off. be_nat (slice data off (off + 4))"
          and err = "\<lambda>i. MVNSegmentError ''Invalid segment ID'' (Some i)",
          OF good bad assms(1,2) k3]
  show ?thesis by (simp add: parse_linear_kinematics_def record_id_def not_less)
qed

lemma parse_angular_kinematics_fails:
  assumes "k < n" "(k + 1) * 44 \<le> length data" "67 \<le> record_id 44 data k"
  shows "\<exists>j\<le>k. parse_angular_kinematics data n =
             Inl (MVNSegmentError ''Invalid segment ID'' (Some (record_id 44 data j))) \<and>
           67 \<le> record_id 44 data j \<and> (\<forall>i<j. record_id 44 data i < 67)"
proof -
  have good: "\<forall>off. off + 44 \<le> length data \<and> be_nat (slice data off (off + 4)) < 67 \<longrightarrow>
      (\<exists>key v. angular_kinematics_item data off = Inr (key, v, off + 44))"
    using angular_kinematics_item_good by blast
  have bad: "\<forall>off. off + 44 \<le> length data \<and> \<not> be_nat (slice data off (off + 4)) < 67 \<longrightarrow>
      angular_kinematics_item data off =
        Inl (MVNSegmentError ''Invalid segment ID'' (Some (be_nat (slice data off (off + 4)))))"
    using angular_kinematics_item_bad by (simp add: not_less)
  have k3: "\<not> be_nat (slice data (k * 44) (k * 44 + 4)) < 67"
    using assms(3) by (simp add: record_id_def)
  from decoder_fails[where ok = "\<lambda>i. i < 67"
          and idat = "\<lambda>off. be_nat (slice data off (off + 4))"
          and err = "\<lambda>i. MVNSegmentError ''Invalid segment ID'' (Some i)",
          OF good bad assms(1,2) k3]
  show ?thesis by (simp add: parse_angular_kinematics_def record_id_def not_less)
qed

lemma parse_pose_euler_keys:
  assumes "parse_pose_euler data n = Inr m"
  shows "dom m = {(\<lambda>i. KeyStr (SEGMENT_NAME_LIST ! i)) (record_id 28 data k) | k. k < n} \<and>
         (\<forall>k<n. record_id 28 data k < 67 \<and> k * 28 + 28 \<le> length data)"
proof -
  have short: "\<forall>off. \<not> off + 28 \<le> length data \<longrightarrow> (\<exists>e. pose_euler_item data off = Inl e)"
    using pose_euler_item_short by blast
  have bad: "\<forall>off. off + 28 \<le> length data \<and> \<not> be_nat (slice data off (off + 4)) < 67 \<longrightarrow>
      (\<exists>e. pose_euler_item data off = Inl e)"
    using pose_euler_item_bad by (simp add: not_less)
  have good: "\<forall>off. off + 28 \<le> length data \<and> be_nat (slice data off (off + 4)) < 67 \<longrightarrow>
      (\<exists>v. pose_euler_item data off =
         Inr ((\<lambda>i. KeyStr (SEGMENT_NAME_LIST ! i)) (be_nat (slice data off (off + 4))), v, off + 28))"
    using pose_euler_item_good by blast
  from assms have res: "for_records (pose_euler_item data) n 0 Map.empty = Inr m"
    by (simp add: parse_pose_euler_def)
  from decoder_keys[where ok = "\<lambda>i. i < 67"
          and idat = "\<lambda>off. be_nat (slice data off (off + 4))"
          and keyf = "\<lambda>i. (\<lambda>i. KeyStr (SEGMENT_NAME_LIST ! i)) i", OF short bad good res]
  show ?thesis by (simp add: record_id_def)
qed

lemma parse_pose_quaternion_keys:
  assumes "parse_pose_quaternion data n = Inr m"
  shows "dom m = {(\<lambda>i. KeyStr (SEGMENT_NAME_LIST ! i)) (record_id 32 data k) | k. k < n} \<and>
         (\<forall>k<n. record_id 32 data k < 67 \<and> k * 32 + 32 \<le> length data)"
proof -
  have short: "\<forall>off. \<not> off + 32 \<le> length data \<longrightarrow> (\<exists>e. pose_quaternion_item data off = Inl e)"
    using pose_quaternion_item_short by blast
  have bad: "\<forall>off. off + 32 \<le> length data \<and> \<not> be_nat (slice data off (off + 4)) < 67 \<longrightarrow>
      (\<exists>e. pose_quaternion_item data off = Inl e)"
    using pose_quaternion_item_bad by (simp add: not_less)
  have good: "\<forall>off. off + 32 \<le> length data \<and> be_nat (slice data off (off + 4)) < 67 \<longrightarrow>
      (\<exists>v. pose_quaternion_item data off =
         Inr ((\<lambda>i. KeyStr (SEGMENT_NAME_LIST ! i)) (be_nat (slice data off (off + 4))), v, off + 32))"
    using pose_quaternion_item_good by blast
  from assms have res: "for_records (pose_quaternion_item data) n 0 Map.empty = Inr m"
    by (simp add: parse_pose_quaternion_def)
  from decoder_keys[where ok = "\<lambda>i. i < 67"
          and idat = "\<lambda>off. be_nat (slice data off (off + 4))"
          and keyf = "\<lambda>i. (\<lambda>i. KeyStr (SEGMENT_NAME_LIST ! i)) i", OF short bad good res]
  show ?thesis by (simp add: record_id_def)
qed

lemma parse_unity3d_data_keys:
  assumes "parse_unity3d_data data n = Inr m"
  shows "dom m = {(\<lambda>i. KeyStr (UNITY3D_SEGMENT_NAME_LIST ! i)) (record_id 32 data k) | k. k < n} \<and>
         (\<forall>k<n. record_id 32 data k < 23 \<and> k * 32 + 32 \<le> length data)"
proof -
  have short: "\<forall>off. \<not> off + 32 \<le> length data \<longrightarrow> (\<exists>e. unity3d_item data off = Inl e)"
    using unity3d_item_short by blast
  have bad: "\<forall>off. off + 32 \<le> length data \<and> \<not> be_nat (slice data off (off + 4)) < 23 \<longrightarrow>
      (\<exists>e. unity3d_item data off = Inl e)"
    using unity3d_item_bad by (simp add: not_less)
  have good: "\<forall>off. off + 32 \<le> length data \<and> be_nat (slice data off (off + 4)) < 23 \<longrightarrow>
      (\<exists>v. unity3d_item data off =
         Inr ((\<lambda>i. KeyStr (UNITY3D_SEGMENT_NAME_LIST ! i)) (be_nat (slice data off (off + 4))), v, off + 32))"
    using unity3d_item_good by blast
  from assms have res: "for_records (unity3d_item data) n 0 Map.empty = Inr m"
    by (simp add: parse_unity3d_data_def)
  from decoder_keys[where ok = "\<lambda>i. i < 23"
          and idat = "\<lambda>off. be_nat (slice data off (off + 4))"
          and keyf = "\<lambda>i. (\<lambda>i. KeyStr (UNITY3D_SEGMENT_NAME_LIST ! i)) i", OF short bad good res]
  show ?thesis by (simp add: record_id_def)
qed

lemma parse_linear_kinematics_keys:
  assumes "parse_linear_kinematics data n = Inr m"
  shows "dom m = {(\<lambda>i. KeyStr (SEGMENT_NAME_LIST ! i)) (record_id 40 data k) | k. k < n} \<and>
         (\<forall>k<n. record_id 40 data k < 67 \<and> k * 40 + 40 \<le> length data)"
proof -
  have short: "\<forall>off. \<not> off + 40 \<le> length data \<longrightarrow> (\<exists>e. linear_kinematics_item data off = Inl e)"
    using linear_kinematics_item_short by blast
  have bad: "\<forall>off. off + 40 \<le> length data \<and> \<not> be_nat (slice data off (off + 4)) < 67 \<longrightarrow>
      (\<exists>e. linear_kinematics_item data off = Inl e)"
    using linear_kinematics_item_bad by (simp add: not_less)
  have good: "\<forall>off. off + 40 \<le> length data \<and> be_nat (slice data off (off + 4)) < 67 \<longrightarrow>
      (\<exists>v. linear_kinematics_item data off =
         Inr ((\<lambda>i. KeyStr (SEGMENT_NAME_LIST ! i)) (be_nat (slice data off (off + 4))), v, off + 40))"
    using linear_kinematics_item_good by blast
  from assms have res: "for_records (linear_kinematics_item data) n 0 Map.empty = Inr m"
    by (simp add: parse_linear_kinematics_def)
  from decoder_keys[where ok = "\<lambda>i. i < 67"
          and idat = "\<lambda>off. be_nat (slice data off (off + 4))"
          and keyf = "\<lambda>i. (\<lambda>i. KeyStr (SEGMENT_NAME_LIST ! i)) i", OF short bad good res]
  show ?thesis by (simp add: record_id_def)
qed

lemma parse_angular_kinematics_keys:
  assumes "parse_angular_kinematics data n = Inr m"
  shows "dom m = {(\<lambda>i. KeyStr (SEGMENT_NAME_LIST ! i)) (record_id 44 data k) | k. k < n} \<and>
         (\<forall>k<n. record_id 44 data k < 67 \<and> k * 44 + 44 \<le> length data)"
proof -
  have short: "\<forall>off. \<not> off + 44 \<le> length data \<longrightarrow> (\<exists>e. angular_kinematics_item data off = Inl e)"
    using angular_kinematics_item_short by blast
  have bad: "\<forall>off. off + 44 \<le> length data \<and> \<not> be_nat (slice data off (off + 4)) < 67 \<longrightarrow>
      (\<exists>e. angular_kinematics_item data off = Inl e)"
    using angular_kinematics_item_bad by (simp add: not_less)
  have good: "\<forall>off. off + 44 \<le> length data \<and> be_nat (slice data off (off + 4)) < 67 \<longrightarrow>
      (\<exists>v. angular_kinematics_item data off =
         Inr ((\<lambda>i. KeyStr (SEGMENT_NAME_LIST ! i)) (be_nat (slice data off (off + 4))), v, off + 44))"
    using angular_kinematics_item_good by blast
  from assms have res: "for_records (angular_kinematics_item data) n 0 Map.empty = Inr m"
    by (simp add: parse_angular_kinematics_def)
  from decoder_keys[where ok = "\<lambda>i. i < 67"
          and idat = "\<lambda>off. be_nat (slice data off (off + 4))"
          and keyf = "\<lambda>i. (\<lambda>i. KeyStr (SEGMENT_NAME_LIST ! i)) i", OF short bad good res]
  show ?thesis by (simp add: record_id_def)
qed

lemma parse_point_data_keys:
  assumes "parse_point_data data n = Inr m"
  shows "dom m = {KeyInt (record_id 16 data k) | k. k < n} \<and>
         (\<forall>k<n. k * 16 + 16 \<le> length data)"
proof -
  have short: "\<forall>off. \<not> off + 16 \<le> length data \<longrightarrow> (\<exists>e. point_data_item data off = Inl e)"
    using point_data_item_short by blast
  have bad: "\<forall>off. off + 16 \<le> length data \<and> \<not> True \<longrightarrow> (\<exists>e. point_data_item data off = Inl e)"
    by simp
  have good: "\<forall>off. off + 16 \<le> length data \<and> True \<longrightarrow>
      (\<exists>v. point_data_item data off =
         Inr (KeyInt (be_nat (slice data off (off + 4))), v, off + 16))"
    using point_data_item_good by blast
  from assms have res: "for_records (point_data_item data) n 0 Map.empty = Inr m"
    by (simp add: parse_point_data_def)
  from decoder_keys[where ok = "\<lambda>i. True"
          and idat = "\<lambda>off. be_nat (slice data off (off + 4))"
          and keyf = "\<lambda>i. KeyInt i", OF short bad good res]
  show ?thesis by (simp add: record_id_def)
qed

lemma parse_tracker_kinematics_keys:
  assumes "parse_tracker_kinematics data n = Inr m"
  shows "dom m = {(\<lambda>i. KeyStr (tracker_segment_name i)) (record_id 44 data k) | k. k < n} \<and>
         (\<forall>k<n. k * 44 + 44 \<le> length data)"
proof -
  have short: "\<forall>off. \<not> off + 44 \<le> length data \<longrightarrow> (\<exists>e. tracker_kinematics_item data off = Inl e)"
    using tracker_kinematics_item_short by blast
  have bad: "\<forall>off. off + 44 \<le> length data \<and> \<not> True \<longrightarrow> (\<exists>e. tracker_kinematics_item data off = Inl e)"
    by simp
  have good: "\<forall>off. off + 44 \<le> length data \<and> True \<longrightarrow>
      (\<exists>v. tracker_kinematics_item data off =
         Inr ((\<lambda>i. KeyStr (tracker_segment_name i)) (be_nat (slice data off (off + 4))), v, off + 44))"
    using tracker_kinematics_item_good by blast
  from assms have res: "for_records (tracker_kinematics_item data) n 0 Map.empty = Inr m"
    by (simp add: parse_tracker_kinematics_def)
  from decoder_keys[where ok = "\<lambda>i. True"
          and idat = "\<lambda>off. be_nat (slice data off (off + 4))"
          and keyf = "\<lambda>i. (\<lambda>i. KeyStr (tracker_segment_name i)) i", OF short bad good res]
  show ?thesis by (simp add: record_id_def)
qed

lemma parse_tracker_kinematics_ok:
  assumes "n * 44 \<le> length data"
  shows "\<exists>m. parse_tracker_kinematics data n = Inr m \<and>
             dom m = {KeyStr (tracker_segment_name (record_id 44 data k)) | k. k < n}"
proof -
  have good: "\<forall>off. off + 44 \<le> length data \<longrightarrow>
      (\<exists>v. tracker_kinematics_item data off =
         Inr (KeyStr (tracker_segment_name (be_nat (slice data off (off + 4)))), v, off + 44))"
    using tracker_kinematics_item_good by blast
  from decoder_ok[where idat = "\<lambda>off. be_nat (slice data off (off + 4))"
          and keyf = "\<lambda>i. KeyStr (tracker_segment_name i)", OF good assms]
  show ?thesis by (simp add: parse_tracker_kinematics_def record_id_def)
qed

lemma tracker_generic_name: "67 \<le> i \<Longrightarrow> tracker_segment_name i = ''Tracker_'' @ str_nat i"
  using segment_names_None[of i] by (simp add: tracker_segment_name_def)

text \<open>
  C5. In the decoders of Euler pose, quaternion pose, Unity pose, linear kinematics and
  angular kinematics, if the payload holds record \<open>k\<close> (\<open>k\<close> below the item count) and the
  segment id of that record is in no table (67 or more; for the Unity table 23 or more),
  the decode fails with a segment error that names the id of the first record whose id is
  in no table. The tracker-kinematics decoder accepts every 32-bit id: whenever the
  payload holds all the records it succeeds, each record is stored under the name of its
  id, and an id with no table entry (67 or more) gets the name \<open>Tracker_<id>\<close> with the
  id in decimal.
\<close>

theorem unknown_segment_id_fails_except_trackers:
  "(k < n \<and> (k + 1) * 28 \<le> length data \<and> 67 \<le> record_id 28 data k \<longrightarrow>
      (\<exists>j\<le>k. parse_pose_euler data n =
                Inl (MVNSegmentError ''Invalid segment ID'' (Some (record_id 28 data j))) \<and>
              67 \<le> record_id 28 data j \<and> (\<forall>i<j. record_id 28 data i < 67))) \<and>
   (k < n \<and> (k + 1) * 32 \<le> length data \<and> 67 \<le> record_id 32 data k \<longrightarrow>
      (\<exists>j\<le>k. parse_pose_quaternion data n =
                Inl (MVNSegmentError ''Invalid segment ID'' (Some (record_id 32 data j))) \<and>
              67 \<le> record_id 32 data j \<and> (\<forall>i<j. record_id 32 data i < 67))) \<and>
   (k < n \<and> (k + 1) * 32 \<le> length data \<and> 23 \<le> record_id 32 data k \<longrightarrow>
      (\<exists>j\<le>k. parse_unity3d_data data n =
                Inl (MVNSegmentError ''Invalid Unity3D segment ID''
                       (Some (record_id 32 data j))) \<and>
              23 \<le> record_id 32 data j \<and> (\<forall>i<j. record_id 32 data i < 23))) \<and>
   (k < n \<and> (k + 1) * 40 \<le> length data \<and> 67 \<le> record_id 40 data k \<longrightarrow>
      (\<exists>j\<le>k. parse_linear_kinematics data n =
                Inl (MVNSegmentError ''Invalid segment ID'' (Some (record_id 40 data j))) \<and>
              67 \<le> record_id 40 data j \<and> (\<forall>i<j. record_id 40 data i < 67))) \<and>
   (k < n \<and> (k + 1) * 44 \<le> length data \<and> 67 \<le> record_id 44 data k \<longrightarrow>
      (\<exists>j\<le>k. parse_angular_kinematics data n =
                Inl (MVNSegmentError ''Invalid segment ID'' (Some (record_id 44 data j))) \<and>
              67 \<le> record_id 44 data j \<and> (\<forall>i<j. record_id 44 data i < 67))) \<and>
   (n * 44 \<le> length data \<longrightarrow>
      (\<exists>m. parse_tracker_kinematics data n = Inr m \<and>
           dom m = {KeyStr (tracker_segment_name (record_id 44 data k)) | k. k < n})) \<and>
   (67 \<le> i \<longrightarrow> tracker_segment_name i = ''Tracker_'' @ str_nat i)"
  using parse_pose_euler_fails[of k n data] parse_pose_quaternion_fails[of k n data]
    parse_unity3d_data_fails[of k n data] parse_linear_kinematics_fails[of k n data]
    parse_angular_kinematics_fails[of k n data] parse_tracker_kinematics_ok[of n data]
    tracker_generic_name[of i]
  by blast

theorem unknown_segment_id_fails_except_trackers_witness:
  "parse_pose_euler ([0, 0, 3, 231] @ replicate 40 0) 1 =
     Inl (MVNSegmentError ''Invalid segment ID'' (Some 999)) \<and>
   parse_pose_quaternion ([0, 0, 3, 231] @ replicate 40 0) 1 =
     Inl (MVNSegmentError ''Invalid segment ID'' (Some 999)) \<and>
   parse_unity3d_data ([0, 0, 3, 231] @ replicate 40 0) 1 =
     Inl (MVNSegmentError ''Invalid Unity3D segment ID'' (Some 999)) \<and>
   parse_linear_kinematics ([0, 0, 3, 231] @ replicate 40 0) 1 =
     Inl (MVNSegmentError ''Invalid segment ID'' (Some 999)) \<and>
   parse_angular_kinematics ([0, 0, 3, 231] @ replicate 40 0) 1 =
     Inl (MVNSegmentError ''Invalid segment ID'' (Some 999)) \<and>
   (\<exists>m. parse_tracker_kinematics ([0, 0, 3, 231] @ replicate 40 0) 1 = Inr m \<and>
        dom m = {KeyStr ''Tracker_999''})"
proof -
  define d where "d = [0, 0, 3, 231] @ replicate 40 (0 :: byte)"
  have rid: "record_id s d 0 = 999" for s
    by (simp add: d_def record_id_def slice_def be_nat_def)
  have len: "length d = 44" by (simp add: d_def)
  have nm: "''Tracker_'' @ str_nat 999 = ''Tracker_999''"
    by (simp add: str_nat_more str_nat_digit char_of_eq_char)
  note T = unknown_segment_id_fails_except_trackers[of 0 1 d 999]
  have a: "parse_pose_euler d 1 = Inl (MVNSegmentError ''Invalid segment ID'' (Some 999))"
    using T[THEN conjunct1] by (simp add: rid len)
  have b: "parse_pose_quaternion d 1 = Inl (MVNSegmentError ''Invalid segment ID'' (Some 999))"
    using T[THEN conjunct2, THEN conjunct1] by (simp add: rid len)
  have c: "parse_unity3d_data d 1 =
      Inl (MVNSegmentError ''Invalid Unity3D segment ID'' (Some 999))"
    using T[THEN conjunct2, THEN conjunct2, THEN conjunct1] by (simp add: rid len)
  have d: "parse_linear_kinematics d 1 =
      Inl (MVNSegmentError ''Invalid segment ID'' (Some 999))"
    using T[THEN conjunct2, THEN conjunct2, THEN conjunct2, THEN conjunct1]
    by (simp add: rid len)
  have e: "parse_angular_kinematics d 1 =
      Inl (MVNSegmentError ''Invalid segment ID'' (Some 999))"
    using T[THEN conjunct2, THEN conjunct2, THEN conjunct2, THEN conjunct2, THEN conjunct1]
    by (simp add: rid len)
  have g: "tracker_segment_name 999 = ''Tracker_999''"
    using T[THEN conjunct2, THEN conjunct2, THEN conjunct2, THEN conjunct2, THEN conjunct2,
        THEN conjunct2] nm by simp
  have s: "{KeyStr (tracker_segment_name (record_id 44 d k)) | k. k < 1} =
           {KeyStr ''Tracker_999''}"
    using rid[of 44] g by auto
  have f: "\<exists>m. parse_tracker_kinematics d 1 = Inr m \<and> dom m = {KeyStr ''Tracker_999''}"
    using T[THEN conjunct2, THEN conjunct2, THEN conjunct2, THEN conjunct2, THEN conjunct2,
        THEN conjunct1] len unfolding s by simp
  show ?thesis unfolding d_def[symmetric] using a b c d e f by blast
qed

text \<open>
  C9, as the code has it. When a map decoder succeeds on a payload, the keys of its result are
  exactly the keys of the payload's records. For the Euler-pose, quaternion-pose,
  Unity-pose, linear-kinematics, angular-kinematics and tracker-kinematics maps the key of
  a record is the segment name its id resolves to, a string (the entry of the decoder's
  table; for a tracker id in no table the generic tracker name). For the point-position
  map the key of a record is its numeric point id, not a name.
\<close>

theorem map_decoders_keys:
  "(parse_pose_euler data n = Inr m1 \<longrightarrow>
      dom m1 = {KeyStr (SEGMENT_NAME_LIST ! record_id 28 data k) | k. k < n} \<and>
      (\<forall>k<n. record_id 28 data k < 67)) \<and>
   (parse_pose_quaternion data n = Inr m2 \<longrightarrow>
      dom m2 = {KeyStr (SEGMENT_NAME_LIST ! record_id 32 data k) | k. k < n} \<and>
      (\<forall>k<n. record_id 32 data k < 67)) \<and>
   (parse_unity3d_data data n = Inr m3 \<longrightarrow>
      dom m3 = {KeyStr (UNITY3D_SEGMENT_NAME_LIST ! record_id 32 data k) | k. k < n} \<and>
      (\<forall>k<n. record_id 32 data k < 23)) \<and>
   (parse_linear_kinematics data n = Inr m4 \<longrightarrow>
      dom m4 = {KeyStr (SEGMENT_NAME_LIST ! record_id 40 data k) | k. k < n} \<and>
      (\<forall>k<n. record_id 40 data k < 67)) \<and>
   (parse_angular_kinematics data n = Inr m5 \<longrightarrow>
      dom m5 = {KeyStr (SEGMENT_NAME_LIST ! record_id 44 data k) | k. k < n} \<and>
      (\<forall>k<n. record_id 44 data k < 67)) \<and>
   (parse_tracker_kinematics data n = Inr m6 \<longrightarrow>
      dom m6 = {KeyStr (tracker_segment_name (record_id 44 data k)) | k. k < n}) \<and>
   (parse_point_data data n = Inr m7 \<longrightarrow>
      dom m7 = {KeyInt (record_id 16 data k) | k. k < n})"
proof -
  have a: "parse_pose_euler data n = Inr m1 \<longrightarrow>
      dom m1 = {KeyStr (SEGMENT_NAME_LIST ! record_id 28 data k) | k. k < n} \<and>
      (\<forall>k<n. record_id 28 data k < 67)"
    using parse_pose_euler_keys[of data n m1] by simp
  have b: "parse_pose_quaternion data n = Inr m2 \<longrightarrow>
      dom m2 = {KeyStr (SEGMENT_NAME_LIST ! record_id 32 data k) | k. k < n} \<and>
      (\<forall>k<n. record_id 32 data k < 67)"
    using parse_pose_quaternion_keys[of data n m2] by simp
  have c: "parse_unity3d_data data n = Inr m3 \<longrightarrow>
      dom m3 = {KeyStr (UNITY3D_SEGMENT_NAME_LIST ! record_id 32 data k) | k. k < n} \<and>
      (\<forall>k<n. record_id 32 data k < 23)"
    using parse_unity3d_data_keys[of data n m3] by simp
  have d: "parse_linear_kinematics data n = Inr m4 \<longrightarrow>
      dom m4 = {KeyStr (SEGMENT_NAME_LIST ! record_id 40 data k) | k. k < n} \<and>
      (\<forall>k<n. record_id 40 data k < 67)"
    using parse_linear_kinematics_keys[of data n m4] by simp
  have e: "parse_angular_kinematics data n = Inr m5 \<longrightarrow>
      dom m5 = {KeyStr (SEGMENT_NAME_LIST ! record_id 44 data k) | k. k < n} \<and>
      (\<forall>k<n. record_id 44 data k < 67)"
    using parse_angular_kinematics_keys[of data n m5] by simp
  have f: "parse_tracker_kinematics data n = Inr m6 \<longrightarrow>
      dom m6 = {KeyStr (tracker_segment_name (record_id 44 data k)) | k. k < n}"
    using parse_tracker_kinematics_keys[of data n m6] by simp
  have g: "parse_point_data data n = Inr m7 \<longrightarrow>
      dom m7 = {KeyInt (record_id 16 data k) | k. k < n}"
    using parse_point_data_keys[of data n m7] by simp
  from a b c d e f g show ?thesis by (intro conjI)
qed

lemma be_nat_zeros [simp]: "be_nat (replicate k (0 :: byte)) = 0"
  unfolding be_nat_def by (induction k) simp_all

lemma slice_zeros [simp]:
  "b \<le> n \<Longrightarrow> slice (replicate n (0 :: byte)) a b = replicate (b - a) 0"
  by (simp add: slice_def min_def)

lemma first_names: "SEGMENT_NAME_LIST ! 0 = ''Pelvis''" "UNITY3D_SEGMENT_NAME_LIST ! 0 = ''Pelvis''"
  by (simp_all add: SEGMENT_NAME_LIST_def UNITY3D_SEGMENT_NAME_LIST_def)

lemma for_records_one:
  "item 0 = Inr (key, v, off) \<Longrightarrow> for_records item 1 0 Map.empty = Inr [key \<mapsto> v]"
  by simp

lemma point_zero:
  "parse_point_data (replicate 44 0) 1 = Inr [KeyInt 0 \<mapsto> Point 0 (Position 0 0 0) 0]"
  unfolding parse_point_data_def
  by (rule for_records_one[where off = 16])
     (simp add: point_data_item_def item_simps f32_def)

lemma names_zero:
  "SEGMENT_NAMES 0 = Some ''Pelvis''" "UNITY3D_SEGMENT_NAMES 0 = Some ''Pelvis''"
  "pose_segment_name 0 = Inr ''Pelvis''" "tracker_segment_name 0 = ''Pelvis''"
  by (simp_all add: SEGMENT_NAMES_def UNITY3D_SEGMENT_NAMES_def first_names
      pose_segment_name_def tracker_segment_name_def)

lemma pose_euler_zero:
  "parse_pose_euler (replicate 44 0) 1 =
     Inr [KeyStr ''Pelvis'' \<mapsto> Segment 0 (Position 0 0 0) (OfEuler (Euler 0 0 0))]"
  unfolding parse_pose_euler_def
  by (rule for_records_one[where off = 28])
     (simp add: pose_euler_item_def item_simps f32_def names_zero)

lemma pose_quaternion_zero:
  "parse_pose_quaternion (replicate 44 0) 1 =
     Inr [KeyStr ''Pelvis'' \<mapsto>
            Segment 0 (Position 0 0 0) (OfQuaternion (Quaternion 0 0 0 0))]"
  unfolding parse_pose_quaternion_def
  by (rule for_records_one[where off = 32])
     (simp add: pose_quaternion_item_def item_simps f32_def names_zero)

lemma unity3d_zero:
  "parse_unity3d_data (replicate 44 0) 1 =
     Inr [KeyStr ''Pelvis'' \<mapsto>
            Segment 0 (Position 0 0 0) (OfQuaternion (Quaternion 0 0 0 0))]"
  unfolding parse_unity3d_data_def
  by (rule for_records_one[where off = 32])
     (simp add: unity3d_item_def item_simps f32_def names_zero)

lemma linear_zero:
  "parse_linear_kinematics (replicate 44 0) 1 =
     Inr [KeyStr ''Pelvis'' \<mapsto>
            LinearKinematics 0 (Position 0 0 0) (Velocity 0 0 0) (Acceleration 0 0 0)]"
  unfolding parse_linear_kinematics_def
  by (rule for_records_one[where off = 40])
     (simp add: linear_kinematics_item_def item_simps f32_def names_zero)

lemma angular_zero:
  "parse_angular_kinematics (replicate 44 0) 1 =
     Inr [KeyStr ''Pelvis'' \<mapsto>
            AngularKinematics 0 (Quaternion 0 0 0 0) (AngularVelocity 0 0 0)
              (AngularAcceleration 0 0 0)]"
  unfolding parse_angular_kinematics_def
  by (rule for_records_one[where off = 44])
     (simp add: angular_kinematics_item_def item_simps f32_def names_zero)

lemma tracker_zero:
  "parse_tracker_kinematics (replicate 44 0) 1 =
     Inr [KeyStr ''Pelvis'' \<mapsto>
            TrackerKinematics 0 None (Quaternion 0 0 0 0) (Acceleration 0 0 0)
              (Position 0 0 0)]"
  unfolding parse_tracker_kinematics_def
  by (rule for_records_one[where off = 44])
     (simp add: tracker_kinematics_item_def item_simps f32_def names_zero)

theorem map_decoders_keys_witness:
  "parse_pose_euler (replicate 44 0) 1 =
     Inr [KeyStr ''Pelvis'' \<mapsto> Segment 0 (Position 0 0 0) (OfEuler (Euler 0 0 0))] \<and>
   parse_pose_quaternion (replicate 44 0) 1 =
     Inr [KeyStr ''Pelvis'' \<mapsto>
            Segment 0 (Position 0 0 0) (OfQuaternion (Quaternion 0 0 0 0))] \<and>
   parse_unity3d_data (replicate 44 0) 1 =
     Inr [KeyStr ''Pelvis'' \<mapsto>
            Segment 0 (Position 0 0 0) (OfQuaternion (Quaternion 0 0 0 0))] \<and>
   parse_linear_kinematics (replicate 44 0) 1 =
     Inr [KeyStr ''Pelvis'' \<mapsto>
            LinearKinematics 0 (Position 0 0 0) (Velocity 0 0 0) (Acceleration 0 0 0)] \<and>
   parse_angular_kinematics (replicate 44 0) 1 =
     Inr [KeyStr ''Pelvis'' \<mapsto>
            AngularKinematics 0 (Quaternion 0 0 0 0) (AngularVelocity 0 0 0)
              (AngularAcceleration 0 0 0)] \<and>
   parse_tracker_kinematics (replicate 44 0) 1 =
     Inr [KeyStr ''Pelvis'' \<mapsto>
            TrackerKinematics 0 None (Quaternion 0 0 0 0) (Acceleration 0 0 0)
              (Position 0 0 0)] \<and>
   parse_point_data (replicate 44 0) 1 = Inr [KeyInt 0 \<mapsto> Point 0 (Position 0 0 0) 0] \<and>
   dom [KeyStr ''Pelvis'' \<mapsto> Segment 0 (Position 0 0 0) (OfEuler (Euler 0 0 0))] =
     {KeyStr (SEGMENT_NAME_LIST ! record_id 28 (replicate 44 0) k) | k. k < 1} \<and>
   dom [KeyStr ''Pelvis'' \<mapsto>
          TrackerKinematics 0 None (Quaternion 0 0 0 0) (Acceleration 0 0 0)
            (Position 0 0 0)] =
     {KeyStr (tracker_segment_name (record_id 44 (replicate 44 0) k)) | k. k < 1} \<and>
   dom [KeyInt 0 \<mapsto> Point 0 (Position 0 0 0) 0] =
     {KeyInt (record_id 16 (replicate 44 0) k) | k. k < 1}"
proof -
  note T = map_decoders_keys[of "replicate 44 0" 1
      "[KeyStr ''Pelvis'' \<mapsto> Segment 0 (Position 0 0 0) (OfEuler (Euler 0 0 0))]"
      "[KeyStr ''Pelvis'' \<mapsto> Segment 0 (Position 0 0 0) (OfQuaternion (Quaternion 0 0 0 0))]"
      "[KeyStr ''Pelvis'' \<mapsto> Segment 0 (Position 0 0 0) (OfQuaternion (Quaternion 0 0 0 0))]"
      "[KeyStr ''Pelvis'' \<mapsto>
            LinearKinematics 0 (Position 0 0 0) (Velocity 0 0 0) (Acceleration 0 0 0)]"
      "[KeyStr ''Pelvis'' \<mapsto>
            AngularKinematics 0 (Quaternion 0 0 0 0) (AngularVelocity 0 0 0)
              (AngularAcceleration 0 0 0)]"
      "[KeyStr ''Pelvis'' \<mapsto>
            TrackerKinematics 0 None (Quaternion 0 0 0 0) (Acceleration 0 0 0)
              (Position 0 0 0)]"
      "[KeyInt 0 \<mapsto> Point 0 (Position 0 0 0) 0]"]
  note a = T[THEN conjunct1, rule_format, OF pose_euler_zero, THEN conjunct1]
  note f = T[THEN conjunct2, THEN conjunct2, THEN conjunct2, THEN conjunct2, THEN conjunct2,
      THEN conjunct1, rule_format, OF tracker_zero]
  note g = T[THEN conjunct2, THEN conjunct2, THEN conjunct2, THEN conjunct2, THEN conjunct2,
      THEN conjunct2, rule_format, OF point_zero]
  show ?thesis
    by (intro conjI pose_euler_zero pose_quaternion_zero unity3d_zero linear_zero angular_zero
        tracker_zero point_zero a f g)
qed

theorem point_map_keyed_by_number:
  "parse_point_data ([0, 0, 0, 5] @ replicate 12 0) 1 =
     Inr [KeyInt 5 \<mapsto> Point 5 (Position 0 0 0) 0] \<and>
   [KeyInt 5 \<mapsto> Point 5 (Position 0 0 0) 0] (KeyInt 5) \<noteq> None"
proof -
  have "point_data_item ([0, 0, 0, 5] @ replicate 12 0) 0 =
      Inr (KeyInt 5, Point 5 (Position 0 0 0) 0, 16)"
    by (simp add: point_data_item_def item_simps f32_def slice_def be_nat_zeros[unfolded be_nat_def])
       (simp add: be_nat_def)
  then have "parse_point_data ([0, 0, 0, 5] @ replicate 12 0) 1 =
     Inr [KeyInt 5 \<mapsto> Point 5 (Position 0 0 0) 0]"
    unfolding parse_point_data_def by (rule for_records_one)
  then show ?thesis by simp
qed

end
